(* ===== verification/Prelude.thy ===== *)
theory Prelude
  imports Complex_Main
begin

text \<open>
  What every other theory of the development shares: the kinds of undefined behaviour a run of
  the C code can meet, commands (state transformers that may end in such a fault), weakest
  preconditions for them, and the locale of relations that every step of a run keeps.
\<close>

section \<open>Undefined behaviour as a value\<close>

text \<open>
  A C function either returns, in a new state, or does something the C standard gives no meaning
  to. The second is a value of its own, so that a theorem that a function returns says that none
  of these happen.
\<close>

datatype fault =
    Null_deref        \<comment> \<open>a NULL pointer is read through\<close>
  | Out_of_bounds     \<comment> \<open>a read or write outside of an object\<close>
  | Use_after_free    \<comment> \<open>an object is used after its release\<close>
  | Double_free       \<comment> \<open>an object is released twice\<close>
  | Wrong_object      \<comment> \<open>a pointer does not point to an object of its type\<close>
  | Bad_format        \<comment> \<open>a conversion without a matching argument\<close>
  | Signed_overflow   \<comment> \<open>an \<open>int\<close> sum outside of the range of \<open>int\<close>\<close>
  | Bad_conversion    \<comment> \<open>a number outside of the range of the target type\<close>
  | No_memory         \<comment> \<open>\<open>zbx_malloc\<close> ends the process: a negative size is a huge one\<close>

type_synonym ('s, 'a) cmd = "'s \<Rightarrow> fault + 'a \<times> 's"

named_theorems cmd_simps "rewriting of runs of commands"
named_theorems wp_simps "verification conditions of commands"
named_theorems sql_texts "the SQL texts of the source, to be unfolded"

definition return_c :: "'a \<Rightarrow> ('s, 'a) cmd" where
  "return_c x = (\<lambda>s. Inr (x, s))"

definition fault_c :: "fault \<Rightarrow> ('s, 'a) cmd" where
  "fault_c e = (\<lambda>s. Inl e)"

definition bind_c :: "('s, 'a) cmd \<Rightarrow> ('a \<Rightarrow> ('s, 'b) cmd) \<Rightarrow> ('s, 'b) cmd" where
  "bind_c m f = (\<lambda>s. case m s of Inl e \<Rightarrow> Inl e | Inr (x, s') \<Rightarrow> f x s')"

text \<open>One statement after another, the value of the first not used.\<close>

definition seq_c :: "('s, 'a) cmd \<Rightarrow> ('s, 'b) cmd \<Rightarrow> ('s, 'b) cmd" where
  "seq_c m n = bind_c m (\<lambda>_. n)"

text \<open>A computation on values only, which may be undefined.\<close>

definition lift_c :: "fault + 'a \<Rightarrow> ('s, 'a) cmd" where
  "lift_c r = (\<lambda>s. case r of Inl e \<Rightarrow> Inl e | Inr x \<Rightarrow> Inr (x, s))"

definition get_c :: "('s \<Rightarrow> 'a) \<Rightarrow> ('s, 'a) cmd" where
  "get_c f = (\<lambda>s. Inr (f s, s))"

definition modify_c :: "('s \<Rightarrow> 's) \<Rightarrow> ('s, unit) cmd" where
  "modify_c f = (\<lambda>s. Inr ((), f s))"

text \<open>The same sequencing for computations without a state.\<close>

definition bind_f :: "fault + 'a \<Rightarrow> ('a \<Rightarrow> fault + 'b) \<Rightarrow> fault + 'b" where
  "bind_f r f = (case r of Inl e \<Rightarrow> Inl e | Inr x \<Rightarrow> f x)"

lemma return_c_run [cmd_simps]: "return_c x s = Inr (x, s)"
  by (simp add: return_c_def)

lemma fault_c_run [cmd_simps]: "fault_c e s = Inl e"
  by (simp add: fault_c_def)

lemma get_c_run [cmd_simps]: "get_c f s = Inr (f s, s)"
  by (simp add: get_c_def)

lemma modify_c_run [cmd_simps]: "modify_c f s = Inr ((), f s)"
  by (simp add: modify_c_def)

lemma lift_c_Inr [cmd_simps]: "lift_c (Inr x) s = Inr (x, s)"
  by (simp add: lift_c_def)

lemma lift_c_Inl [cmd_simps]: "lift_c (Inl e) s = Inl e"
  by (simp add: lift_c_def)

lemma bind_c_Inr: "m s = Inr (x, s') \<Longrightarrow> bind_c m f s = f x s'"
  by (simp add: bind_c_def)

lemma bind_c_Inl: "m s = Inl e \<Longrightarrow> bind_c m f s = Inl e"
  by (simp add: bind_c_def)

lemma bind_c_run: "bind_c m f s = (case m s of Inl e \<Rightarrow> Inl e | Inr (x, s') \<Rightarrow> f x s')"
  by (simp add: bind_c_def)

lemma seq_c_run: "seq_c m n s = (case m s of Inl e \<Rightarrow> Inl e | Inr (x, s') \<Rightarrow> n s')"
  by (simp add: seq_c_def bind_c_def)

lemma seq_c_Inr: "m s = Inr (x, s') \<Longrightarrow> seq_c m n s = n s'"
  by (simp add: seq_c_def bind_c_def)

lemma bind_f_simps [simp]:
  "bind_f (Inl e) f = Inl e"
  "bind_f (Inr x) f = f x"
  by (simp_all add: bind_f_def)

lemma bind_f_cong [fundef_cong]:
  "r = r' \<Longrightarrow> (\<And>x. r' = Inr x \<Longrightarrow> f x = f' x) \<Longrightarrow> bind_f r f = bind_f r' f'"
  by (cases r') simp_all

lemma bind_f_eq_Inr: "bind_f r f = Inr y \<longleftrightarrow> (\<exists>x. r = Inr x \<and> f x = Inr y)"
  by (cases r) simp_all

lemma bind_c_eq_Inr:
  "bind_c m f s = Inr (y, t) \<longleftrightarrow> (\<exists>x s'. m s = Inr (x, s') \<and> f x s' = Inr (y, t))"
  by (auto simp: bind_c_def split: sum.splits)

lemma seq_c_eq_Inr:
  "seq_c m n s = Inr (y, t) \<longleftrightarrow> (\<exists>x s'. m s = Inr (x, s') \<and> n s' = Inr (y, t))"
  by (auto simp: seq_c_def bind_c_eq_Inr)

text \<open>The monad laws.\<close>

lemma bind_c_return [cmd_simps]: "bind_c (return_c x) f = f x"
  by (simp add: bind_c_def return_c_def)

lemma bind_c_lift [cmd_simps]: "bind_c (lift_c (Inr x)) f = f x"
  by (simp add: bind_c_def lift_c_def)

lemma bind_c_return_right: "bind_c m return_c = m"
  by (auto simp: bind_c_def return_c_def fun_eq_iff split: sum.splits)

lemma bind_c_assoc: "bind_c (bind_c m f) g = bind_c m (\<lambda>x. bind_c (f x) g)"
  by (auto simp: bind_c_def fun_eq_iff split: sum.splits)

text \<open>A loop over a list that carries a value and may be undefined.\<close>

fun foldM_f :: "('a \<Rightarrow> 'b \<Rightarrow> fault + 'b) \<Rightarrow> 'a list \<Rightarrow> 'b \<Rightarrow> fault + 'b" where
  "foldM_f f [] b = Inr b"
| "foldM_f f (x # xs) b = bind_f (f x b) (foldM_f f xs)"

text \<open>Loops over the elements of a list: one that only changes the state, one that carries a value.\<close>

fun for_c :: "'a list \<Rightarrow> ('a \<Rightarrow> ('s, unit) cmd) \<Rightarrow> ('s, unit) cmd" where
  "for_c [] f = return_c ()"
| "for_c (x # xs) f = seq_c (f x) (for_c xs f)"

fun fold_c :: "'a list \<Rightarrow> ('a \<Rightarrow> 'b \<Rightarrow> ('s, 'b) cmd) \<Rightarrow> 'b \<Rightarrow> ('s, 'b) cmd" where
  "fold_c [] f b = return_c b"
| "fold_c (x # xs) f b = bind_c (f x b) (fold_c xs f)"

section \<open>Weakest preconditions\<close>

text \<open>
  \<open>wp m Q s\<close>: the run of \<open>m\<close> from \<open>s\<close> is defined and ends in \<open>Q\<close>.
  \<open>wlp m Q s\<close>: if the run is defined, it ends in \<open>Q\<close>.
\<close>

definition wp :: "('s, 'a) cmd \<Rightarrow> ('a \<Rightarrow> 's \<Rightarrow> bool) \<Rightarrow> 's \<Rightarrow> bool" where
  "wp m Q s = (case m s of Inl e \<Rightarrow> False | Inr (x, s') \<Rightarrow> Q x s')"

definition wlp :: "('s, 'a) cmd \<Rightarrow> ('a \<Rightarrow> 's \<Rightarrow> bool) \<Rightarrow> 's \<Rightarrow> bool" where
  "wlp m Q s = (case m s of Inl e \<Rightarrow> True | Inr (x, s') \<Rightarrow> Q x s')"

lemma wp_iff: "wp m Q s \<longleftrightarrow> (\<exists>x s'. m s = Inr (x, s') \<and> Q x s')"
  by (auto simp: wp_def split: sum.splits)

lemma wlp_iff: "wlp m Q s \<longleftrightarrow> (\<forall>x s'. m s = Inr (x, s') \<longrightarrow> Q x s')"
  by (auto simp: wlp_def split: sum.splits)

lemma wlpI: "(\<And>x s'. m s = Inr (x, s') \<Longrightarrow> Q x s') \<Longrightarrow> wlp m Q s"
  by (simp add: wlp_iff)

lemma wlpD: "wlp m Q s \<Longrightarrow> m s = Inr (x, s') \<Longrightarrow> Q x s'"
  by (simp add: wlp_iff)

lemma wp_wlp: "wp m Q s \<Longrightarrow> wlp m Q s"
  by (auto simp: wp_iff wlp_iff)

lemma wlp_mono: "wlp m P s \<Longrightarrow> (\<And>x s'. P x s' \<Longrightarrow> Q x s') \<Longrightarrow> wlp m Q s"
  by (simp add: wlp_iff)

lemma wp_mono: "wp m P s \<Longrightarrow> (\<And>x s'. P x s' \<Longrightarrow> Q x s') \<Longrightarrow> wp m Q s"
  by (auto simp: wp_iff)

lemma wp_cmds [wp_simps]:
  "wp (return_c x) Q s = Q x s"
  "wp (fault_c e) Q s = False"
  "wp (bind_c m f) Q s = wp m (\<lambda>x. wp (f x) Q) s"
  "wp (seq_c m n) Q s = wp m (\<lambda>_. wp n Q) s"
  "wp (get_c g) Q s = Q (g s) s"
  "wp (modify_c h) Q s = Q () (h s)"
  "wp (if b then m else m') Q s = (if b then wp m Q s else wp m' Q s)"
  by (auto simp: wp_def cmd_simps bind_c_def seq_c_def split: sum.splits)

lemma wlp_cmds [wp_simps]:
  "wlp (return_c x) Q s = Q x s"
  "wlp (fault_c e) Q s = True"
  "wlp (bind_c m f) Q s = wlp m (\<lambda>x. wlp (f x) Q) s"
  "wlp (seq_c m n) Q s = wlp m (\<lambda>_. wlp n Q) s"
  "wlp (get_c g) Q s = Q (g s) s"
  "wlp (modify_c h) Q s = Q () (h s)"
  "wlp (if b then m else m') Q s = (if b then wlp m Q s else wlp m' Q s)"
  by (auto simp: wlp_def cmd_simps bind_c_def seq_c_def split: sum.splits)

lemma wp_lift [wp_simps]:
  "wp (lift_c (Inr x)) Q s = Q x s"
  "wp (lift_c (Inl e)) Q s = False"
  by (simp_all add: wp_def cmd_simps)

lemma wlp_lift [wp_simps]: "wlp (lift_c r) Q s = (\<forall>x. r = Inr x \<longrightarrow> Q x s)"
  by (cases r) (simp_all add: wlp_def cmd_simps)

section \<open>Relations that every step keeps\<close>

text \<open>
  Many facts about a function of the code are of one form: whatever it does, the state after it
  is related to the state before it by a relation that is reflexive and transitive (no event of
  the past is forgotten, the table of queries is not touched, only these texts are sent). Such a
  fact holds of a function when it holds of the functions it calls. The locale states this once.
\<close>

locale step_relation =
  fixes R :: "'s \<Rightarrow> 's \<Rightarrow> bool"
  assumes R_refl: "R s s"
    and R_trans: "R s t \<Longrightarrow> R t u \<Longrightarrow> R s u"
begin

definition keeps :: "('s, 'a) cmd \<Rightarrow> bool" where
  "keeps m \<longleftrightarrow> (\<forall>s x s'. m s = Inr (x, s') \<longrightarrow> R s s')"

lemma keepsI: "(\<And>s x s'. m s = Inr (x, s') \<Longrightarrow> R s s') \<Longrightarrow> keeps m"
  by (simp add: keeps_def)

lemma keepsD: "keeps m \<Longrightarrow> m s = Inr (x, s') \<Longrightarrow> R s s'"
  by (simp add: keeps_def)

lemma keeps_return: "keeps (return_c x)"
  by (simp add: keeps_def return_c_def R_refl)

lemma keeps_fault: "keeps (fault_c e)"
  by (simp add: keeps_def fault_c_def)

lemma keeps_lift: "keeps (lift_c r)"
  by (auto simp: keeps_def lift_c_def R_refl split: sum.splits)

lemma keeps_get: "keeps (get_c f)"
  by (simp add: keeps_def get_c_def R_refl)

lemma keeps_bind:
  assumes m: "keeps m" and f: "\<And>x. keeps (f x)"
  shows "keeps (bind_c m f)"
proof (rule keepsI)
  fix s y t
  assume "bind_c m f s = Inr (y, t)"
  then obtain x s' where "m s = Inr (x, s')" and "f x s' = Inr (y, t)"
    by (auto simp: bind_c_eq_Inr)
  then have "R s s'" and "R s' t"
    using keepsD [OF m] keepsD [OF f] by blast+
  then show "R s t" by (rule R_trans)
qed

lemma keeps_seq: "keeps m \<Longrightarrow> keeps n \<Longrightarrow> keeps (seq_c m n)"
  unfolding seq_c_def by (rule keeps_bind)

lemma keeps_if: "(b \<Longrightarrow> keeps m) \<Longrightarrow> (\<not> b \<Longrightarrow> keeps n) \<Longrightarrow> keeps (if b then m else n)"
  by simp

lemma keeps_option:
  "(x = None \<Longrightarrow> keeps m) \<Longrightarrow> (\<And>y. x = Some y \<Longrightarrow> keeps (f y)) \<Longrightarrow>
    keeps (case x of None \<Rightarrow> m | Some y \<Rightarrow> f y)"
  by (cases x) simp_all

lemma keeps_prod: "(\<And>a b. x = (a, b) \<Longrightarrow> keeps (f a b)) \<Longrightarrow> keeps (case x of (a, b) \<Rightarrow> f a b)"
  by (cases x) simp

lemma keeps_for: "(\<And>x. keeps (f x)) \<Longrightarrow> keeps (for_c xs f)"
  by (induction xs) (simp_all add: keeps_return keeps_seq)

lemma keeps_fold: "(\<And>x b. keeps (f x b)) \<Longrightarrow> keeps (fold_c xs f b)"
  by (induction xs arbitrary: b) (simp_all add: keeps_return keeps_bind)

lemmas keeps_rules =
  keeps_return keeps_fault keeps_lift keeps_get keeps_bind keeps_seq keeps_if keeps_option
  keeps_prod keeps_for keeps_fold

end

end
