(* ===== verification/CLib.thy ===== *)
theory CLib
  imports Prelude "HOL-Library.Word" "HOL-Library.Char_ord" "HOL-Library.List_Lexorder"
begin

text \<open>
  The functions of the C standard library the module calls: strings (\<open>strlen\<close>, \<open>strcmp\<close>,
  \<open>strncmp\<close>), characters (\<open>isdigit\<close>, \<open>isspace\<close>, \<open>toupper\<close>, in the C locale), conversions of
  numbers (\<open>strtoull\<close>, \<open>strtod\<close>, \<open>atoi\<close>, \<open>atol\<close>) and the directives of \<open>printf\<close> the source
  uses. A C string is the list of its characters before the terminating NUL; \<open>cstring\<close> says
  that a list is one. A \<open>char *\<close> that may be NULL is a \<open>string option\<close>.
\<close>

section \<open>Strings\<close>

abbreviation NUL :: char where
  "NUL \<equiv> CHR 0x00"

text \<open>A single quote, as a text.\<close>

abbreviation SQ :: string where
  "SQ \<equiv> [CHR 0x27]"

definition cstring :: "string \<Rightarrow> bool" where
  "cstring s \<longleftrightarrow> NUL \<notin> set s"

text \<open>\<open>#define strisnull(c) (NULL == c || '\0' == *c)\<close>\<close>

definition strisnull :: "string option \<Rightarrow> bool" where
  "strisnull c = (case c of None \<Rightarrow> True | Some s \<Rightarrow> s = [])"

lemma strisnull_simps [simp]:
  "strisnull None"
  "strisnull (Some s) \<longleftrightarrow> s = []"
  by (simp_all add: strisnull_def)

lemma not_strisnull: "\<not> strisnull c \<longleftrightarrow> (\<exists>s. c = Some s \<and> s \<noteq> [])"
  by (cases c) simp_all

text \<open>
  \<open>strcmp\<close>: the difference of the first characters that differ, read as \<open>unsigned char\<close>, the
  terminating NUL included.
\<close>

fun strcmp :: "string \<Rightarrow> string \<Rightarrow> int" where
  "strcmp [] [] = 0"
| "strcmp [] (y # ys) = - of_char y"
| "strcmp (x # xs) [] = of_char x"
| "strcmp (x # xs) (y # ys) = (if x = y then strcmp xs ys else of_char x - of_char y)"

fun strncmp :: "string \<Rightarrow> string \<Rightarrow> nat \<Rightarrow> int" where
  "strncmp a b 0 = 0"
| "strncmp [] [] (Suc n) = 0"
| "strncmp [] (y # ys) (Suc n) = - of_char y"
| "strncmp (x # xs) [] (Suc n) = of_char x"
| "strncmp (x # xs) (y # ys) (Suc n) =
     (if x = y then strncmp xs ys n else of_char x - of_char y)"

lemma of_char_eq_0_iff: "(of_char c :: int) = 0 \<longleftrightarrow> c = NUL"
proof -
  have "(of_char c :: int) = of_char NUL \<longleftrightarrow> c = NUL"
    by (rule of_char_eq_iff)
  then show ?thesis by simp
qed

lemma of_char_int: "(of_char c :: int) = int (of_char c)"
  by (rule of_nat_of_char [symmetric])

lemma of_char_nonneg: "0 \<le> (of_char c :: int)"
  by (subst of_char_int) (rule of_nat_0_le_iff)

lemma of_char_less_iff: "(of_char x :: int) < of_char y \<longleftrightarrow> x < y"
  by (subst (1 2) of_char_int) (simp only: of_nat_less_iff less_char_def)

lemma cstring_simps [simp]:
  "cstring []"
  "cstring (c # s) \<longleftrightarrow> c \<noteq> NUL \<and> cstring s"
  "cstring (s @ t) \<longleftrightarrow> cstring s \<and> cstring t"
  by (auto simp: cstring_def)

text \<open>On C strings \<open>strcmp\<close> is the lexicographic order of \<open>HOL-Library.List_Lexorder\<close>.\<close>

lemma strcmp_eq_0_iff: "cstring a \<Longrightarrow> cstring b \<Longrightarrow> strcmp a b = 0 \<longleftrightarrow> a = b"
  by (induction a b rule: strcmp.induct) (auto simp: of_char_eq_0_iff)

lemma strcmp_neg_iff: "cstring a \<Longrightarrow> cstring b \<Longrightarrow> strcmp a b < 0 \<longleftrightarrow> a < b"
proof (induction a b rule: strcmp.induct)
  case (2 y ys)
  then show ?case using of_char_nonneg [of y] of_char_eq_0_iff [of y] by simp
next
  case (3 x xs)
  then show ?case using of_char_nonneg [of x] by simp
next
  case (4 x xs y ys)
  then show ?case using of_char_less_iff [of x y] by auto
qed simp

lemma strcmp_pos_iff: "cstring a \<Longrightarrow> cstring b \<Longrightarrow> 0 < strcmp a b \<longleftrightarrow> b < a"
  using strcmp_neg_iff [of a b] strcmp_eq_0_iff [of a b] by (metis linorder_cases less_irrefl not_less_iff_gr_or_eq)

text \<open>\<open>strncmp\<close> compares prefixes.\<close>

lemma strncmp_eq_0_iff:
  "cstring a \<Longrightarrow> cstring b \<Longrightarrow> strncmp a b n = 0 \<longleftrightarrow> take n a = take n b"
  by (induction a b n rule: strncmp.induct) (auto simp: of_char_eq_0_iff)

section \<open>Characters\<close>

definition code :: "char \<Rightarrow> nat" where
  "code c = of_char c"

definition isdigit :: "char \<Rightarrow> bool" where
  "isdigit c \<longleftrightarrow> 48 \<le> code c \<and> code c \<le> 57"

definition isspace :: "char \<Rightarrow> bool" where
  "isspace c \<longleftrightarrow> code c = 32 \<or> (9 \<le> code c \<and> code c \<le> 13)"

definition isxdigit :: "char \<Rightarrow> bool" where
  "isxdigit c \<longleftrightarrow>
     isdigit c \<or> (65 \<le> code c \<and> code c \<le> 70) \<or> (97 \<le> code c \<and> code c \<le> 102)"

definition toupper :: "char \<Rightarrow> char" where
  "toupper c = (if 97 \<le> code c \<and> code c \<le> 122 then char_of (code c - 32) else c)"

definition digit_val :: "char \<Rightarrow> nat" where
  "digit_val c =
     (if code c \<le> 57 then code c - 48 else if code c \<le> 70 then code c - 55 else code c - 87)"

text \<open>The value of a sequence of digits in a base.\<close>

definition digits_val :: "nat \<Rightarrow> string \<Rightarrow> nat" where
  "digits_val b ds = foldl (\<lambda>a c. b * a + digit_val c) 0 ds"

lemma digits_val_snoc: "digits_val b (ds @ [c]) = b * digits_val b ds + digit_val c"
  by (simp add: digits_val_def)

lemma digits_val_Nil [simp]: "digits_val b [] = 0"
  by (simp add: digits_val_def)

section \<open>Decimal text of a number\<close>

definition digit_char :: "nat \<Rightarrow> char" where
  "digit_char d = char_of (48 + d)"

fun show_nat :: "nat \<Rightarrow> string" where
  "show_nat n = (if n < 10 then [digit_char n] else show_nat (n div 10) @ [digit_char (n mod 10)])"

declare show_nat.simps [simp del]

definition show_int :: "int \<Rightarrow> string" where
  "show_int i = (if i < 0 then CHR ''-'' # show_nat (nat (- i)) else show_nat (nat i))"

definition hex_char :: "nat \<Rightarrow> char" where
  "hex_char d = (if d < 10 then char_of (48 + d) else char_of (55 + d))"

fun show_hex :: "nat \<Rightarrow> string" where
  "show_hex n = (if n < 16 then [hex_char n] else show_hex (n div 16) @ [hex_char (n mod 16)])"

declare show_hex.simps [simp del]

lemma digit_char_facts:
  assumes "d < 10"
  shows "isdigit (digit_char d)" and "digit_val (digit_char d) = d"
proof -
  have "code (digit_char d) = 48 + d"
    using assms by (simp add: code_def digit_char_def)
  then show "isdigit (digit_char d)" and "digit_val (digit_char d) = d"
    using assms by (simp_all add: isdigit_def digit_val_def)
qed

lemma show_nat_digits: "\<forall>c \<in> set (show_nat n). isdigit c"
proof (induction n rule: show_nat.induct)
  case (1 n)
  then show ?case
    by (cases "n < 10") (auto simp: show_nat.simps [of n] digit_char_facts)
qed

lemma show_nat_nonempty: "show_nat n \<noteq> []"
  by (simp add: show_nat.simps [of n])

lemma digits_val_show_nat: "digits_val 10 (show_nat n) = n"
proof (induction n rule: show_nat.induct)
  case (1 n)
  then show ?case
    by (cases "n < 10")
      (simp_all add: show_nat.simps [of n] digits_val_snoc digit_char_facts digits_val_def)
qed

section \<open>Directives of printf\<close>

text \<open>
  The arguments a variadic call passes. A \<open>char *\<close> may be NULL; a \<open>char\<close> is not a \<open>char *\<close>.
\<close>

datatype farg = AStr "string option" | AInt int | AChar char

definition emit :: "string \<Rightarrow> fault + string \<Rightarrow> fault + string" where
  "emit s r = bind_f r (\<lambda>t. Inr (s @ t))"

lemma emit_simps [simp]: "emit s (Inr t) = Inr (s @ t)" "emit s (Inl e) = Inl e"
  by (simp_all add: emit_def)

text \<open>
  \<open>c_format fmt args\<close>: the text \<open>vsnprintf\<close> produces, without a bound. The directives of the
  source are \<open>%s\<close>, \<open>%i\<close>, \<open>%lu\<close> and \<open>%0X\<close>, and \<open>%%\<close> stands for itself. Any other directive, a directive
  without an argument and one whose argument has another type have no meaning.
\<close>

fun c_format :: "string \<Rightarrow> farg list \<Rightarrow> fault + string" where
  "c_format [] args = Inr []"
| "c_format [c] args = (if c = CHR ''%'' then Inl Bad_format else Inr [c])"
| "c_format (c # d # f) args =
     (if c \<noteq> CHR ''%'' then emit [c] (c_format (d # f) args)
      else if d = CHR ''%'' then emit ''%'' (c_format f args)
      else if d = CHR ''s'' then
        (case args of
           AStr (Some s) # rest \<Rightarrow> emit s (c_format f rest)
         | _ \<Rightarrow> Inl Bad_format)
      else if d = CHR ''i'' then
        (case args of
           AInt n # rest \<Rightarrow> emit (show_int n) (c_format f rest)
         | _ \<Rightarrow> Inl Bad_format)
      else if d = CHR ''0'' \<and> f \<noteq> [] \<and> hd f = CHR ''X'' then
        (case args of
           AInt n # rest \<Rightarrow> emit (show_hex (nat (n mod 2 ^ 32))) (c_format (tl f) rest)
         | _ \<Rightarrow> Inl Bad_format)
      else if d = CHR ''l'' \<and> f \<noteq> [] \<and> hd f = CHR ''u'' then
        (case args of
           AInt n # rest \<Rightarrow> emit (show_int (n mod 2 ^ 64)) (c_format (tl f) rest)
         | _ \<Rightarrow> Inl Bad_format)
      else Inl Bad_format)"

text \<open>Text without a percent sign is copied.\<close>

lemma c_format_plain: "CHR ''%'' \<notin> set f \<Longrightarrow> c_format f args = Inr f"
proof (induction f)
  case (Cons c f)
  then show ?case by (cases f) auto
qed simp

text \<open>A format that ends in a percent sign, or holds a directive, needs an argument.\<close>

lemma c_format_append:
  "CHR ''%'' \<notin> set a \<Longrightarrow> c_format (a @ f) args = emit a (c_format f args)"
proof (induction a)
  case Nil
  then show ?case by (cases "c_format f args") simp_all
next
  case (Cons c a)
  then have IH: "c_format (a @ f) args = emit a (c_format f args)" and c: "c \<noteq> CHR ''%''"
    by auto
  show ?case
  proof (cases "a @ f")
    case Nil
    then show ?thesis using c by simp
  next
    case (Cons d g)
    then have "c_format ((c # a) @ f) args = emit [c] (c_format (a @ f) args)"
      using c by simp
    then show ?thesis by (cases "c_format f args") (simp_all add: IH)
  qed
qed

lemma c_format_s: "c_format (CHR ''%'' # CHR ''s'' # f) (AStr (Some s) # args) = emit s (c_format f args)"
  by simp

end
