(* ===== verification/CNumber.thy ===== *)
theory CNumber
  imports CLib
begin

text \<open>
  Conversions from text to numbers: \<open>strtoull\<close>, \<open>atol\<close>, \<open>atoi\<close> in base ten and \<open>strtod\<close>,
  \<open>strtold\<close>, with what the C standard says of white space, signs, exponents, hexadecimal floats,
  infinities and numbers out of range; and the cast of a \<open>double\<close> to \<open>unsigned long long\<close>.
\<close>

section \<open>Integers\<close>

definition skip_space :: "string \<Rightarrow> string" where
  "skip_space s = dropWhile isspace s"

text \<open>An optional sign: whether it was a minus, and the text after it.\<close>

definition read_sign :: "string \<Rightarrow> bool \<times> string" where
  "read_sign s =
     (case s of
        [] \<Rightarrow> (False, [])
      | c # r \<Rightarrow> if c = CHR ''-'' then (True, r) else if c = CHR ''+'' then (False, r) else (False, s))"

text \<open>\<open>strtoull(s, NULL, 10)\<close>: too large a magnitude gives \<open>ULLONG_MAX\<close>, a minus negates as unsigned.\<close>

definition strtoull :: "string \<Rightarrow> 64 word" where
  "strtoull s =
     (let (neg, r) = read_sign (skip_space s);
          n = digits_val 10 (takeWhile isdigit r)
      in if 2 ^ 64 \<le> n then of_nat (2 ^ 64 - 1) else if neg then - of_nat n else of_nat n)"

definition decimal_value :: "string \<Rightarrow> int" where
  "decimal_value s =
     (let (neg, r) = read_sign (skip_space s);
          n = int (digits_val 10 (takeWhile isdigit r))
      in if neg then - n else n)"

text \<open>\<open>atol\<close> and \<open>atoi\<close>: no meaning when the value is not representable.\<close>

definition atol :: "string \<Rightarrow> fault + int" where
  "atol s =
     (let v = decimal_value s
      in if - (2 ^ 63) \<le> v \<and> v < 2 ^ 63 then Inr v else Inl Bad_conversion)"

definition atoi :: "string \<Rightarrow> fault + int" where
  "atoi s =
     (let v = decimal_value s
      in if - (2 ^ 31) \<le> v \<and> v < 2 ^ 31 then Inr v else Inl Bad_conversion)"

text \<open>A \<open>long int\<close> stored in an \<open>int\<close> keeps its low 32 bits.\<close>

definition to_int32 :: "int \<Rightarrow> int" where
  "to_int32 v = signed_take_bit 31 v"

section \<open>Floating point\<close>

text \<open>
  A value of type \<open>double\<close>. Which rationals are values, and how others are rounded to them, is the
  platform's business: \<open>strtod\<close> takes the rounding as an argument.
\<close>

datatype cdouble = Finite rat | Infinite bool | NaN

definition scale :: "nat \<Rightarrow> int \<Rightarrow> rat" where
  "scale b e = (if 0 \<le> e then of_nat b ^ nat e else 1 / of_nat b ^ nat (- e))"

text \<open>The exponent after a mantissa: \<open>e\<close> or \<open>E\<close> (\<open>p\<close> or \<open>P\<close> in hexadecimal), a sign, digits.\<close>

definition read_exponent :: "char \<Rightarrow> char \<Rightarrow> string \<Rightarrow> int" where
  "read_exponent lo up r =
     (case r of
        [] \<Rightarrow> 0
      | c # r' \<Rightarrow>
          if c = lo \<or> c = up then
            (let (neg, ds) = read_sign r'; e = int (digits_val 10 (takeWhile isdigit ds))
             in if neg then - e else e)
          else 0)"

text \<open>The digits before the point, the digits after it, and the rest of the text.\<close>

definition read_mantissa :: "(char \<Rightarrow> bool) \<Rightarrow> string \<Rightarrow> string \<times> string \<times> string" where
  "read_mantissa dg r =
     (let ip = takeWhile dg r; r1 = dropWhile dg r
      in case r1 of
           [] \<Rightarrow> (ip, [], [])
         | c # r2 \<Rightarrow> if c = CHR ''.'' then (ip, takeWhile dg r2, dropWhile dg r2) else (ip, [], r1))"

definition read_decimal :: "string \<Rightarrow> rat" where
  "read_decimal r =
     (let (ip, fp, rest) = read_mantissa isdigit r
      in if ip @ fp = [] then 0
         else of_nat (digits_val 10 (ip @ fp))
           * scale 10 (read_exponent (CHR ''e'') (CHR ''E'') rest - int (length fp)))"

definition read_hex :: "string \<Rightarrow> rat" where
  "read_hex r =
     (let (ip, fp, rest) = read_mantissa isxdigit r
      in of_nat (digits_val 16 (ip @ fp))
           * scale 2 (read_exponent (CHR ''p'') (CHR ''P'') rest - 4 * int (length fp)))"

text \<open>Whether hexadecimal digits follow the prefix \<open>0x\<close>; if not, the number is the zero.\<close>

definition hex_prefix :: "string \<Rightarrow> bool" where
  "hex_prefix r \<longleftrightarrow>
     map toupper (take 2 r) = ''0X''
     \<and> (let (ip, fp, rest) = read_mantissa isxdigit (drop 2 r) in ip @ fp \<noteq> [])"

text \<open>The number a text denotes, before any rounding.\<close>

definition strtod_exact :: "string \<Rightarrow> cdouble" where
  "strtod_exact s =
     (let (neg, r) = read_sign (skip_space s); up = map toupper (take 3 r)
      in if up = ''INF'' then Infinite neg
         else if up = ''NAN'' then NaN
         else (let q = (if hex_prefix r then read_hex (drop 2 r) else read_decimal r)
               in Finite (if neg then - q else q)))"

definition strtod :: "(rat \<Rightarrow> cdouble) \<Rightarrow> string \<Rightarrow> cdouble" where
  "strtod rnd s = (case strtod_exact s of Finite q \<Rightarrow> rnd q | d \<Rightarrow> d)"

text \<open>The conversion of a \<open>long double\<close> to a \<open>double\<close>.\<close>

definition to_double_type :: "(rat \<Rightarrow> cdouble) \<Rightarrow> cdouble \<Rightarrow> cdouble" where
  "to_double_type rnd d = (case d of Finite q \<Rightarrow> rnd q | d' \<Rightarrow> d')"

text \<open>
  The cast to \<open>unsigned long long\<close> discards the fraction; it has no meaning when the integral part
  is not a value of the type.
\<close>

definition truncate_rat :: "rat \<Rightarrow> int" where
  "truncate_rat q = (if 0 \<le> q then \<lfloor>q\<rfloor> else - \<lfloor>- q\<rfloor>)"

definition double_to_ull :: "cdouble \<Rightarrow> fault + 64 word" where
  "double_to_ull d =
     (case d of
        Finite q \<Rightarrow>
          (let t = truncate_rat q in if 0 \<le> t \<and> t < 2 ^ 64 then Inr (word_of_int t) else Inl Bad_conversion)
      | _ \<Rightarrow> Inl Bad_conversion)"

section \<open>Round trips\<close>

lemma isdigit_not_sign: "isdigit c \<Longrightarrow> c \<noteq> CHR ''-'' \<and> c \<noteq> CHR ''+'' \<and> c \<noteq> CHR ''.''"
  by (auto simp: isdigit_def code_def)

lemma isdigit_not_space: "isdigit c \<Longrightarrow> \<not> isspace c"
  by (auto simp: isdigit_def isspace_def)

lemma read_sign_digits:
  assumes "ds \<noteq> []" and "\<forall>c \<in> set ds. isdigit c"
  shows "read_sign (skip_space (ds @ r)) = (False, ds @ r)"
proof -
  obtain c cs where ds: "ds = c # cs"
    using assms(1) by (cases ds) auto
  then have "isdigit c" using assms(2) by simp
  then show ?thesis
    using isdigit_not_sign [of c] isdigit_not_space [of c]
    by (simp add: ds read_sign_def skip_space_def)
qed

lemma takeWhile_digits:
  assumes "\<forall>c \<in> set ds. isdigit c" and "r = [] \<or> \<not> isdigit (hd r)"
  shows "takeWhile isdigit (ds @ r) = ds" and "dropWhile isdigit (ds @ r) = r"
proof -
  have "takeWhile isdigit r = []" and "dropWhile isdigit r = r"
    using assms(2) by (cases r; simp)+
  then show "takeWhile isdigit (ds @ r) = ds" and "dropWhile isdigit (ds @ r) = r"
    using assms(1) by (simp_all add: takeWhile_append2)
qed

lemma takeWhile_no_digit: "r = [] \<or> \<not> isdigit (hd r) \<Longrightarrow> takeWhile isdigit r = []"
  by (cases r) simp_all

lemma takeWhile_show_nat [simp]: "takeWhile isdigit (show_nat n) = show_nat n"
  using show_nat_digits [of n] by (simp add: takeWhile_eq_all_conv)

lemma decimal_value_show_nat:
  assumes "r = [] \<or> \<not> isdigit (hd r)"
  shows "decimal_value (show_nat n @ r) = int n"
  using assms show_nat_digits [of n] show_nat_nonempty [of n]
  by (simp add: decimal_value_def read_sign_digits takeWhile_no_digit digits_val_show_nat)

lemma strtoull_show_nat:
  assumes "r = [] \<or> \<not> isdigit (hd r)"
  shows "strtoull (show_nat n @ r) = (if 2 ^ 64 \<le> n then of_nat (2 ^ 64 - 1) else of_nat n)"
  using assms show_nat_digits [of n] show_nat_nonempty [of n]
  by (simp add: strtoull_def read_sign_digits takeWhile_no_digit digits_val_show_nat)

lemma atoi_show_nat: "n < 2 ^ 31 \<Longrightarrow> atoi (show_nat n) = Inr (int n)"
  and atoi_show_nat_large: "2 ^ 31 \<le> n \<Longrightarrow> atoi (show_nat n) = Inl Bad_conversion"
  using decimal_value_show_nat [of "[]" n] by (auto simp: atoi_def)

lemma atol_show_nat: "n < 2 ^ 63 \<Longrightarrow> atol (show_nat n) = Inr (int n)"
  using decimal_value_show_nat [of "[]" n] by (auto simp: atol_def)

lemma to_int32_small: "- (2 ^ 31) \<le> v \<Longrightarrow> v < 2 ^ 31 \<Longrightarrow> to_int32 v = v"
  by (simp add: to_int32_def signed_take_bit_int_eq_self)

lemma truncate_rat_of_nat: "truncate_rat (of_nat n) = int n"
  by (simp add: truncate_rat_def)

lemma double_to_ull_of_nat: "n < 2 ^ 64 \<Longrightarrow> double_to_ull (Finite (of_nat n)) = Inr (of_nat n)"
  by (simp add: double_to_ull_def truncate_rat_of_nat)

text \<open>The text of a number in scientific notation.\<close>

lemma strtod_scientific:
  assumes ds: "ds \<noteq> []" "\<forall>c \<in> set ds. isdigit c"
    and fs: "\<forall>c \<in> set fs. isdigit c"
  shows "strtod_exact (ds @ CHR ''.'' # fs @ ''e+'' @ show_nat e)
    = Finite (of_nat (digits_val 10 (ds @ fs)) * scale 10 (int e - int (length fs)))"
proof -
  let ?r = "ds @ CHR ''.'' # fs @ ''e+'' @ show_nat e"
  obtain c cs where d: "ds = c # cs" using ds(1) by (cases ds) auto
  have c: "48 \<le> code c" "code c \<le> 57" using ds(2) by (auto simp: d isdigit_def)
  have up: "toupper c = c" using c by (simp add: toupper_def)
  have "c \<noteq> CHR ''I''" and "c \<noteq> CHR ''N''" using c by (auto simp: code_def)
  then have no_inf: "map toupper (take 3 ?r) \<noteq> ''INF''" "map toupper (take 3 ?r) \<noteq> ''NAN''"
    using up by (simp_all add: d)
  have no_hex: "\<not> hex_prefix ?r"
  proof (cases cs)
    case Nil
    then show ?thesis by (simp add: d hex_prefix_def toupper_def code_def)
  next
    case (Cons c' cs')
    then have "48 \<le> code c'" "code c' \<le> 57" using ds(2) by (auto simp: d isdigit_def)
    then have "toupper c' \<noteq> CHR ''X''" by (auto simp: toupper_def code_def)
    then show ?thesis by (simp add: d Cons hex_prefix_def)
  qed
  have dot: "\<not> isdigit (CHR ''.'')" and e: "\<not> isdigit (CHR ''e'')"
    by (simp_all add: isdigit_def code_def)
  have mant: "read_mantissa isdigit ?r = (ds, fs, ''e+'' @ show_nat e)"
    using takeWhile_digits [of ds "CHR ''.'' # fs @ ''e+'' @ show_nat e"]
      takeWhile_digits [of fs "''e+'' @ show_nat e"] ds fs dot e
    by (simp add: read_mantissa_def)
  have "read_exponent (CHR ''e'') (CHR ''E'') (''e+'' @ show_nat e) = int e"
    using takeWhile_digits [of "show_nat e" "[]"] show_nat_digits [of e]
    by (simp add: read_exponent_def read_sign_def digits_val_show_nat)
  then have "read_decimal ?r
      = of_nat (digits_val 10 (ds @ fs)) * scale 10 (int e - int (length fs))"
    using ds(1) mant by (simp add: read_decimal_def)
  then show ?thesis
    using no_inf no_hex read_sign_digits [OF ds, of "CHR ''.'' # fs @ ''e+'' @ show_nat e"]
    by (simp add: strtod_exact_def)
qed

end
