(* ===== verification/Machine.thy ===== *)
theory Machine
  imports CNumber
begin

text \<open>
  The world a function of the module runs in. The environment (record \<open>env\<close>) is everything that
  is not code of this repository: libpq with the server behind it, libconfig, the Zabbix agent's
  helper functions, the platform's floating point. The state (record \<open>cstate\<close>) is what the
  module's code changes: the objects it holds (heap blocks, connections, results of queries, JSON
  documents), the answer to the agent, the table of named queries, and the sequence of the calls
  that can be seen from outside.
\<close>

section \<open>Types of the interfaces\<close>

text \<open>
  \<open>AGENT_REQUEST\<close>: the key of the item, the number of its parameters, and what \<open>get_rparam\<close>
  returns for an index (NULL beyond the last).
\<close>

record agent_request =
  req_key :: string
  req_nparam :: nat
  get_rparam :: "nat \<Rightarrow> string option"

text \<open>\<open>AGENT_RESULT\<close>: the values set so far by the agent's \<open>SET_..._RESULT\<close> macros.\<close>

record agent_result =
  res_ui64 :: "64 word option"
  res_dbl :: "cdouble option"
  res_str :: "string option"
  res_msg :: "string option"

datatype sysinfo_ret = SYSINFO_RET_OK | SYSINFO_RET_FAIL

text \<open>A pointer to the result structure: \<open>pg.connect\<close> passes NULL to suppress messages.\<close>

datatype result_ptr = NULL_RESULT | RESULT

text \<open>
  A connection and the result of a query are what libpq's accessor functions report of them. A
  cell or a name that does not exist is a NULL pointer.
\<close>

datatype conn_status = CONNECTION_OK | CONNECTION_BAD

record pgconn =
  PQstatus :: conn_status
  PQerrorMessage :: string

datatype exec_status = PGRES_TUPLES_OK | PGRES_COMMAND_OK | PGRES_FATAL_ERROR

record pgresult =
  PQresultStatus :: exec_status
  PQresultErrorMessage :: string
  PQntuples :: nat
  PQnfields :: nat
  PQfname :: "nat \<Rightarrow> string option"
  PQgetvalue :: "nat \<Rightarrow> nat \<Rightarrow> string option"

text \<open>
  Every column has a name and every cell of the table a value; libpq gives the empty string for
  an SQL null.
\<close>

definition complete_result :: "pgresult \<Rightarrow> bool" where
  "complete_result r \<longleftrightarrow>
     (\<forall>x < PQnfields r. PQfname r x \<noteq> None) \<and>
     (\<forall>i < PQntuples r. \<forall>x < PQnfields r. PQgetvalue r i x \<noteq> None)"

text \<open>A JSON document is the sequence of the calls that built it.\<close>

datatype json_op =
    J_addarray string
  | J_addobject
  | J_addstring string "string option"
  | J_close

text \<open>A setting of a configuration file, as libconfig's accessor functions report it.\<close>

datatype config_type = CONFIG_TYPE_GROUP | CONFIG_TYPE_STRING | CONFIG_TYPE_OTHER

datatype config_setting =
  Setting (config_setting_name: string) (config_setting_type: config_type)
    (config_setting_string: string) (config_setting_elems: "config_setting list")

section \<open>Log levels\<close>

text \<open>The levels of the agent's log, in the order of their numbers.\<close>

datatype log_level =
    LOG_LEVEL_EMPTY | LOG_LEVEL_CRIT | LOG_LEVEL_ERR | LOG_LEVEL_WARNING | LOG_LEVEL_DEBUG
  | LOG_LEVEL_TRACE | LOG_LEVEL_INFORMATION

fun level_number :: "log_level \<Rightarrow> nat" where
  "level_number LOG_LEVEL_EMPTY = 0"
| "level_number LOG_LEVEL_CRIT = 1"
| "level_number LOG_LEVEL_ERR = 2"
| "level_number LOG_LEVEL_WARNING = 3"
| "level_number LOG_LEVEL_DEBUG = 4"
| "level_number LOG_LEVEL_TRACE = 5"
| "level_number LOG_LEVEL_INFORMATION = 127"

lemma level_number_inj: "level_number a = level_number b \<Longrightarrow> a = b"
  by (cases a; cases b) simp_all

instantiation log_level :: linorder
begin

definition less_eq_log_level :: "log_level \<Rightarrow> log_level \<Rightarrow> bool" where
  "less_eq_log_level a b \<longleftrightarrow> level_number a \<le> level_number b"

definition less_log_level :: "log_level \<Rightarrow> log_level \<Rightarrow> bool" where
  "less_log_level a b \<longleftrightarrow> level_number a < level_number b"

instance
  by standard (auto simp: less_eq_log_level_def less_log_level_def intro: level_number_inj)

end

section \<open>Objects, events, state, environment\<close>

text \<open>
  What a pointer of the code may point to: a string made by \<open>strdup\<close>, a buffer that is written
  byte by byte, an array of pointers, and the handles of libpq. A document of the JSON writer is in
  the store from \<open>zbx_json_init\<close> to \<open>zbx_json_free\<close>, as a resource to be given back: its struct is a
  local variable of the function, and whether the library holds memory of the heap for it depends on
  its length and is the library's business.
\<close>

datatype obj =
    Str string
  | Bytes "char list"
  | Ptrs "nat option list"
  | Conn pgconn
  | Res pgresult
  | Json "json_op list"

text \<open>
  What can be seen from outside: by the server, in the agent's log, or on the standard streams of
  the agent's process.
\<close>

datatype stream = Stdout | Stderr

datatype event =
    EConnect string                        \<comment> \<open>\<open>PQconnectdb\<close> with this connection string\<close>
  | EExec string "string list"             \<comment> \<open>\<open>PQexecParams\<close> with this text and these parameters\<close>
  | EFinish                                \<comment> \<open>\<open>PQfinish\<close> of a connection\<close>
  | ELog log_level string
  | EPrint stream string                   \<comment> \<open>\<open>printf\<close> and \<open>fprintf\<close>\<close>

text \<open>The named queries of the configuration file: three global variables of \<open>pg_config.c\<close>.\<close>

record query_table =
  query_keys :: "string option list"
  query_values :: "string option list"
  query_count :: int

text \<open>
  The messages at level DEBUG, which report the steps of each call, are a sequence of their own,
  \<open>debug_log\<close>; the trace holds the calls of libpq and the messages of all other levels.
\<close>

record cstate =
  store :: "nat \<Rightarrow> obj option"
  next_id :: nat
  trace :: "event list"
  answer :: agent_result
  queries :: query_table
  debug_log :: "string list"

text \<open>
  The environment. What the server answers may depend on everything that happened before. The text
  \<open>zbx_snprintf\<close> and \<open>zbx_vsnprintf\<close> leave in a buffer of a size is a function of the size and of
  the formatted text; \<open>zbx_json_text\<close> is the buffer of a JSON document.
\<close>

record env =
  MAX_STRING_LEN :: nat
  ZABBIX_VERSION :: string
  zbx_snprintf :: "nat \<Rightarrow> string \<Rightarrow> string"
  zbx_vsnprintf :: "nat \<Rightarrow> string \<Rightarrow> string"
  zbx_strlcpy :: "nat \<Rightarrow> string \<Rightarrow> string"
  zbx_json_text :: "json_op list \<Rightarrow> string"
  inet_pton4 :: "string \<Rightarrow> bool"
  inet_pton6 :: "string \<Rightarrow> bool"
  round_double :: "rat \<Rightarrow> cdouble"
  round_long_double :: "rat \<Rightarrow> cdouble"
  zabbix_check_log_level :: "(log_level \<Rightarrow> bool) option"
  zbx_log_level :: "log_level option"
  getenv_PGCONFIGFILE :: "string option"
  config_read_file :: "string \<Rightarrow> (string \<times> nat) + config_setting"
  PQconnectdb :: "event list \<Rightarrow> string \<Rightarrow> pgconn"
  PQexecParams :: "event list \<Rightarrow> pgconn \<Rightarrow> string \<Rightarrow> string list \<Rightarrow> pgresult option"

text \<open>
  The documented behaviour of the agent's helpers: at most \<open>n - 1\<close> characters are written into a
  buffer of size \<open>n\<close>, and the buffer of the agent's strings has 2048 bytes.
\<close>

definition zabbix_ok :: "env \<Rightarrow> bool" where
  "zabbix_ok E \<longleftrightarrow>
     MAX_STRING_LEN E = 2048 \<and>
     (\<forall>n s. zbx_snprintf E n s = take (n - 1) s) \<and>
     (\<forall>n s. zbx_vsnprintf E n s = take (n - 1) s) \<and>
     (\<forall>n s. zbx_strlcpy E n s = take (n - 1) s)"

text \<open>The integers a \<open>double\<close> holds exactly (IEEE 754 binary64, and wider for \<open>long double\<close>).\<close>

definition double_ok :: "env \<Rightarrow> bool" where
  "double_ok E \<longleftrightarrow>
     (\<forall>n \<le> 2 ^ 53. round_double E (of_nat n) = Finite (of_nat n)) \<and>
     (\<forall>n \<le> 2 ^ 53. round_long_double E (of_nat n) = Finite (of_nat n))"

type_synonym 'a mcmd = "(cstate, 'a) cmd"

text \<open>
  The state when the module has been loaded: nothing allocated, nothing seen, the global variables
  \<open>query_keys\<close>, \<open>query_values\<close> and \<open>query_count\<close> as they are initialised.
\<close>

definition no_answer :: agent_result where
  "no_answer = \<lparr>res_ui64 = None, res_dbl = None, res_str = None, res_msg = None\<rparr>"

definition start_state :: cstate where
  "start_state =
     \<lparr>store = Map.empty, next_id = 0, trace = [], answer = no_answer,
      queries = \<lparr>query_keys = [], query_values = [], query_count = 0\<rparr>, debug_log = []\<rparr>"

section \<open>Objects of the store\<close>

text \<open>Identifiers from \<open>next_id\<close> on have not been used.\<close>

definition fresh_ok :: "cstate \<Rightarrow> bool" where
  "fresh_ok s \<longleftrightarrow> (\<forall>a \<ge> next_id s. store s a = None)"

definition alloc :: "obj \<Rightarrow> nat mcmd" where
  "alloc x = (\<lambda>s. Inr (next_id s, s\<lparr>store := (store s)(next_id s \<mapsto> x), next_id := Suc (next_id s)\<rparr>))"

text \<open>
  \<open>zbx_malloc\<close> of a size in an \<open>int\<close>, and the \<open>memset\<close> that follows it. A negative size becomes one
  above \<open>2 ^ 63\<close> as a \<open>size_t\<close>, which no process has: the agent's function ends the process.
\<close>

definition malloc_cleared :: "int \<Rightarrow> nat mcmd" where
  "malloc_cleared n = (if n < 0 then fault_c No_memory else alloc (Bytes (replicate (nat n) NUL)))"

lemma malloc_cleared_size:
  "n < 2 ^ 31 \<Longrightarrow> malloc_cleared (to_int32 (int n)) = alloc (Bytes (replicate n NUL))"
  by (simp add: malloc_cleared_def to_int32_small)

lemma malloc_cleared_wrapped:
  assumes "2 ^ 31 \<le> n" and "n < 2 ^ 32"
  shows "malloc_cleared (to_int32 (int n)) s = Inl No_memory"
proof -
  have "(int n + 2 ^ 31) mod 2 ^ 32 = (int n - 2 ^ 31 + 2 ^ 32) mod 2 ^ 32"
    by (simp add: add.commute)
  also have "\<dots> = int n - 2 ^ 31" using assms by (subst mod_add_self2) simp
  finally have "to_int32 (int n) = int n - 2 ^ 32"
    by (simp add: to_int32_def signed_take_bit_eq_take_bit_shift take_bit_eq_mod)
  then show ?thesis using assms(2) by (simp add: malloc_cleared_def fault_c_def)
qed

definition fetch :: "nat \<Rightarrow> obj mcmd" where
  "fetch a = (\<lambda>s. case store s a of None \<Rightarrow> Inl Use_after_free | Some x \<Rightarrow> Inr (x, s))"

definition update :: "nat \<Rightarrow> obj \<Rightarrow> unit mcmd" where
  "update a x =
     (\<lambda>s. case store s a of
            None \<Rightarrow> Inl Use_after_free
          | Some _ \<Rightarrow> Inr ((), s\<lparr>store := (store s)(a \<mapsto> x)\<rparr>))"

definition release :: "nat \<Rightarrow> unit mcmd" where
  "release a =
     (\<lambda>s. case store s a of
            None \<Rightarrow> Inl Double_free
          | Some _ \<Rightarrow> Inr ((), s\<lparr>store := (store s)(a := None)\<rparr>))"

text \<open>\<open>zbx_free\<close>, \<open>PQclear\<close> and \<open>PQfinish\<close> accept NULL and do nothing then.\<close>

definition zbx_free :: "nat option \<Rightarrow> unit mcmd" where
  "zbx_free p = (case p of None \<Rightarrow> return_c () | Some a \<Rightarrow> release a)"

definition log_event :: "event \<Rightarrow> unit mcmd" where
  "log_event e = modify_c (\<lambda>s. s\<lparr>trace := trace s @ [e]\<rparr>)"

definition fetch_str :: "nat \<Rightarrow> string mcmd" where
  "fetch_str a = bind_c (fetch a) (\<lambda>x. case x of Str s \<Rightarrow> return_c s | _ \<Rightarrow> fault_c Wrong_object)"

definition fetch_bytes :: "nat \<Rightarrow> (char list) mcmd" where
  "fetch_bytes a = bind_c (fetch a) (\<lambda>x. case x of Bytes b \<Rightarrow> return_c b | _ \<Rightarrow> fault_c Wrong_object)"

definition fetch_ptrs :: "nat \<Rightarrow> (nat option list) mcmd" where
  "fetch_ptrs a = bind_c (fetch a) (\<lambda>x. case x of Ptrs p \<Rightarrow> return_c p | _ \<Rightarrow> fault_c Wrong_object)"

definition fetch_conn :: "nat \<Rightarrow> pgconn mcmd" where
  "fetch_conn a = bind_c (fetch a) (\<lambda>x. case x of Conn c \<Rightarrow> return_c c | _ \<Rightarrow> fault_c Wrong_object)"

definition fetch_res :: "nat \<Rightarrow> pgresult mcmd" where
  "fetch_res a = bind_c (fetch a) (\<lambda>x. case x of Res r \<Rightarrow> return_c r | _ \<Rightarrow> fault_c Wrong_object)"

definition fetch_json :: "nat \<Rightarrow> (json_op list) mcmd" where
  "fetch_json a = bind_c (fetch a) (\<lambda>x. case x of Json j \<Rightarrow> return_c j | _ \<Rightarrow> fault_c Wrong_object)"

section \<open>The agent's log and the result structure\<close>

text \<open>
  The macro \<open>zabbix_log\<close> of \<open>libzbxpgsql.h\<close>: a message is dropped when the agent's level check is
  known and refuses it, or when the level variable is known, the message is not informational and
  its level is above the variable or empty.
\<close>

definition log_enabled :: "env \<Rightarrow> log_level \<Rightarrow> bool" where
  "log_enabled E level \<longleftrightarrow>
     \<not> (case zabbix_check_log_level E of None \<Rightarrow> False | Some check \<Rightarrow> \<not> check level) \<and>
     \<not> (case zbx_log_level E of
          None \<Rightarrow> False
        | Some v \<Rightarrow> level \<noteq> LOG_LEVEL_INFORMATION \<and> (v < level \<or> level = LOG_LEVEL_EMPTY))"

definition log_message :: "log_level \<Rightarrow> string \<Rightarrow> unit mcmd" where
  "log_message level msg =
     (if level = LOG_LEVEL_DEBUG then modify_c (\<lambda>s. s\<lparr>debug_log := debug_log s @ [msg]\<rparr>)
      else log_event (ELog level msg))"

definition zabbix_log :: "env \<Rightarrow> log_level \<Rightarrow> string \<Rightarrow> farg list \<Rightarrow> unit mcmd" where
  "zabbix_log E level fmt args =
     (if log_enabled E level
      then bind_c (lift_c (c_format fmt args)) (log_message level)
      else return_c ())"

text \<open>\<open>fprintf\<close> to a standard stream.\<close>

definition print_to :: "stream \<Rightarrow> string \<Rightarrow> farg list \<Rightarrow> unit mcmd" where
  "print_to f fmt args = bind_c (lift_c (c_format fmt args)) (\<lambda>msg. log_event (EPrint f msg))"

text \<open>
  Most functions log that they are entered and left: \<open>In <name>\<close> at the start and \<open>End of <name>\<close>
  before the return, where the name is printed by \<open>fmt\<close> (\<open>%s\<close>, \<open>%s()\<close>, or \<open>%s(%s)\<close> with the
  key of the item).
\<close>

definition traced :: "env \<Rightarrow> string \<Rightarrow> farg list \<Rightarrow> 'a mcmd \<Rightarrow> 'a mcmd" where
  "traced E fmt args body =
     seq_c (zabbix_log E LOG_LEVEL_DEBUG (''In '' @ fmt) args)
     (bind_c body (\<lambda>ret.
     seq_c (zabbix_log E LOG_LEVEL_DEBUG (''End of '' @ fmt) args)
     (return_c ret)))"

definition SET_UI64_RESULT :: "64 word \<Rightarrow> unit mcmd" where
  "SET_UI64_RESULT v = modify_c (\<lambda>s. s\<lparr>answer := (answer s)\<lparr>res_ui64 := Some v\<rparr>\<rparr>)"

definition SET_DBL_RESULT :: "cdouble \<Rightarrow> unit mcmd" where
  "SET_DBL_RESULT v = modify_c (\<lambda>s. s\<lparr>answer := (answer s)\<lparr>res_dbl := Some v\<rparr>\<rparr>)"

definition SET_STR_RESULT :: "string \<Rightarrow> unit mcmd" where
  "SET_STR_RESULT v = modify_c (\<lambda>s. s\<lparr>answer := (answer s)\<lparr>res_str := Some v\<rparr>\<rparr>)"

definition SET_MSG_RESULT :: "string \<Rightarrow> unit mcmd" where
  "SET_MSG_RESULT v = modify_c (\<lambda>s. s\<lparr>answer := (answer s)\<lparr>res_msg := Some v\<rparr>\<rparr>)"

text \<open>
  \<open>set_err_result\<close>: the message is formatted into a buffer, logged, and stored in the result when
  there is one. The value is always \<open>SYSINFO_RET_FAIL\<close>.
\<close>

definition set_err_result ::
  "env \<Rightarrow> result_ptr \<Rightarrow> string \<Rightarrow> farg list \<Rightarrow> sysinfo_ret mcmd" where
  "set_err_result E result format args =
     bind_c (lift_c (c_format format args)) (\<lambda>text.
     let msg = zbx_vsnprintf E (MAX_STRING_LEN E) text in
     seq_c (zabbix_log E LOG_LEVEL_ERR ''PostgreSQL: %s'' [AStr (Some msg)])
     (seq_c (if result = RESULT then SET_MSG_RESULT msg else return_c ())
     (return_c SYSINFO_RET_FAIL)))"

section \<open>States with more messages in the debug log\<close>

text \<open>
  A run in the middle of which debug messages are written is followed state by state: the messages
  are moved to the outside of the state, where no other operation looks.
\<close>

definition noted :: "env \<Rightarrow> string list \<Rightarrow> cstate \<Rightarrow> cstate" where
  "noted E ms s = s\<lparr>debug_log := debug_log s @ (if log_enabled E LOG_LEVEL_DEBUG then ms else [])\<rparr>"

lemma noted_simps [simp]:
  "store (noted E ms s) = store s" "next_id (noted E ms s) = next_id s"
  "trace (noted E ms s) = trace s" "answer (noted E ms s) = answer s"
  "queries (noted E ms s) = queries s" "fresh_ok (noted E ms s) = fresh_ok s"
  "(noted E ms s)\<lparr>store := st\<rparr> = noted E ms (s\<lparr>store := st\<rparr>)"
  "(noted E ms s)\<lparr>next_id := n\<rparr> = noted E ms (s\<lparr>next_id := n\<rparr>)"
  "(noted E ms s)\<lparr>trace := tr\<rparr> = noted E ms (s\<lparr>trace := tr\<rparr>)"
  "(noted E ms s)\<lparr>answer := a\<rparr> = noted E ms (s\<lparr>answer := a\<rparr>)"
  "(noted E ms s)\<lparr>queries := q\<rparr> = noted E ms (s\<lparr>queries := q\<rparr>)"
  "noted E ms (noted E ns s) = noted E (ns @ ms) s"
  "noted E [] s = s"
  by (simp_all add: noted_def fresh_ok_def)

lemma noted_off: "\<not> log_enabled E LOG_LEVEL_DEBUG \<Longrightarrow> noted E ms s = s"
  by (simp add: noted_def)

lemma noted_eq [simp]: "noted E ms s = noted E ms t \<longleftrightarrow> s = t"
  by (cases s; cases t) (auto simp: noted_def)

lemma debug_log_noted:
  "debug_log (noted E ms s) = debug_log s @ (if log_enabled E LOG_LEVEL_DEBUG then ms else [])"
  by (simp add: noted_def)

lemma debug_run [cmd_simps]:
  "zabbix_log E LOG_LEVEL_DEBUG fmt args s =
    (case c_format fmt args of
       Inl e \<Rightarrow> if log_enabled E LOG_LEVEL_DEBUG then Inl e else Inr ((), s)
     | Inr msg \<Rightarrow> Inr ((), noted E [msg] s))"
  by (cases "c_format fmt args")
    (simp_all add: zabbix_log_def log_message_def noted_def bind_c_run cmd_simps)

text \<open>A traced run: the messages around it.\<close>

lemma traced_run:
  assumes "c_format fmt args = Inr name"
  shows "traced E fmt args body s =
    (case body (noted E [''In '' @ name] s) of
       Inl e \<Rightarrow> Inl e
     | Inr (x, t) \<Rightarrow> Inr (x, noted E [''End of '' @ name] t))"
proof -
  have "c_format (''In '' @ fmt) args = Inr (''In '' @ name)"
    "c_format (''End of '' @ fmt) args = Inr (''End of '' @ name)"
    using c_format_append [of "''In ''" fmt args] c_format_append [of "''End of ''" fmt args] assms
    by simp_all
  then show ?thesis
    by (simp add: traced_def seq_c_run bind_c_run cmd_simps split: sum.split)
qed

text \<open>The messages of a traced run, those of its body between them.\<close>

definition around :: "string \<Rightarrow> string list \<Rightarrow> string list" where
  "around name ms = (''In '' @ name) # ms @ [''End of '' @ name]"

text \<open>The three ways the functions print their name.\<close>

lemma traced_names [cmd_simps]:
  "traced E ''%s'' [AStr (Some f)] body s =
    (case body (noted E [''In '' @ f] s) of
       Inl e \<Rightarrow> Inl e
     | Inr (x, t) \<Rightarrow> Inr (x, noted E [''End of '' @ f] t))"
  "traced E ''%s()'' [AStr (Some f)] body s =
    (case body (noted E [''In '' @ f @ ''()''] s) of
       Inl e \<Rightarrow> Inl e
     | Inr (x, t) \<Rightarrow> Inr (x, noted E [''End of '' @ f @ ''()''] t))"
  "traced E ''%s(%s)'' [AStr (Some f), AStr (Some k)] body s =
    (case body (noted E [''In '' @ f @ ''('' @ k @ '')''] s) of
       Inl e \<Rightarrow> Inl e
     | Inr (x, t) \<Rightarrow> Inr (x, noted E [''End of '' @ f @ ''('' @ k @ '')''] t))"
  by (simp_all add: traced_run split: sum.split)

end
