(* ===== verification/Connect.thy ===== *)
theory Connect
  imports Machine
begin

text \<open>
  Connections (\<open>pg_connect.c\<close>) and the string primitive they use (\<open>strcat2\<close> of
  \<open>libzbxpgsql.c\<close>). A buffer is a list of bytes of a fixed length; a write beyond its end is a
  fault, so that a defined result says that the buffer was large enough.
\<close>

section \<open>strcat2\<close>

text \<open>\<open>while (*dest) dest++\<close>: the first NUL from an offset on.\<close>

function seek_end :: "char list \<Rightarrow> nat \<Rightarrow> fault + nat" where
  "seek_end b i =
     (if i < length b then if b ! i = NUL then Inr i else seek_end b (Suc i)
      else Inl Out_of_bounds)"
  by pat_completeness auto
termination
  by (relation "measure (\<lambda>(b, i). length b - i)") auto

declare seek_end.simps [simp del]

definition poke :: "char list \<Rightarrow> nat \<Rightarrow> char \<Rightarrow> fault + char list" where
  "poke b i c = (if i < length b then Inr (b[i := c]) else Inl Out_of_bounds)"

text \<open>
  \<open>while ((*dest++ = *src++))\<close>: every character of the source is copied, the terminating NUL
  included, where the loop stops; the value is the offset of that NUL.
\<close>

fun copy_chars :: "char list \<Rightarrow> nat \<Rightarrow> string \<Rightarrow> fault + char list \<times> nat" where
  "copy_chars b i [] = bind_f (poke b i NUL) (\<lambda>b'. Inr (b', i))"
| "copy_chars b i (c # cs) =
     bind_f (poke b i c) (\<lambda>b'. if c = NUL then Inr (b', i) else copy_chars b' (Suc i) cs)"

definition strcat2 ::
  "char list \<Rightarrow> nat option \<Rightarrow> string option \<Rightarrow> fault + char list \<times> nat option" where
  "strcat2 b dest src =
     (case (dest, src) of
        (Some i, Some t) \<Rightarrow>
          bind_f (seek_end b i) (\<lambda>j.
          bind_f (copy_chars b j t) (\<lambda>(b', k). Inr (b', Some k)))
      | _ \<Rightarrow> Inr (b, dest))"

text \<open>The C string at an offset of a buffer.\<close>

definition c_str :: "char list \<Rightarrow> nat \<Rightarrow> fault + string" where
  "c_str b i =
     (if NUL \<in> set (drop i b) then Inr (takeWhile (\<lambda>c. c \<noteq> NUL) (drop i b)) else Inl Out_of_bounds)"

lemma seek_end_run:
  assumes "cstring s"
  shows "seek_end (pre @ s @ NUL # rest) (length pre) = Inr (length pre + length s)"
  using assms
proof (induction s arbitrary: pre)
  case Nil
  then show ?case by (simp add: seek_end.simps nth_append)
next
  case (Cons c s)
  have "seek_end (pre @ (c # s) @ NUL # rest) (length pre)
      = seek_end ((pre @ [c]) @ s @ NUL # rest) (length (pre @ [c]))"
    using Cons.prems by (subst seek_end.simps) (simp add: nth_append)
  then show ?case using Cons.IH [of "pre @ [c]"] Cons.prems by simp
qed

lemma poke_append: "poke (pre @ x # rest) (length pre) c = Inr (pre @ c # rest)"
  by (simp add: poke_def list_update_append)

lemma poke_end: "poke pre (length pre) c = Inl Out_of_bounds"
  by (simp add: poke_def)

lemma copy_chars_run:
  assumes "cstring t" and "length t < length rest"
  shows "copy_chars (pre @ rest) (length pre) t
    = Inr (pre @ t @ NUL # drop (Suc (length t)) rest, length pre + length t)"
  using assms
proof (induction t arbitrary: pre rest)
  case Nil
  then obtain x xs where "rest = x # xs" by (cases rest) auto
  then show ?case by (simp add: poke_append)
next
  case (Cons c t)
  then obtain x xs where r: "rest = x # xs" by (cases rest) auto
  have "copy_chars ((pre @ [c]) @ xs) (length (pre @ [c])) t
      = Inr ((pre @ [c]) @ t @ NUL # drop (Suc (length t)) xs, length (pre @ [c]) + length t)"
    using Cons.prems r by (intro Cons.IH) auto
  then show ?case using Cons.prems by (simp add: r poke_append)
qed

lemma copy_chars_overflow:
  assumes "cstring t" and "length rest \<le> length t"
  shows "copy_chars (pre @ rest) (length pre) t = Inl Out_of_bounds"
  using assms
proof (induction t arbitrary: pre rest)
  case Nil
  then show ?case by (simp add: poke_end)
next
  case (Cons c t)
  show ?case
  proof (cases rest)
    case Nil
    then show ?thesis by (simp add: poke_end)
  next
    case (Cons x xs)
    then have "copy_chars ((pre @ [c]) @ xs) (length (pre @ [c])) t = Inl Out_of_bounds"
      using Cons.prems by (intro Cons.IH) auto
    then show ?thesis using Cons.prems Cons by (simp add: poke_append)
  qed
qed

text \<open>
  \<open>strcat2\<close> appends the source to the C string at \<open>dest\<close> and returns the offset of the new NUL,
  when the buffer has room for it; otherwise it writes beyond the end.
\<close>

lemma strcat2_run:
  assumes "cstring s" and "cstring t" and "length t \<le> length rest"
  shows "strcat2 (pre @ s @ NUL # rest) (Some (length pre)) (Some t)
    = Inr (pre @ s @ t @ NUL # drop (length t) rest, Some (length pre + length s + length t))"
  using seek_end_run [OF assms(1), of pre rest] copy_chars_run [of t "NUL # rest" "pre @ s"] assms
  by (simp add: strcat2_def)

lemma strcat2_overflow:
  assumes "cstring s" and "cstring t" and "length rest < length t"
  shows "strcat2 (pre @ s @ NUL # rest) (Some (length pre)) (Some t) = Inl Out_of_bounds"
  using seek_end_run [OF assms(1), of pre rest] copy_chars_overflow [of t "NUL # rest" "pre @ s"]
    assms
  by (simp add: strcat2_def)

lemma strcat2_NULL [simp]: "strcat2 b dest None = Inr (b, dest)"
  by (simp add: strcat2_def split: option.split)

lemma c_str_run: "cstring s \<Longrightarrow> c_str (pre @ s @ NUL # rest) (length pre) = Inr s"
  by (auto simp: c_str_def cstring_def takeWhile_append2 takeWhile_tail)

section \<open>build_connstring\<close>

text \<open>\<open>strcat2\<close> on a buffer of the heap.\<close>

definition strcat2_at :: "nat \<Rightarrow> nat option \<Rightarrow> string option \<Rightarrow> nat option mcmd" where
  "strcat2_at a dest src =
     bind_c (fetch_bytes a) (\<lambda>b.
     bind_c (lift_c (strcat2 b dest src)) (\<lambda>(b', dest').
     seq_c (update a (Bytes b')) (return_c dest')))"

definition c_str_at :: "nat \<Rightarrow> string mcmd" where
  "c_str_at a = bind_c (fetch_bytes a) (\<lambda>b. lift_c (c_str b 0))"

definition DEFAULT_CONN_STRING :: string where
  "DEFAULT_CONN_STRING = ''''"

definition DEFAULT_CONN_DBNAME :: "string option" where
  "DEFAULT_CONN_DBNAME = None"

definition strlen0 :: "string option \<Rightarrow> nat" where
  "strlen0 p = (case p of None \<Rightarrow> 0 | Some s \<Rightarrow> length s)"

definition build_connstring :: "string option \<Rightarrow> string option \<Rightarrow> nat mcmd" where
  "build_connstring connstring dbname =
     (let bufferlen = to_int32 (int (strlen0 connstring + strlen0 dbname + 9)) in
      bind_c (malloc_cleared bufferlen) (\<lambda>res.
      bind_c (strcat2_at res (Some 0)
                (if strisnull connstring then Some DEFAULT_CONN_STRING else connstring)) (\<lambda>c.
      bind_c (strcat2_at res c (if strisnull connstring then None else Some '' '')) (\<lambda>c.
      bind_c (strcat2_at res c (Some ''dbname='')) (\<lambda>c.
      bind_c (strcat2_at res c (if strisnull dbname then DEFAULT_CONN_DBNAME else dbname)) (\<lambda>c.
      return_c res))))))"

text \<open>What the connection string is meant to be.\<close>

definition connstring_spec :: "string option \<Rightarrow> string option \<Rightarrow> string" where
  "connstring_spec connstring dbname =
     (if strisnull connstring then '''' else the connstring @ '' '') @ ''dbname='' @
     (if strisnull dbname then '''' else the dbname)"

definition cstring_ptr :: "string option \<Rightarrow> bool" where
  "cstring_ptr p = (case p of None \<Rightarrow> True | Some s \<Rightarrow> cstring s)"

lemma strcat2_at_run:
  assumes "store s a = Some (Bytes (pre @ t @ NUL # rest))"
    and "cstring t" and "cstring u" and "length u \<le> length rest"
  shows "strcat2_at a (Some (length pre)) (Some u) s =
    Inr (Some (length pre + length t + length u),
         s\<lparr>store := (store s)(a \<mapsto> Bytes (pre @ t @ u @ NUL # drop (length u) rest))\<rparr>)"
  using strcat2_run [OF assms(2-4), of pre] assms(1)
  by (simp add: strcat2_at_def fetch_bytes_def fetch_def update_def bind_c_def seq_c_def cmd_simps)

text \<open>
  A buffer that is only appended to holds a text, its NUL, and \<open>k\<close> free bytes. A NULL source
  appends nothing.
\<close>

definition str0 :: "string option \<Rightarrow> string" where
  "str0 p = (case p of None \<Rightarrow> [] | Some s \<Rightarrow> s)"

definition text_buffer :: "string \<Rightarrow> nat \<Rightarrow> obj" where
  "text_buffer t k = Bytes (t @ NUL # replicate k NUL)"

lemma strcat2_at_text:
  assumes "store s a = Some (text_buffer t k)"
    and "cstring t" and "cstring_ptr p" and "length (str0 p) \<le> k"
  shows "strcat2_at a (Some (length t)) p s = Inr (Some (length (t @ str0 p)),
    s\<lparr>store := (store s)(a \<mapsto> text_buffer (t @ str0 p) (k - length (str0 p)))\<rparr>)"
proof (cases p)
  case None
  then show ?thesis
    using assms(1)
    by (simp add: strcat2_at_def fetch_bytes_def fetch_def update_def bind_c_def seq_c_def
        cmd_simps text_buffer_def str0_def fun_upd_idem)
next
  case (Some u)
  then show ?thesis
    using strcat2_at_run [of s a t "[]" "replicate k NUL" u] assms
    by (simp add: text_buffer_def str0_def cstring_ptr_def)
qed

lemma cstring_str0: "cstring_ptr p \<Longrightarrow> cstring (str0 p)"
  by (cases p) (simp_all add: cstring_ptr_def str0_def)

text \<open>Four pieces appended one after the other, as \<open>build_connstring\<close> does.\<close>

lemma strcat2_at_four:
  assumes "store s a = Some (text_buffer [] k)"
    and "cstring_ptr p1" "cstring_ptr p2" "cstring_ptr p3" "cstring_ptr p4"
    and len: "length (str0 p1 @ str0 p2 @ str0 p3 @ str0 p4) \<le> k"
  shows "bind_c (strcat2_at a (Some 0) p1) (\<lambda>c. bind_c (strcat2_at a c p2) (\<lambda>c.
      bind_c (strcat2_at a c p3) (\<lambda>c. bind_c (strcat2_at a c p4) (\<lambda>c. return_c a)))) s
    = Inr (a, s\<lparr>store := (store s)(a \<mapsto> text_buffer (str0 p1 @ str0 p2 @ str0 p3 @ str0 p4)
        (k - length (str0 p1 @ str0 p2 @ str0 p3 @ str0 p4)))\<rparr>)"
proof -
  note strs = assms(2-5) [THEN cstring_str0]
  let ?st = "\<lambda>t. s\<lparr>store := (store s)(a \<mapsto> text_buffer t (k - length t))\<rparr>"
  have step: "strcat2_at a (Some (length t)) p (?st t) = Inr (Some (length (t @ str0 p)), ?st (t @ str0 p))"
    if "cstring t" "cstring_ptr p" "length (t @ str0 p) \<le> k" for t p
    using strcat2_at_text [of "?st t" a t "k - length t" p] that by simp
  have "?st [] = s" using assms(1) by (simp add: fun_upd_idem)
  then have "strcat2_at a (Some 0) p1 s = Inr (Some (length (str0 p1)), ?st (str0 p1))"
    using step [of "[]" p1] assms(2) len by simp
  moreover have "strcat2_at a (Some (length (str0 p1))) p2 (?st (str0 p1))
      = Inr (Some (length (str0 p1 @ str0 p2)), ?st (str0 p1 @ str0 p2))"
    using step [of "str0 p1" p2] strs assms(3) len by simp
  moreover have "strcat2_at a (Some (length (str0 p1 @ str0 p2))) p3 (?st (str0 p1 @ str0 p2))
      = Inr (Some (length (str0 p1 @ str0 p2 @ str0 p3)), ?st (str0 p1 @ str0 p2 @ str0 p3))"
    using step [of "str0 p1 @ str0 p2" p3] strs assms(4) len by simp
  moreover have "strcat2_at a (Some (length (str0 p1 @ str0 p2 @ str0 p3))) p4
        (?st (str0 p1 @ str0 p2 @ str0 p3))
      = Inr (Some (length (str0 p1 @ str0 p2 @ str0 p3 @ str0 p4)),
          ?st (str0 p1 @ str0 p2 @ str0 p3 @ str0 p4))"
    using step [of "str0 p1 @ str0 p2 @ str0 p3" p4] strs assms(5) len by simp
  ultimately show ?thesis by (simp add: bind_c_run return_c_run)
qed

lemma build_connstring_run:
  assumes c: "cstring_ptr connstring" and d: "cstring_ptr dbname"
    and size: "strlen0 connstring + strlen0 dbname + 9 < 2 ^ 31"
  shows "\<exists>k. build_connstring connstring dbname s = Inr (next_id s,
    s\<lparr>store := (store s)(next_id s \<mapsto> text_buffer (connstring_spec connstring dbname) k),
      next_id := Suc (next_id s)\<rparr>)
    \<and> length (connstring_spec connstring dbname) + Suc k = strlen0 connstring + strlen0 dbname + 9"
proof -
  let ?n = "next_id s"
  define L where "L = strlen0 connstring + strlen0 dbname + 8"
  define p1 where "p1 = (if strisnull connstring then Some DEFAULT_CONN_STRING else connstring)"
  define p2 where "p2 = (if strisnull connstring then None else Some '' '')"
  define p4 where "p4 = (if strisnull dbname then DEFAULT_CONN_DBNAME else dbname)"
  let ?p3 = "Some ''dbname=''" and ?t = "connstring_spec connstring dbname"
  have cs: "cstring_ptr p1" "cstring_ptr p2" "cstring_ptr ?p3" "cstring_ptr p4"
    using c d by (auto simp: p1_def p2_def p4_def cstring_ptr_def DEFAULT_CONN_STRING_def
        DEFAULT_CONN_DBNAME_def)
  have spec: "str0 p1 @ str0 p2 @ str0 ?p3 @ str0 p4 = ?t"
    by (cases connstring; cases dbname)
      (auto simp: connstring_spec_def p1_def p2_def p4_def str0_def DEFAULT_CONN_STRING_def
        DEFAULT_CONN_DBNAME_def)
  have len: "length ?t \<le> L"
    by (cases connstring; cases dbname) (auto simp: L_def strlen0_def connstring_spec_def)
  let ?s = "s\<lparr>store := (store s)(?n \<mapsto> text_buffer [] L), next_id := Suc ?n\<rparr>"
  have "alloc (Bytes (replicate (strlen0 connstring + strlen0 dbname + 9) NUL)) s = Inr (?n, ?s)"
    by (simp add: alloc_def text_buffer_def L_def numeral_eq_Suc)
  then have "malloc_cleared (to_int32 (int (strlen0 connstring + strlen0 dbname + 9))) s = Inr (?n, ?s)"
    by (simp only: malloc_cleared_size [OF size])
  then have "build_connstring connstring dbname s
      = Inr (?n, ?s\<lparr>store := (store ?s)(?n \<mapsto> text_buffer ?t (L - length ?t))\<rparr>)"
    using strcat2_at_four [of ?s ?n L p1 p2 ?p3 p4] cs len
    unfolding build_connstring_def Let_def spec p1_def [symmetric] p2_def [symmetric]
      p4_def [symmetric] by (simp add: bind_c_Inr)
  then show ?thesis using len by (intro exI [of _ "L - length ?t"]) (simp add: L_def)
qed

section \<open>Connections\<close>

text \<open>The calls of libpq on connections: the server sees each of them.\<close>

definition call_PQconnectdb :: "env \<Rightarrow> string \<Rightarrow> nat mcmd" where
  "call_PQconnectdb E connstring =
     bind_c (get_c trace) (\<lambda>past.
     seq_c (log_event (EConnect connstring)) (alloc (Conn (PQconnectdb E past connstring))))"

definition PQfinish :: "nat option \<Rightarrow> unit mcmd" where
  "PQfinish conn =
     (case conn of
        None \<Rightarrow> return_c ()
      | Some a \<Rightarrow> bind_c (fetch_conn a) (\<lambda>_. seq_c (log_event EFinish) (release a)))"

definition pg_connect :: "env \<Rightarrow> string \<Rightarrow> result_ptr \<Rightarrow> nat option mcmd" where
  "pg_connect E connstring result =
     traced E ''%s()'' [AStr (Some ''pg_connect'')]
       (seq_c (zabbix_log E LOG_LEVEL_DEBUG ''Connecting to PostgreSQL with: %s'' [AStr (Some connstring)])
       (bind_c (call_PQconnectdb E connstring) (\<lambda>conn.
       bind_c (fetch_conn conn) (\<lambda>c.
       if PQstatus c \<noteq> CONNECTION_OK then
         seq_c (set_err_result E result (PQerrorMessage c) [])
         (seq_c (PQfinish (Some conn))
         (return_c None))
       else return_c (Some conn)))))"

definition PARAM_CONN_STRING :: nat where "PARAM_CONN_STRING = 0"
definition PARAM_DBNAME :: nat where "PARAM_DBNAME = 1"
definition PARAM_FIRST :: nat where "PARAM_FIRST = 2"

definition pg_connect_request :: "env \<Rightarrow> agent_request \<Rightarrow> result_ptr \<Rightarrow> nat option mcmd" where
  "pg_connect_request E request result =
     bind_c (build_connstring (get_rparam request PARAM_CONN_STRING)
               (get_rparam request PARAM_DBNAME)) (\<lambda>connstring.
     bind_c (c_str_at connstring) (\<lambda>text.
     bind_c (pg_connect E text result) (\<lambda>conn.
     seq_c (zbx_free (Some connstring))
     (return_c conn))))"

text \<open>The connection string a request asks for.\<close>

definition request_connstring :: "agent_request \<Rightarrow> string" where
  "request_connstring request =
     connstring_spec (get_rparam request PARAM_CONN_STRING) (get_rparam request PARAM_DBNAME)"

text \<open>
  A request of the agent: C strings, and parameters far below the range of an \<open>int\<close> (the agent takes
  no key of more than 2048 characters).
\<close>

definition request_ok :: "agent_request \<Rightarrow> bool" where
  "request_ok request \<longleftrightarrow> cstring (req_key request) \<and>
     (\<forall>i. cstring_ptr (get_rparam request i) \<and> strlen0 (get_rparam request i) < 2 ^ 29)"

section \<open>What a connection attempt does\<close>

text \<open>
  The message of \<open>set_err_result\<close> when its format is defined, and the state after it. The level of
  the message is \<open>ERR\<close>.
\<close>

definition err_text :: "env \<Rightarrow> string \<Rightarrow> string" where
  "err_text E text = zbx_vsnprintf E (MAX_STRING_LEN E) text"

definition err_log :: "env \<Rightarrow> string \<Rightarrow> event list" where
  "err_log E text =
     (if log_enabled E LOG_LEVEL_ERR then [ELog LOG_LEVEL_ERR (''PostgreSQL: '' @ err_text E text)]
      else [])"

definition set_msg :: "result_ptr \<Rightarrow> string \<Rightarrow> agent_result \<Rightarrow> agent_result" where
  "set_msg result msg r = (if result = RESULT then r\<lparr>res_msg := Some msg\<rparr> else r)"

lemma set_err_result_run:
  assumes "c_format format args = Inr text"
  shows "set_err_result E result format args s = Inr (SYSINFO_RET_FAIL,
    s\<lparr>trace := trace s @ err_log E text, answer := set_msg result (err_text E text) (answer s)\<rparr>)"
  using assms
  by (simp add: set_err_result_def err_log_def err_text_def set_msg_def Let_def
      SET_MSG_RESULT_def zabbix_log_def log_message_def log_event_def bind_c_run seq_c_run cmd_simps)

lemma set_err_result_fault:
  "c_format format args = Inl e \<Longrightarrow> set_err_result E result format args s = Inl e"
  by (simp add: set_err_result_def bind_c_run cmd_simps)

text \<open>The messages of an attempt in the debug log: the connection string is among them.\<close>

definition connect_notes :: "string \<Rightarrow> string list" where
  "connect_notes cs = around ''pg_connect()'' [''Connecting to PostgreSQL with: '' @ cs]"

text \<open>An accepted connection is one new object and one event.\<close>

lemma pg_connect_accepted:
  assumes "PQstatus (PQconnectdb E (trace s) cs) = CONNECTION_OK"
  shows "pg_connect E cs result s = Inr (Some (next_id s), noted E (connect_notes cs)
    (s\<lparr>store := (store s)(next_id s \<mapsto> Conn (PQconnectdb E (trace s) cs)),
      next_id := Suc (next_id s), trace := trace s @ [EConnect cs]\<rparr>))"
  using assms
  by (simp add: pg_connect_def connect_notes_def around_def call_PQconnectdb_def fetch_conn_def fetch_def alloc_def
      log_event_def bind_c_run seq_c_run cmd_simps)

text \<open>A refused one is finished at once; its message is used as a format.\<close>

lemma pg_connect_refused:
  assumes "PQstatus (PQconnectdb E (trace s) cs) \<noteq> CONNECTION_OK"
    and "c_format (PQerrorMessage (PQconnectdb E (trace s) cs)) [] = Inr text"
    and "fresh_ok s"
  shows "pg_connect E cs result s = Inr (None, noted E (connect_notes cs)
    (s\<lparr>next_id := Suc (next_id s), trace := trace s @ EConnect cs # err_log E text @ [EFinish],
      answer := set_msg result (err_text E text) (answer s)\<rparr>))"
  using assms set_err_result_run [OF assms(2)]
  by (simp add: pg_connect_def connect_notes_def around_def call_PQconnectdb_def PQfinish_def fetch_conn_def fetch_def alloc_def
      release_def log_event_def bind_c_run seq_c_run cmd_simps fresh_ok_def fun_upd_idem)

lemma pg_connect_bad_message:
  assumes "PQstatus (PQconnectdb E (trace s) cs) \<noteq> CONNECTION_OK"
    and "c_format (PQerrorMessage (PQconnectdb E (trace s) cs)) [] = Inl e"
  shows "pg_connect E cs result s = Inl e"
  using assms set_err_result_fault [OF assms(2)]
  by (simp add: pg_connect_def call_PQconnectdb_def fetch_conn_def fetch_def alloc_def
      log_event_def bind_c_run seq_c_run cmd_simps)

text \<open>
  \<open>pg_connect_request\<close> releases the connection string whatever happens.
\<close>

lemma request_string_run:
  assumes "request_ok request"
  shows "\<exists>b. build_connstring (get_rparam request PARAM_CONN_STRING)
      (get_rparam request PARAM_DBNAME) s
    = Inr (next_id s, s\<lparr>store := (store s)(next_id s \<mapsto> Bytes b), next_id := Suc (next_id s)\<rparr>)
    \<and> c_str b 0 = Inr (request_connstring request)"
proof -
  have ok: "cstring_ptr (get_rparam request i)" "strlen0 (get_rparam request i) < 2 ^ 29" for i
    using assms by (simp_all add: request_ok_def)
  have size: "strlen0 (get_rparam request PARAM_CONN_STRING) + strlen0 (get_rparam request PARAM_DBNAME) + 9
      < 2 ^ 31"
    using ok(2) [of PARAM_CONN_STRING] ok(2) [of PARAM_DBNAME] by simp
  obtain k where "build_connstring (get_rparam request PARAM_CONN_STRING)
      (get_rparam request PARAM_DBNAME) s
    = Inr (next_id s, s\<lparr>store := (store s)(next_id s \<mapsto>
        text_buffer (request_connstring request) k), next_id := Suc (next_id s)\<rparr>)"
    using build_connstring_run [OF ok(1) ok(1) size] unfolding request_connstring_def by blast
  moreover have "cstring (request_connstring request)"
    using ok(1) [of PARAM_CONN_STRING] ok(1) [of PARAM_DBNAME]
    by (auto simp: request_connstring_def connstring_spec_def cstring_ptr_def strisnull_def
        split: option.splits)
  then have "c_str (request_connstring request @ NUL # replicate k NUL) 0
      = Inr (request_connstring request)"
    using c_str_run [of _ "[]"] by simp
  ultimately show ?thesis by (auto simp: text_buffer_def)
qed

lemma request_free_string:
  assumes "fresh_ok s"
  shows "(store s)(next_id s \<mapsto> x, Suc (next_id s) \<mapsto> y, next_id s := None)
    = (store s)(Suc (next_id s) \<mapsto> y)"
  using assms by (auto simp: fresh_ok_def fun_eq_iff)

lemma pg_connect_request_accepted:
  assumes "fresh_ok s" and "request_ok request"
    and "PQstatus (PQconnectdb E (trace s) (request_connstring request)) = CONNECTION_OK"
  shows "pg_connect_request E request result s = Inr (Some (Suc (next_id s)),
    noted E (connect_notes (request_connstring request)) (s\<lparr>store := (store s)(Suc (next_id s) \<mapsto>
          Conn (PQconnectdb E (trace s) (request_connstring request))),
      next_id := Suc (Suc (next_id s)),
      trace := trace s @ [EConnect (request_connstring request)]\<rparr>))"
proof -
  obtain b where b: "build_connstring (get_rparam request PARAM_CONN_STRING)
      (get_rparam request PARAM_DBNAME) s
    = Inr (next_id s, s\<lparr>store := (store s)(next_id s \<mapsto> Bytes b), next_id := Suc (next_id s)\<rparr>)"
    and rd: "c_str b 0 = Inr (request_connstring request)"
    using request_string_run [OF assms(2)] by blast
  let ?s = "s\<lparr>store := (store s)(next_id s \<mapsto> Bytes b), next_id := Suc (next_id s)\<rparr>"
  have "PQstatus (PQconnectdb E (trace ?s) (request_connstring request)) = CONNECTION_OK"
    using assms(3) by simp
  from pg_connect_accepted [OF this, of result] show ?thesis
    using rd request_free_string [OF assms(1)]
    by (simp add: pg_connect_request_def b c_str_at_def fetch_bytes_def fetch_def zbx_free_def
        release_def bind_c_run seq_c_run cmd_simps)
qed

lemma pg_connect_request_refused:
  assumes "fresh_ok s" and "request_ok request"
    and "PQstatus (PQconnectdb E (trace s) (request_connstring request)) \<noteq> CONNECTION_OK"
    and "c_format (PQerrorMessage (PQconnectdb E (trace s) (request_connstring request))) [] = Inr text"
  shows "pg_connect_request E request result s = Inr (None,
    noted E (connect_notes (request_connstring request)) (s\<lparr>next_id := Suc (Suc (next_id s)),
      trace := trace s @ EConnect (request_connstring request) # err_log E text @ [EFinish],
      answer := set_msg result (err_text E text) (answer s)\<rparr>))"
proof -
  obtain b where b: "build_connstring (get_rparam request PARAM_CONN_STRING)
      (get_rparam request PARAM_DBNAME) s
    = Inr (next_id s, s\<lparr>store := (store s)(next_id s \<mapsto> Bytes b), next_id := Suc (next_id s)\<rparr>)"
    and rd: "c_str b 0 = Inr (request_connstring request)"
    using request_string_run [OF assms(2)] by blast
  let ?s = "s\<lparr>store := (store s)(next_id s \<mapsto> Bytes b), next_id := Suc (next_id s)\<rparr>"
  have "pg_connect E (request_connstring request) result ?s = Inr (None,
    noted E (connect_notes (request_connstring request)) (?s\<lparr>next_id := Suc (next_id ?s),
      trace := trace ?s @ EConnect (request_connstring request) # err_log E text @ [EFinish],
      answer := set_msg result (err_text E text) (answer ?s)\<rparr>))"
    using assms(1,3,4) by (intro pg_connect_refused) (auto simp: fresh_ok_def)
  then show ?thesis
    using rd assms(1)
    by (simp add: pg_connect_request_def b c_str_at_def fetch_bytes_def fetch_def zbx_free_def
        release_def bind_c_run seq_c_run cmd_simps fresh_ok_def fun_upd_idem)
qed

lemma pg_connect_request_fault:
  assumes "request_ok request"
    and "PQstatus (PQconnectdb E (trace s) (request_connstring request)) \<noteq> CONNECTION_OK"
    and "c_format (PQerrorMessage (PQconnectdb E (trace s) (request_connstring request))) [] = Inl e"
  shows "pg_connect_request E request result s = Inl e"
proof -
  obtain b where b: "build_connstring (get_rparam request PARAM_CONN_STRING)
      (get_rparam request PARAM_DBNAME) s
    = Inr (next_id s, s\<lparr>store := (store s)(next_id s \<mapsto> Bytes b), next_id := Suc (next_id s)\<rparr>)"
    and rd: "c_str b 0 = Inr (request_connstring request)"
    using request_string_run [OF assms(1)] by blast
  let ?s = "s\<lparr>store := (store s)(next_id s \<mapsto> Bytes b), next_id := Suc (next_id s)\<rparr>"
  have "pg_connect E (request_connstring request) result ?s = Inl e"
    using assms(2,3) by (intro pg_connect_bad_message) auto
  then show ?thesis
    using rd
    by (simp add: pg_connect_request_def b c_str_at_def fetch_bytes_def fetch_def
        bind_c_run cmd_simps)
qed

section \<open>Properties\<close>

text \<open>
  C12. \<open>strcat2\<close> writes exactly within its buffer: with a C string at the destination and \<open>rest\<close> bytes
  behind its NUL, it appends the source, moves the NUL and returns its place if the source has at
  most \<open>rest\<close> characters, and writes out of bounds otherwise.
\<close>

theorem strcat2_bounds:
  assumes "cstring s" and "cstring t"
  shows "strcat2 (pre @ s @ NUL # rest) (Some (length pre)) (Some t) =
    (if length t \<le> length rest
     then Inr (pre @ s @ t @ NUL # drop (length t) rest, Some (length pre + length s + length t))
     else Inl Out_of_bounds)"
  using assms strcat2_run strcat2_overflow by (cases "length t \<le> length rest") simp_all

theorem strcat2_bounds_witness:
  "strcat2 (''ab'' @ [NUL, NUL, NUL]) (Some 0) (Some ''cd'') = Inr (''abcd'' @ [NUL], Some 4) \<and>
   strcat2 (''ab'' @ [NUL, NUL, NUL]) (Some 0) (Some ''cde'') = Inl Out_of_bounds"
  using strcat2_bounds [of "''ab''" "''cd''" "[]" "[NUL, NUL]"]
    strcat2_bounds [of "''ab''" "''cde''" "[]" "[NUL, NUL]"]
  by (simp add: cstring_def)

text \<open>
  C13. The size of the buffer of a connection string, the two lengths and nine, is computed in an
  \<open>int\<close>. As long as it is below \<open>2 ^ 31\<close>, \<open>build_connstring\<close> stays within the buffer and leaves in
  it the given string and a blank, if there is one, then \<open>dbname=\<close> and the database name, if there is
  one; from there on to \<open>2 ^ 32\<close> the size has become negative and the allocation ends the process.
\<close>

theorem connstring_built:
  assumes "cstring_ptr cs" and "cstring_ptr db" and "strlen0 cs + strlen0 db + 9 < 2 ^ 32"
  shows "if strlen0 cs + strlen0 db + 9 < 2 ^ 31
    then \<exists>b. build_connstring cs db s = Inr (next_id s,
        s\<lparr>store := (store s)(next_id s \<mapsto> Bytes b), next_id := Suc (next_id s)\<rparr>) \<and>
      length b = strlen0 cs + strlen0 db + 9 \<and> c_str b 0 = Inr (connstring_spec cs db)
    else build_connstring cs db s = Inl No_memory"
proof (cases "strlen0 cs + strlen0 db + 9 < 2 ^ 31")
  case True
  have cs: "cstring (connstring_spec cs db)"
    using assms by (auto simp: connstring_spec_def cstring_ptr_def strisnull_def split: option.splits)
  show ?thesis
    using build_connstring_run [OF assms(1,2) True, of s] c_str_run [OF cs, of "[]"] True
    by (auto simp: text_buffer_def)
next
  case False
  then have "malloc_cleared (to_int32 (int (strlen0 cs + strlen0 db + 9))) s = Inl No_memory"
    by (intro malloc_cleared_wrapped) (use assms(3) in simp_all)
  then show ?thesis using False by (simp only: build_connstring_def Let_def bind_c_Inl if_False)
qed

theorem connstring_built_witness:
  "\<exists>b. build_connstring (Some ''host=a'') (Some ''db'') start_state = Inr (next_id start_state,
      start_state\<lparr>store := (store start_state)(next_id start_state \<mapsto> Bytes b),
        next_id := Suc (next_id start_state)\<rparr>) \<and>
    length b = 17 \<and> c_str b 0 = Inr ''host=a dbname=db''"
  using connstring_built [of "Some ''host=a''" "Some ''db''" start_state]
  by (simp add: cstring_ptr_def strlen0_def connstring_spec_def cstring_def)

end
