(* ===== verification/Params.thy ===== *)
theory Params
  imports Machine
begin

text \<open>
  The parameters of a query (\<open>pg_params.c\<close>): a NULL-terminated array of pointers to copies of the
  strings, grown one by one and released as a whole. \<open>params_at\<close> says which list of strings an
  array holds and which objects it consists of; the locale \<open>param_vector\<close> is the interface the
  queries use.
\<close>

section \<open>Operations\<close>

text \<open>The loop of \<open>param_len\<close>: cells are counted up to the first NULL.\<close>

fun count_ptrs :: "nat option list \<Rightarrow> fault + nat" where
  "count_ptrs [] = Inl Out_of_bounds"
| "count_ptrs (None # cells) = Inr 0"
| "count_ptrs (Some d # cells) = bind_f (count_ptrs cells) (\<lambda>n. Inr (Suc n))"

definition param_len :: "nat option \<Rightarrow> nat mcmd" where
  "param_len params =
     (case params of
        None \<Rightarrow> return_c 0
      | Some a \<Rightarrow> bind_c (fetch_ptrs a) (\<lambda>cells. lift_c (count_ptrs cells)))"

text \<open>A cell of an array of pointers is written.\<close>

definition set_ptr :: "nat \<Rightarrow> nat \<Rightarrow> nat option \<Rightarrow> unit mcmd" where
  "set_ptr a i v =
     bind_c (fetch_ptrs a) (\<lambda>cells.
     if i < length cells then update a (Ptrs (cells[i := v])) else fault_c Out_of_bounds)"

text \<open>
  \<open>zbx_realloc\<close> of an array of pointers: a new block that starts with the cells of the old one,
  which is released. The pointer to the old block must not be used afterwards.
\<close>

definition realloc_ptrs :: "nat \<Rightarrow> nat \<Rightarrow> nat mcmd" where
  "realloc_ptrs a n =
     bind_c (fetch_ptrs a) (\<lambda>cells.
     bind_c (alloc (Ptrs (take n (cells @ replicate n None)))) (\<lambda>b.
     seq_c (release a) (return_c b)))"

definition strdup :: "string \<Rightarrow> nat mcmd" where
  "strdup s = alloc (Str s)"

definition param_append :: "nat option \<Rightarrow> string option \<Rightarrow> nat option mcmd" where
  "param_append params v =
     (case v of
        None \<Rightarrow> return_c params
      | Some s \<Rightarrow>
          if s = [] then return_c params
          else
            (case params of
               None \<Rightarrow>
                 bind_c (alloc (Ptrs (replicate 2 None))) (\<lambda>p.
                 bind_c (strdup s) (\<lambda>d.
                 seq_c (set_ptr p 0 (Some d))
                 (seq_c (set_ptr p 1 None)
                 (return_c (Some p)))))
             | Some a \<Rightarrow>
                 bind_c (param_len (Some a)) (\<lambda>len.
                 bind_c (realloc_ptrs a (len + 2)) (\<lambda>p.
                 bind_c (strdup s) (\<lambda>d.
                 seq_c (set_ptr p len (Some d))
                 (seq_c (set_ptr p (len + 1) None)
                 (return_c (Some p))))))))"

definition param_new :: "string option \<Rightarrow> nat option mcmd" where
  "param_new s = param_append None s"

text \<open>
  The loop of \<open>param_free\<close> releases the string of every cell up to the first NULL; then the array
  itself is released. That \<open>zbx_free\<close> also clears the cell cannot be seen afterwards.
\<close>

fun free_strings :: "nat option list \<Rightarrow> unit mcmd" where
  "free_strings [] = fault_c Out_of_bounds"
| "free_strings (None # cells) = return_c ()"
| "free_strings (Some d # cells) = seq_c (release d) (free_strings cells)"

definition param_free :: "nat option \<Rightarrow> unit mcmd" where
  "param_free params =
     (case params of
        None \<Rightarrow> return_c ()
      | Some a \<Rightarrow>
          bind_c (fetch_ptrs a) (\<lambda>cells.
          seq_c (free_strings cells) (release a)))"

text \<open>The strings libpq reads through an array of parameters.\<close>

fun read_strings :: "nat option list \<Rightarrow> (string list) mcmd" where
  "read_strings [] = return_c []"
| "read_strings (None # ds) = fault_c Null_deref"
| "read_strings (Some d # ds) =
     bind_c (fetch_str d) (\<lambda>x. bind_c (read_strings ds) (\<lambda>xs. return_c (x # xs)))"

definition read_params :: "nat option \<Rightarrow> nat \<Rightarrow> (string list) mcmd" where
  "read_params params n =
     (case params of
        None \<Rightarrow> return_c []
      | Some a \<Rightarrow> bind_c (fetch_ptrs a) (\<lambda>cells. read_strings (take n cells)))"

section \<open>What an array of parameters holds\<close>

definition params_at :: "cstate \<Rightarrow> nat option \<Rightarrow> string list \<Rightarrow> nat set \<Rightarrow> bool" where
  "params_at s params xs F \<longleftrightarrow>
     (case params of
        None \<Rightarrow> xs = [] \<and> F = {}
      | Some a \<Rightarrow>
          (\<exists>ds. store s a = Some (Ptrs (map Some ds @ [None])) \<and>
             list_all2 (\<lambda>d x. store s d = Some (Str x)) ds xs \<and>
             distinct (a # ds) \<and> F = set (a # ds)))"

text \<open>A parameter that is NULL or empty is not appended.\<close>

definition given :: "string option \<Rightarrow> string list" where
  "given v = (if strisnull v then [] else [the v])"

text \<open>
  \<open>only_store F s F' s'\<close>: from \<open>s\<close> to \<open>s'\<close> only the store has changed, and apart from the objects
  in \<open>F\<close> before and in \<open>F'\<close> after it has not; those in \<open>F'\<close> that are not in \<open>F\<close> are new.
\<close>

definition only_store :: "nat set \<Rightarrow> cstate \<Rightarrow> nat set \<Rightarrow> cstate \<Rightarrow> bool" where
  "only_store F s F' s' \<longleftrightarrow>
     s' = s\<lparr>store := store s', next_id := next_id s'\<rparr> \<and>
     store s' |` (- F') = store s |` (- F) \<and> F' \<subseteq> F \<union> {next_id s..} \<and>
     next_id s \<le> next_id s' \<and> fresh_ok s'"

lemma only_store_refl: "fresh_ok s \<Longrightarrow> only_store F s F s"
  by (simp add: only_store_def)

lemma only_store_trans:
  assumes "only_store F s F' s'" and "only_store F' s' F'' s''"
  shows "only_store F s F'' s''"
proof -
  have "s'' = (s\<lparr>store := store s', next_id := next_id s'\<rparr>)\<lparr>store := store s'', next_id := next_id s''\<rparr>"
    using assms unfolding only_store_def by metis
  moreover have "F'' \<subseteq> F \<union> {next_id s..}" using assms unfolding only_store_def by fastforce
  ultimately show ?thesis using assms by (simp add: only_store_def)
qed

lemma given_simps [simp]:
  "given None = []"
  "given (Some []) = []"
  "given (Some (c # s)) = [c # s]"
  by (simp_all add: given_def)

lemma count_ptrs_cells: "count_ptrs (map Some ds @ None # cells) = Inr (length ds)"
  by (induction ds) simp_all

lemma param_len_run:
  "params_at s params xs F \<Longrightarrow> param_len params s = Inr (length xs, s)"
  by (auto simp: param_len_def params_at_def fetch_ptrs_def fetch_def bind_c_def cmd_simps
      count_ptrs_cells dest: list_all2_lengthD split: option.splits)

lemma params_fresh:
  assumes "params_at s params xs F" and "fresh_ok s" and "next_id s \<le> a"
  shows "a \<notin> F"
proof
  assume "a \<in> F"
  then have "store s a \<noteq> None"
    using assms(1)
    by (auto simp: params_at_def list_all2_conv_all_nth in_set_conv_nth split: option.splits)
  then show False using assms(2,3) by (simp add: fresh_ok_def)
qed

lemma params_at_SomeI:
  "store s a = Some (Ptrs (map Some ds @ [None])) \<Longrightarrow>
    list_all2 (\<lambda>d x. store s d = Some (Str x)) ds xs \<Longrightarrow> distinct (a # ds) \<Longrightarrow>
    params_at s (Some a) xs (set (a # ds))"
  by (auto simp: params_at_def)

lemmas param_ops =
  strdup_def alloc_def set_ptr_def fetch_ptrs_def fetch_def update_def release_def bind_c_def
  seq_c_def cmd_simps

text \<open>A first parameter.\<close>

lemma param_append_first:
  assumes "x \<noteq> []" and "fresh_ok s"
  shows "\<exists>s'. param_append None (Some x) s = Inr (Some (next_id s), s') \<and>
    params_at s' (Some (next_id s)) [x] {next_id s, Suc (next_id s)} \<and>
    only_store {} s {next_id s, Suc (next_id s)} s'"
proof -
  let ?n = "next_id s"
  let ?s' = "s\<lparr>store := (store s)(?n \<mapsto> Ptrs [Some (Suc ?n), None], Suc ?n \<mapsto> Str x),
    next_id := Suc (Suc ?n)\<rparr>"
  have "param_append None (Some x) s = Inr (Some ?n, ?s')"
    using assms(1) by (simp add: param_append_def param_ops numeral_2_eq_2 fun_upd_twist)
  moreover have "params_at ?s' (Some ?n) [x] (set [?n, Suc ?n])"
    by (rule params_at_SomeI) simp_all
  moreover have "only_store {} s {?n, Suc ?n} ?s'"
    using assms(2) by (auto simp: only_store_def fresh_ok_def restrict_map_def fun_eq_iff)
  ultimately show ?thesis by (intro exI [of _ ?s']) simp
qed

text \<open>A further parameter: a longer array with the old strings and the new one.\<close>

lemma take_cells:
  "take (length ds + 2) ((map Some ds @ [None]) @ replicate (length ds + 2) None)
    = map Some ds @ [None, None]"
  by (simp add: numeral_2_eq_2)

lemma param_append_more:
  assumes "x \<noteq> []" and "fresh_ok s" and "params_at s (Some a) xs F"
  shows "\<exists>p s' F'. param_append (Some a) (Some x) s = Inr (Some p, s') \<and>
    params_at s' (Some p) (xs @ [x]) F' \<and> only_store F s F' s'"
proof -
  let ?n = "next_id s"
  from assms(3) obtain ds where a: "store s a = Some (Ptrs (map Some ds @ [None]))"
    and ds: "list_all2 (\<lambda>d x. store s d = Some (Str x)) ds xs"
    and dist: "distinct (a # ds)" and F: "F = set (a # ds)"
    by (auto simp: params_at_def)
  have old: "?n \<notin> F" "Suc ?n \<notin> F"
    using params_fresh [OF assms(3,2)] by simp_all
  then have n: "?n \<noteq> a" "Suc ?n \<noteq> a" "?n \<notin> set ds" "Suc ?n \<notin> set ds" by (auto simp: F)
  have len: "param_len (Some a) s = Inr (length ds, s)"
    using param_len_run [OF assms(3)] ds by (simp add: list_all2_lengthD)
  let ?cells = "map Some ds @ [Some (Suc ?n), None]"
  let ?m = "(store s)(?n \<mapsto> Ptrs ?cells, a := None, Suc ?n \<mapsto> Str x)"
  let ?s' = "s\<lparr>store := ?m, next_id := Suc (Suc ?n)\<rparr>"
  have "realloc_ptrs a (length ds + 2) s = Inr (?n, s\<lparr>
      store := (store s)(?n \<mapsto> Ptrs (map Some ds @ [None, None]), a := None),
      next_id := Suc ?n\<rparr>)"
    using a n(1) take_cells [of ds] by (simp add: realloc_ptrs_def param_ops)
  then have "param_append (Some a) (Some x) s = Inr (Some ?n, ?s')"
    using assms(1) n len
    by (simp add: param_append_def param_ops list_update_append fun_upd_twist)
  moreover have "list_all2 (\<lambda>d x. ?m d = Some (Str x)) ds xs"
  proof (rule list.rel_mono_strong [OF ds])
    fix d y
    assume "d \<in> set ds" and "store s d = Some (Str y)"
    then show "?m d = Some (Str y)" using n dist by auto
  qed
  then have "list_all2 (\<lambda>d x. ?m d = Some (Str x)) (ds @ [Suc ?n]) (xs @ [x])"
    by (simp add: list_all2_appendI)
  then have "params_at ?s' (Some ?n) (xs @ [x]) (set (?n # ds @ [Suc ?n]))"
    using n dist by (intro params_at_SomeI) auto
  moreover have "only_store F s (set (?n # ds @ [Suc ?n])) ?s'"
    using assms(2) n
    by (auto simp: F only_store_def fresh_ok_def restrict_map_def fun_eq_iff)
  ultimately show ?thesis by blast
qed

lemma param_append_run:
  assumes "fresh_ok s" and "params_at s params xs F"
  shows "\<exists>p s' F'. param_append params v s = Inr (p, s') \<and>
    params_at s' p (xs @ given v) F' \<and> only_store F s F' s'"
proof (cases "strisnull v")
  case True
  then have "param_append params v s = Inr (params, s)"
    by (cases v) (simp_all add: param_append_def cmd_simps)
  then show ?thesis
    using assms only_store_refl [OF assms(1)] True by (force simp: given_def)
next
  case False
  then obtain x where v: "v = Some x" "x \<noteq> []" by (auto simp: not_strisnull)
  then have g: "given v = [x]" by (simp add: given_def)
  show ?thesis
  proof (cases params)
    case None
    then show ?thesis
      using param_append_first [OF v(2) assms(1)] assms(2) g v(1) by (fastforce simp: params_at_def)
  next
    case (Some a)
    then show ?thesis
      using param_append_more [OF v(2) assms(1)] assms(2) g v(1) by fastforce
  qed
qed

text \<open>Release: exactly the objects of the array are gone.\<close>

lemma free_strings_run:
  assumes "\<forall>d \<in> set ds. store s d \<noteq> None" and "distinct ds"
  shows "free_strings (map Some ds @ [None]) s = Inr ((), s\<lparr>store := store s |` (- set ds)\<rparr>)"
  using assms
proof (induction ds arbitrary: s)
  case Nil
  then show ?case by (simp add: return_c_run restrict_map_def)
next
  case (Cons d ds)
  let ?s = "s\<lparr>store := (store s)(d := None)\<rparr>"
  have "release d s = Inr ((), ?s)" using Cons.prems by (auto simp: release_def)
  moreover have "free_strings (map Some ds @ [None]) ?s
      = Inr ((), ?s\<lparr>store := store ?s |` (- set ds)\<rparr>)"
    using Cons.prems by (intro Cons.IH) auto
  moreover have "(store s)(d := None) |` (- set ds) = store s |` (- set (d # ds))"
    by (auto simp: restrict_map_def fun_eq_iff)
  ultimately show ?case by (simp add: seq_c_run)
qed

lemma params_at_noted [simp]: "params_at (noted E ms s) p xs F = params_at s p xs F"
  by (simp add: params_at_def split: option.split)

lemma param_free_run:
  assumes "params_at s params xs F"
  shows "param_free params s = Inr ((), s\<lparr>store := store s |` (- F)\<rparr>)"
proof (cases params)
  case None
  then show ?thesis
    using assms by (simp add: param_free_def params_at_def cmd_simps restrict_map_def)
next
  case (Some a)
  then obtain ds where a: "store s a = Some (Ptrs (map Some ds @ [None]))"
    and ds: "list_all2 (\<lambda>d x. store s d = Some (Str x)) ds xs"
    and dist: "distinct (a # ds)" and F: "F = set (a # ds)"
    using assms by (auto simp: params_at_def)
  have "\<forall>d \<in> set ds. store s d \<noteq> None"
    using ds by (auto simp: list_all2_conv_all_nth in_set_conv_nth)
  then have "free_strings (map Some ds @ [None]) s = Inr ((), s\<lparr>store := store s |` (- set ds)\<rparr>)"
    using dist by (intro free_strings_run) auto
  moreover have "(store s |` (- set ds))(a := None) = store s |` (- set (a # ds))"
    by (auto simp: restrict_map_def fun_eq_iff)
  ultimately show ?thesis
    using a dist Some by (simp add: param_free_def param_ops F)
qed

section \<open>The interface of parameter arrays\<close>

locale param_vector =
  fixes len :: "'p \<Rightarrow> nat mcmd"
    and append :: "'p \<Rightarrow> string option \<Rightarrow> 'p mcmd"
    and free :: "'p \<Rightarrow> unit mcmd"
    and empty :: 'p
    and holds :: "cstate \<Rightarrow> 'p \<Rightarrow> string list \<Rightarrow> nat set \<Rightarrow> bool"
  assumes holds_empty: "holds s empty [] {}"
    and len_run: "holds s p xs F \<Longrightarrow> len p s = Inr (length xs, s)"
    and append_run: "fresh_ok s \<Longrightarrow> holds s p xs F \<Longrightarrow>
      \<exists>q s' F'. append p v s = Inr (q, s') \<and> holds s' q (xs @ given v) F' \<and> only_store F s F' s'"
    and free_run: "holds s p xs F \<Longrightarrow> free p s = Inr ((), s\<lparr>store := store s |` (- F)\<rparr>)"
begin

primrec append_all :: "'p \<Rightarrow> string option list \<Rightarrow> 'p mcmd" where
  "append_all p [] = return_c p"
| "append_all p (v # vs) = bind_c (append p v) (\<lambda>q. append_all q vs)"

lemma append_all_run:
  assumes "fresh_ok s" and "holds s p xs F"
  shows "\<exists>q s' F'. append_all p vs s = Inr (q, s') \<and> holds s' q (xs @ concat (map given vs)) F' \<and>
    only_store F s F' s'"
  using assms
proof (induction vs arbitrary: p s xs F)
  case Nil
  then show ?case using only_store_refl by (fastforce simp: return_c_run)
next
  case (Cons v vs)
  obtain q t G where q: "append p v s = Inr (q, t)" "holds t q (xs @ given v) G"
    "only_store F s G t"
    using append_run [OF Cons.prems] by blast
  have "fresh_ok t" using q(3) by (simp add: only_store_def)
  then obtain r u H where "append_all q vs t = Inr (r, u)"
    "holds u r (xs @ given v @ concat (map given vs)) H" "only_store G t H u"
    using Cons.IH [OF _ q(2)] by auto
  then show ?case
    using q by (auto simp: bind_c_run intro: only_store_trans)
qed

text \<open>Whatever is appended to an empty array and then released leaves the store as it was.\<close>

lemma append_free:
  assumes "fresh_ok s"
  shows "\<exists>q s'. append_all empty vs s = Inr (q, s') \<and>
    free q s' = Inr ((), s\<lparr>next_id := next_id s'\<rparr>)"
proof -
  obtain q s' F' where q: "append_all empty vs s = Inr (q, s')"
    "holds s' q (concat (map given vs)) F'" and st: "only_store {} s F' s'"
    using append_all_run [OF assms holds_empty, of vs] by auto
  have "store s' |` (- F') = store s" and "s' = s\<lparr>store := store s', next_id := next_id s'\<rparr>"
    using st by (simp_all add: only_store_def restrict_map_def)
  then have "s'\<lparr>store := store s' |` (- F')\<rparr> = s\<lparr>next_id := next_id s'\<rparr>"
    by (metis cstate.surjective cstate.update_convs(1,2))
  then show ?thesis using q free_run by metis
qed

end

interpretation pv: param_vector param_len param_append param_free "None" params_at
proof unfold_locales
  show "params_at s None [] {}" for s by (simp add: params_at_def)
qed (rule param_len_run param_append_run param_free_run; assumption)+

text \<open>A loop that appends a value for each element of a list.\<close>

lemma append_each_all:
  "fold_c xs (\<lambda>x p. param_append p (g x)) = (\<lambda>p. pv.append_all p (map g xs))"
proof (induction xs)
  case Nil
  then show ?case by (simp add: fun_eq_iff)
next
  case (Cons x xs)
  then show ?case by simp
qed

lemma read_strings_run:
  "list_all2 (\<lambda>d x. store s d = Some (Str x)) ds xs \<Longrightarrow>
    read_strings (map Some ds) s = Inr (xs, s)"
  by (induction ds xs rule: list_all2_induct)
    (simp_all add: fetch_str_def fetch_def bind_c_run cmd_simps)

lemma read_params_run:
  "params_at s params xs F \<Longrightarrow> read_params params (length xs) s = Inr (xs, s)"
proof (cases params)
  case (Some a)
  assume "params_at s params xs F"
  then obtain ds where a: "store s a = Some (Ptrs (map Some ds @ [None]))"
    and ds: "list_all2 (\<lambda>d x. store s d = Some (Str x)) ds xs"
    using Some by (auto simp: params_at_def)
  then show ?thesis
    using read_strings_run [OF ds] list_all2_lengthD [OF ds] Some
    by (simp add: read_params_def fetch_ptrs_def fetch_def bind_c_run cmd_simps)
qed (simp add: read_params_def params_at_def cmd_simps)

section \<open>Properties\<close>

text \<open>
  C11. A parameter array is memory safe and leaves nothing behind: whatever values are appended one
  after the other to the NULL array, its length is the number of values that are neither NULL nor
  empty, what libpq reads through it are these values, in their order, and \<open>param_free\<close> then restores
  the store to what it was before.
\<close>

theorem params_released:
  assumes "fresh_ok s"
  shows "\<exists>p t. fold_c vs (\<lambda>v p. param_append p v) None s = Inr (p, t) \<and>
    param_len p t = Inr (length (concat (map given vs)), t) \<and>
    read_params p (length (concat (map given vs))) t = Inr (concat (map given vs), t) \<and>
    param_free p t = Inr ((), s\<lparr>next_id := next_id t\<rparr>)"
proof -
  have all: "fold_c vs (\<lambda>v p. param_append p v) = (\<lambda>p. pv.append_all p vs)"
    using append_each_all [of vs "\<lambda>v. v"] by simp
  obtain p t F where p: "pv.append_all None vs s = Inr (p, t)"
    "params_at t p (concat (map given vs)) F" and only: "only_store {} s F t"
    using pv.append_all_run [OF assms pv.holds_empty, of vs] by auto
  have "store t |` (- F) = store s" and "t = s\<lparr>store := store t, next_id := next_id t\<rparr>"
    using only by (simp_all add: only_store_def restrict_map_def)
  then have "t\<lparr>store := store t |` (- F)\<rparr> = s\<lparr>next_id := next_id t\<rparr>"
    by (metis cstate.surjective cstate.update_convs(1,2))
  then have "param_free p t = Inr ((), s\<lparr>next_id := next_id t\<rparr>)"
    using pv.free_run [OF p(2)] by simp
  then show ?thesis unfolding all using p(1) pv.len_run [OF p(2)] read_params_run [OF p(2)] by blast
qed

theorem params_released_witness:
  "\<exists>p t. fold_c [Some ''a'', None, Some [], Some ''b''] (\<lambda>v p. param_append p v) None start_state = Inr (p, t) \<and>
    param_len p t = Inr (2, t) \<and> read_params p 2 t = Inr ([''a'', ''b''], t) \<and>
    param_free p t = Inr ((), start_state\<lparr>next_id := next_id t\<rparr>)"
proof -
  have "fresh_ok start_state" by (simp add: fresh_ok_def start_state_def)
  moreover have "concat (map given [Some ''a'', None, Some [], Some ''b'']) = [''a'', ''b'']"
    "length [''a'', ''b''] = 2"
    by (simp_all add: given_def)
  ultimately show ?thesis
    using params_released [of start_state "[Some ''a'', None, Some [], Some ''b'']"] by (simp only:)
qed

end
