(* ===== verification/Exec.thy ===== *)
theory Exec
  imports Connect Params
begin

text \<open>
  Queries (\<open>libzbxpgsql.c\<close>): \<open>pg_exec\<close> runs one query and releases its parameters, \<open>pg_scalar\<close>
  wraps it in a connection and copies the first cell, \<open>pg_get_result\<close> converts that cell to the
  type of the item, \<open>pg_get_percentage\<close> and \<open>pg_version\<close> ask for a quotient and for the version of
  the server.
\<close>

section \<open>pg_exec\<close>

text \<open>\<open>PQexecParams\<close>: the server sees the text and the parameters (\<open>read_params\<close>); the result may be NULL.\<close>

definition call_PQexecParams ::
  "env \<Rightarrow> nat \<Rightarrow> string \<Rightarrow> nat \<Rightarrow> nat option \<Rightarrow> nat option mcmd" where
  "call_PQexecParams E conn command nparams params =
     bind_c (fetch_conn conn) (\<lambda>c.
     bind_c (read_params params nparams) (\<lambda>xs.
     bind_c (get_c trace) (\<lambda>past.
     seq_c (log_event (EExec command xs))
     (case PQexecParams E past c command xs of
        None \<Rightarrow> return_c None
      | Some r \<Rightarrow> bind_c (alloc (Res r)) (\<lambda>a. return_c (Some a))))))"

text \<open>
  The parameters in the debug log, numbered from 0. The arguments of a message are evaluated only
  when it is logged.
\<close>

fun log_strings :: "env \<Rightarrow> nat \<Rightarrow> nat option list \<Rightarrow> unit mcmd" where
  "log_strings E i [] = return_c ()"
| "log_strings E i (None # ds) =
     seq_c (zabbix_log E LOG_LEVEL_DEBUG ''  $%i: %s'' [AInt (int i), AStr None]) (log_strings E (Suc i) ds)"
| "log_strings E i (Some d # ds) =
     bind_c (fetch_str d) (\<lambda>x.
     seq_c (zabbix_log E LOG_LEVEL_DEBUG ''  $%i: %s'' [AInt (int i), AStr (Some x)])
       (log_strings E (Suc i) ds))"

definition log_params :: "env \<Rightarrow> nat option \<Rightarrow> nat \<Rightarrow> unit mcmd" where
  "log_params E params n =
     (if log_enabled E LOG_LEVEL_DEBUG then
        (case params of
           None \<Rightarrow> return_c ()
         | Some a \<Rightarrow> bind_c (fetch_ptrs a) (\<lambda>cells. log_strings E 0 (take n cells)))
      else return_c ())"

definition pg_exec :: "env \<Rightarrow> nat \<Rightarrow> string \<Rightarrow> nat option \<Rightarrow> nat option mcmd" where
  "pg_exec E conn command params =
     bind_c (param_len params) (\<lambda>nparams.
     seq_c (zabbix_log E LOG_LEVEL_DEBUG ''Executing query with %i parameters: %s''
              [AInt (int nparams), AStr (Some command)])
     (seq_c (log_params E params nparams)
     (bind_c (call_PQexecParams E conn command nparams params) (\<lambda>res.
     seq_c (param_free params)
     (return_c res)))))"

text \<open>What the accessors report of a result pointer; of NULL, a fatal error without rows.\<close>

definition null_result :: pgresult where
  "null_result =
     \<lparr>PQresultStatus = PGRES_FATAL_ERROR, PQresultErrorMessage = [], PQntuples = 0, PQnfields = 0,
      PQfname = (\<lambda>_. None), PQgetvalue = (\<lambda>_ _. None)\<rparr>"

definition view_result :: "nat option \<Rightarrow> pgresult mcmd" where
  "view_result res = (case res of None \<Rightarrow> return_c null_result | Some a \<Rightarrow> fetch_res a)"

definition PQclear :: "nat option \<Rightarrow> unit mcmd" where
  "PQclear res =
     (case res of None \<Rightarrow> return_c () | Some a \<Rightarrow> bind_c (fetch_res a) (\<lambda>_. release a))"

section \<open>pg_scalar\<close>

text \<open>A string that is read must not be NULL.\<close>

definition non_null :: "string option \<Rightarrow> fault + string" where
  "non_null p = (case p of None \<Rightarrow> Inl Null_deref | Some s \<Rightarrow> Inr s)"

definition pg_scalar ::
  "env \<Rightarrow> agent_request \<Rightarrow> result_ptr \<Rightarrow> string \<Rightarrow> nat option \<Rightarrow> string \<Rightarrow> nat
     \<Rightarrow> (sysinfo_ret \<times> string) mcmd" where
  "pg_scalar E request result query params buffer bufferlen =
     traced E ''%s'' [AStr (Some ''pg_scalar'')]
     (bind_c (pg_connect_request E request result) (\<lambda>conn.
     case conn of
       None \<Rightarrow> return_c (SYSINFO_RET_FAIL, buffer)
     | Some c \<Rightarrow>
         bind_c (pg_exec E c query params) (\<lambda>res.
         bind_c (view_result res) (\<lambda>r.
         bind_c
           (if PQresultStatus r \<noteq> PGRES_TUPLES_OK then
              seq_c (set_err_result E result
                       (''PostgreSQL error for query '' @ [CHR 0x22] @ ''%s'' @ [CHR 0x22] @ '': %s'')
                       [AStr (Some query), AStr (Some (PQresultErrorMessage r))])
                (return_c (SYSINFO_RET_FAIL, buffer))
            else if PQntuples r = 0 then
              seq_c (set_err_result E result
                       (''No results returned for query '' @ [CHR 0x22] @ ''%s'' @ [CHR 0x22])
                       [AStr (Some query)])
                (return_c (SYSINFO_RET_FAIL, buffer))
            else
              bind_c (lift_c (non_null (PQgetvalue r 0 0))) (\<lambda>v.
              return_c (SYSINFO_RET_OK, zbx_strlcpy E bufferlen v))) (\<lambda>out.
         seq_c (PQclear res)
         (seq_c (PQfinish conn)
         (return_c out)))))))"

section \<open>pg_get_result\<close>

datatype ar_type = AR_UINT64 | AR_DOUBLE | AR_STRING | AR_OTHER int

text \<open>
  The conversion to an unsigned integer: a point in the second place is taken for scientific
  notation and read as a double.
\<close>

definition text_to_uint :: "env \<Rightarrow> string \<Rightarrow> fault + 64 word" where
  "text_to_uint E value =
     (if 1 < length value \<and> value ! 1 = CHR ''.''
      then double_to_ull (strtod (round_double E) value)
      else Inr (strtoull value))"

definition text_to_double :: "env \<Rightarrow> string \<Rightarrow> cdouble" where
  "text_to_double E value = to_double_type (round_double E) (strtod (round_long_double E) value)"

definition pg_get_result ::
  "env \<Rightarrow> agent_request \<Rightarrow> result_ptr \<Rightarrow> ar_type \<Rightarrow> string \<Rightarrow> nat option \<Rightarrow> sysinfo_ret mcmd" where
  "pg_get_result E request result type query params =
     traced E ''%s(%s)'' [AStr (Some ''pg_get_result''), AStr (Some (req_key request))]
     (bind_c (pg_scalar E request result query params [] (MAX_STRING_LEN E)) (\<lambda>(ret, value).
     if ret = SYSINFO_RET_FAIL then return_c SYSINFO_RET_FAIL
     else
       (case type of
          AR_STRING \<Rightarrow> seq_c (SET_STR_RESULT value) (return_c SYSINFO_RET_OK)
        | AR_UINT64 \<Rightarrow>
            bind_c (lift_c (text_to_uint E value)) (\<lambda>n.
            seq_c (SET_UI64_RESULT n) (return_c SYSINFO_RET_OK))
        | AR_DOUBLE \<Rightarrow> seq_c (SET_DBL_RESULT (text_to_double E value)) (return_c SYSINFO_RET_OK)
        | AR_OTHER t \<Rightarrow>
            seq_c (set_err_result E result ''Unsupported result type: 0x%0X in %s''
                     [AInt t, AStr (Some ''pg_get_result'')])
              (return_c SYSINFO_RET_FAIL))))"

abbreviation pg_get_string ::
  "env \<Rightarrow> agent_request \<Rightarrow> result_ptr \<Rightarrow> string \<Rightarrow> nat option \<Rightarrow> sysinfo_ret mcmd" where
  "pg_get_string E request result query params \<equiv> pg_get_result E request result AR_STRING query params"

abbreviation pg_get_int ::
  "env \<Rightarrow> agent_request \<Rightarrow> result_ptr \<Rightarrow> string \<Rightarrow> nat option \<Rightarrow> sysinfo_ret mcmd" where
  "pg_get_int E request result query params \<equiv> pg_get_result E request result AR_UINT64 query params"

abbreviation pg_get_dbl ::
  "env \<Rightarrow> agent_request \<Rightarrow> result_ptr \<Rightarrow> string \<Rightarrow> nat option \<Rightarrow> sysinfo_ret mcmd" where
  "pg_get_dbl E request result query params \<equiv> pg_get_result E request result AR_DOUBLE query params"

section \<open>pg_get_percentage and pg_version\<close>

text \<open>A call of \<open>zbx_snprintf\<close>: the text that is in the buffer afterwards.\<close>

definition snprintf :: "env \<Rightarrow> nat \<Rightarrow> string \<Rightarrow> farg list \<Rightarrow> fault + string" where
  "snprintf E n fmt args = bind_f (c_format fmt args) (\<lambda>t. Inr (zbx_snprintf E n t))"

definition percentage_query ::
  "env \<Rightarrow> string \<Rightarrow> string \<Rightarrow> string \<Rightarrow> string option \<Rightarrow> fault + string" where
  "percentage_query E table col1 col2 colFilter =
     bind_f (snprintf E (MAX_STRING_LEN E)
               ''SELECT CASE WHEN (%s) = 0 THEN 1 ELSE (%s)::float / (%s) END FROM %s''
               [AStr (Some col2), AStr (Some col1), AStr (Some col2), AStr (Some table)]) (\<lambda>query.
     if \<not> strisnull colFilter then
       (let qlen = length query in
        bind_f (snprintf E (MAX_STRING_LEN E - qlen) '' WHERE %s = $1'' [AStr colFilter]) (\<lambda>c.
        Inr (query @ c)))
     else Inr query)"

definition pg_get_percentage ::
  "env \<Rightarrow> agent_request \<Rightarrow> result_ptr \<Rightarrow> string \<Rightarrow> string \<Rightarrow> string \<Rightarrow> string option
     \<Rightarrow> string option \<Rightarrow> sysinfo_ret mcmd" where
  "pg_get_percentage E request result table col1 col2 colFilter filter_value =
     traced E ''%s(%s)'' [AStr (Some ''pg_get_percentage''), AStr (Some (req_key request))]
     (bind_c (lift_c (percentage_query E table col1 col2 colFilter)) (\<lambda>query.
     bind_c (param_new filter_value) (\<lambda>params.
     pg_get_dbl E request result query params)))"

definition VERSION_QUERY :: string where
  "VERSION_QUERY =
     ''SELECT setting FROM pg_settings WHERE name='server_version_num'' @ [CHR 0x27]"

definition pg_version :: "env \<Rightarrow> agent_request \<Rightarrow> result_ptr \<Rightarrow> int mcmd" where
  "pg_version E request result =
     traced E ''%s'' [AStr (Some ''pg_version'')]
     (bind_c (pg_scalar E request result VERSION_QUERY None [] (MAX_STRING_LEN E)) (\<lambda>(ret, buffer).
     if ret = SYSINFO_RET_OK then
       bind_c (lift_c (atol buffer)) (\<lambda>version.
       seq_c (zabbix_log E LOG_LEVEL_DEBUG ''PostgreSQL server version: %lu'' [AInt version])
       (return_c version))
     else return_c 0))"

section \<open>What a query does\<close>

lemma params_at_frame:
  assumes "params_at s params xs F" and "\<And>a. a \<in> F \<Longrightarrow> store s' a = store s a"
  shows "params_at s' params xs F"
proof (cases params)
  case None
  then show ?thesis using assms(1) by (simp add: params_at_def)
next
  case (Some a)
  then obtain ds where a: "store s a = Some (Ptrs (map Some ds @ [None]))"
    and ds: "list_all2 (\<lambda>d x. store s d = Some (Str x)) ds xs"
    and dist: "distinct (a # ds)" and F: "F = set (a # ds)"
    using assms(1) by (auto simp: params_at_def)
  have "list_all2 (\<lambda>d x. store s' d = Some (Str x)) ds xs"
    by (rule list.rel_mono_strong [OF ds]) (use assms(2) F in auto)
  then show ?thesis
    using params_at_SomeI [of s' a ds xs] a dist assms(2) [of a] by (simp add: F Some)
qed

lemma params_not_conn:
  "params_at s params xs F \<Longrightarrow> store s a = Some (Conn c) \<Longrightarrow> a \<notin> F"
  by (auto simp: params_at_def list_all2_conv_all_nth in_set_conv_nth split: option.splits)

text \<open>What the debug log says of a query: its text and its parameters.\<close>

fun param_notes :: "nat \<Rightarrow> string list \<Rightarrow> string list" where
  "param_notes i [] = []"
| "param_notes i (x # xs) = (''  $'' @ show_int (int i) @ '': '' @ x) # param_notes (Suc i) xs"

definition exec_notes :: "string \<Rightarrow> string list \<Rightarrow> string list" where
  "exec_notes query xs =
     (''Executing query with '' @ show_int (int (length xs)) @ '' parameters: '' @ query) # param_notes 0 xs"

lemma log_strings_run:
  "list_all2 (\<lambda>d x. store s d = Some (Str x)) ds xs \<Longrightarrow>
    log_strings E i (map Some ds) s = Inr ((), noted E (param_notes i xs) s)"
proof (induction ds arbitrary: xs i s)
  case (Cons d ds)
  then obtain x ys where xs: "xs = x # ys" "store s d = Some (Str x)"
    and ys: "list_all2 (\<lambda>d x. store s d = Some (Str x)) ds ys"
    by (auto simp: list_all2_Cons1)
  have "log_strings E (Suc i) (map Some ds) (noted E ms s)
      = Inr ((), noted E (param_notes (Suc i) ys) (noted E ms s))" for ms
    by (rule Cons.IH) (use ys in simp)
  then show ?case using xs
    by (simp add: fetch_str_def fetch_def bind_c_run seq_c_run cmd_simps)
qed (simp add: cmd_simps)

lemma log_params_run:
  assumes "params_at s params xs F"
  shows "log_params E params (length xs) s = Inr ((), noted E (param_notes 0 xs) s)"
proof (cases "log_enabled E LOG_LEVEL_DEBUG")
  case False
  then show ?thesis by (simp add: log_params_def noted_def cmd_simps)
next
  case True
  show ?thesis
  proof (cases params)
    case None
    then show ?thesis using assms by (simp add: log_params_def params_at_def cmd_simps)
  next
    case (Some a)
    then obtain ds where a: "store s a = Some (Ptrs (map Some ds @ [None]))"
      and ds: "list_all2 (\<lambda>d x. store s d = Some (Str x)) ds xs"
      using assms by (auto simp: params_at_def)
    then show ?thesis
      using log_strings_run [OF ds] list_all2_lengthD [OF ds] True Some
      by (simp add: log_params_def fetch_ptrs_def fetch_def bind_c_run cmd_simps)
  qed
qed

text \<open>\<open>pg_exec\<close>: the server gets the text and the parameters, the parameters are released.\<close>

definition exec_state ::
  "cstate \<Rightarrow> nat set \<Rightarrow> string \<Rightarrow> string list \<Rightarrow> pgresult option \<Rightarrow> cstate" where
  "exec_state s F query xs ro =
     (let m = store s |` (- F) in
      s\<lparr>store := (case ro of None \<Rightarrow> m | Some r \<Rightarrow> m(next_id s \<mapsto> Res r)),
        next_id := (case ro of None \<Rightarrow> next_id s | Some r \<Rightarrow> Suc (next_id s)),
        trace := trace s @ [EExec query xs]\<rparr>)"

lemma exec_state_noted [simp]:
  "exec_state (noted E ms s) F query xs ro = noted E ms (exec_state s F query xs ro)"
  by (cases ro) (simp_all add: exec_state_def Let_def)

lemma pg_exec_run:
  assumes "fresh_ok s" and p: "params_at s params xs F" and c: "store s conn = Some (Conn c)"
    and ro: "PQexecParams E (trace s) c query xs = ro"
  shows "pg_exec E conn query params s =
    Inr (map_option (\<lambda>_. next_id s) ro, noted E (exec_notes query xs) (exec_state s F query xs ro))"
proof -
  let ?t = "s\<lparr>trace := trace s @ [EExec query xs]\<rparr>" and ?n = "noted E (exec_notes query xs)"
  have q: "params_at (noted E ms s) params xs F" for ms using p by simp
  have call: "call_PQexecParams E conn query (length xs) params (?n s) =
      (case ro of None \<Rightarrow> Inr (None, ?n ?t)
       | Some r \<Rightarrow> Inr (Some (next_id s), ?n (?t\<lparr>store := (store s)(next_id s \<mapsto> Res r),
           next_id := Suc (next_id s)\<rparr>)))"
    using c ro read_params_run [OF q]
    by (simp add: call_PQexecParams_def fetch_conn_def fetch_def log_event_def alloc_def
        bind_c_run seq_c_run cmd_simps split: option.split)
  have new: "next_id s \<notin> F" using params_fresh [OF p assms(1)] by simp
  show ?thesis
  proof (cases ro)
    case None
    have "params_at (?n ?t) params xs F" using params_at_frame [OF p, of ?t] by simp
    from param_free_run [OF this] None show ?thesis
      using call param_len_run [OF p] log_params_run [OF q]
      by (simp add: pg_exec_def exec_state_def exec_notes_def bind_c_run seq_c_run cmd_simps)
  next
    case (Some r)
    let ?u = "?t\<lparr>store := (store s)(next_id s \<mapsto> Res r), next_id := Suc (next_id s)\<rparr>"
    have "params_at ?u params xs F" by (rule params_at_frame [OF p]) (use new in auto)
    then have "params_at (?n ?u) params xs F" by simp
    from param_free_run [OF this] Some show ?thesis
      using call param_len_run [OF p] log_params_run [OF q] new
      by (simp add: pg_exec_def exec_state_def exec_notes_def bind_c_run seq_c_run cmd_simps)
  qed
qed

text \<open>
  What \<open>pg_scalar\<close> makes of the result of its query: a message, or the first cell.
\<close>

definition scalar_reply :: "string \<Rightarrow> pgresult \<Rightarrow> string + string option" where
  "scalar_reply query r =
     (if PQresultStatus r \<noteq> PGRES_TUPLES_OK then
        Inl (''PostgreSQL error for query '' @ [CHR 0x22] @ query @ [CHR 0x22] @ '': '' @
          PQresultErrorMessage r)
      else if PQntuples r = 0 then
        Inl (''No results returned for query '' @ [CHR 0x22] @ query @ [CHR 0x22])
      else Inr (PQgetvalue r 0 0))"

text \<open>The connection and the result a request gets in a state.\<close>

definition request_conn :: "env \<Rightarrow> agent_request \<Rightarrow> cstate \<Rightarrow> pgconn" where
  "request_conn E request s = PQconnectdb E (trace s) (request_connstring request)"

definition request_result ::
  "env \<Rightarrow> agent_request \<Rightarrow> cstate \<Rightarrow> string \<Rightarrow> string list \<Rightarrow> pgresult option" where
  "request_result E request s query xs =
     PQexecParams E (trace s @ [EConnect (request_connstring request)])
       (request_conn E request s) query xs"

definition result_view :: "pgresult option \<Rightarrow> pgresult" where
  "result_view ro = (case ro of None \<Rightarrow> null_result | Some r \<Rightarrow> r)"

text \<open>The state after a request that was served: the store without the parameters.\<close>

definition served ::
  "cstate \<Rightarrow> nat set \<Rightarrow> nat \<Rightarrow> event list \<Rightarrow> agent_result \<Rightarrow> cstate" where
  "served s F n es ans =
     s\<lparr>store := store s |` (- F), next_id := n, trace := trace s @ es, answer := ans\<rparr>"

lemma served_noted [simp]: "served (noted E ms s) F n es ans = noted E ms (served s F n es ans)"
  by (simp add: served_def)

lemma request_noted [simp]:
  "request_conn E request (noted E' ms s) = request_conn E request s"
  "request_result E request (noted E' ms s) query xs = request_result E request s query xs"
  by (simp_all add: request_conn_def request_result_def)

lemma scalar_formats:
  "c_format (''PostgreSQL error for query '' @ [CHR 0x22] @ ''%s'' @ [CHR 0x22] @ '': %s'')
      [AStr (Some q), AStr (Some m)]
    = Inr (''PostgreSQL error for query '' @ [CHR 0x22] @ q @ [CHR 0x22] @ '': '' @ m)"
  "c_format (''No results returned for query '' @ [CHR 0x22] @ ''%s'' @ [CHR 0x22])
      [AStr (Some q)]
    = Inr (''No results returned for query '' @ [CHR 0x22] @ q @ [CHR 0x22])"
  by simp_all

definition connected :: "env \<Rightarrow> agent_request \<Rightarrow> cstate \<Rightarrow> cstate" where
  "connected E request s =
     s\<lparr>store := (store s)(Suc (next_id s) \<mapsto> Conn (request_conn E request s)),
       next_id := Suc (Suc (next_id s)),
       trace := trace s @ [EConnect (request_connstring request)]\<rparr>"

lemma connected_noted [simp]: "connected E request (noted E ms s) = noted E ms (connected E request s)"
  by (simp add: connected_def)

lemma connected_params:
  assumes "fresh_ok s" and "params_at s params xs F"
  shows "params_at (connected E request s) params xs F"
    and "fresh_ok (connected E request s)"
    and "Suc (next_id s) \<notin> F" and "next_id (connected E request s) \<notin> F"
proof -
  have new: "Suc (next_id s) \<notin> F" "Suc (Suc (next_id s)) \<notin> F"
    using params_fresh [OF assms(2,1)] by simp_all
  then show "Suc (next_id s) \<notin> F" "next_id (connected E request s) \<notin> F"
    by (simp_all add: connected_def)
  show "params_at (connected E request s) params xs F"
    by (rule params_at_frame [OF assms(2)]) (use new in \<open>auto simp: connected_def\<close>)
  show "fresh_ok (connected E request s)"
    using assms(1) by (auto simp: fresh_ok_def connected_def)
qed

section \<open>A session: connect, query, use the result, release\<close>

text \<open>
  \<open>pg_scalar\<close>, \<open>pg_get_discovery\<close> and \<open>pg_get_databases\<close> have one frame; they differ in what they do
  with the result.
\<close>

definition session ::
  "env \<Rightarrow> agent_request \<Rightarrow> result_ptr \<Rightarrow> string \<Rightarrow> nat option \<Rightarrow> 'a \<Rightarrow> (pgresult \<Rightarrow> 'a mcmd)
     \<Rightarrow> 'a mcmd" where
  "session E request result query params none body =
     bind_c (pg_connect_request E request result) (\<lambda>conn.
     case conn of
       None \<Rightarrow> return_c none
     | Some c \<Rightarrow>
         bind_c (pg_exec E c query params) (\<lambda>res.
         bind_c (view_result res) (\<lambda>r.
         bind_c (body r) (\<lambda>x.
         seq_c (PQclear res) (seq_c (PQfinish conn) (return_c x))))))"

text \<open>The debug messages of a session, and the state in which its result is used.\<close>

definition session_notes :: "agent_request \<Rightarrow> string \<Rightarrow> string list \<Rightarrow> string list" where
  "session_notes request query xs = connect_notes (request_connstring request) @ exec_notes query xs"

definition queried ::
  "env \<Rightarrow> agent_request \<Rightarrow> cstate \<Rightarrow> nat set \<Rightarrow> string \<Rightarrow> string list \<Rightarrow> cstate" where
  "queried E request s F query xs =
     noted E (session_notes request query xs)
       (exec_state (connected E request s) F query xs (request_result E request s query xs))"

lemma queried_simps:
  "trace (queried E request s F query xs) =
     trace s @ [EConnect (request_connstring request), EExec query xs]"
  "answer (queried E request s F query xs) = answer s"
  "queries (queried E request s F query xs) = queries s"
  "next_id s < next_id (queried E request s F query xs)"
  by (simp_all add: queried_def exec_state_def connected_def Let_def split: option.split)

lemma fresh_queried:
  "fresh_ok s \<Longrightarrow> fresh_ok (queried E request s F query xs)"
  by (auto simp: queried_def exec_state_def connected_def fresh_ok_def restrict_map_def Let_def
      split: option.split)

lemma session_prefix:
  assumes fresh: "fresh_ok s" and ok: "request_ok request" and p: "params_at s params xs F"
    and acc: "PQstatus (request_conn E request s) = CONNECTION_OK"
  shows "session E request result query params none body s =
    (case body (result_view (request_result E request s query xs)) (queried E request s F query xs) of
       Inl e \<Rightarrow> Inl e
     | Inr (x, t) \<Rightarrow>
         seq_c (PQclear (map_option (\<lambda>_. Suc (Suc (next_id s))) (request_result E request s query xs)))
           (seq_c (PQfinish (Some (Suc (next_id s)))) (return_c x)) t)"
proof -
  let ?s1 = "connected E request s" and ?c = "Suc (next_id s)"
  let ?ro = "request_result E request s query xs" and ?s2 = "queried E request s F query xs"
  let ?res = "map_option (\<lambda>_. next_id ?s1) ?ro"
  let ?n = "noted E (connect_notes (request_connstring request))"
  note new = connected_params [OF fresh p]
  have conn: "pg_connect_request E request result s = Inr (Some ?c, ?n ?s1)"
    using pg_connect_request_accepted [OF fresh ok] acc
    by (simp add: connected_def request_conn_def)
  have "store ?s1 ?c = Some (Conn (request_conn E request s))" by (simp add: connected_def)
  then have "fresh_ok (?n ?s1)" "params_at (?n ?s1) params xs F"
    "store (?n ?s1) ?c = Some (Conn (request_conn E request s))" using new by simp_all
  from pg_exec_run [OF this refl]
  have exec: "pg_exec E ?c query params (?n ?s1) = Inr (?res, ?s2)"
    by (simp add: queried_def session_notes_def request_result_def connected_def)
  have view: "view_result ?res ?s2 = Inr (result_view ?ro, ?s2)"
    by (cases ?ro) (simp_all add: view_result_def result_view_def fetch_res_def fetch_def
        queried_def exec_state_def Let_def bind_c_run cmd_simps)
  have next1: "next_id ?s1 = Suc (Suc (next_id s))" by (simp add: connected_def)
  show ?thesis
    using view exec by (simp add: session_def conn bind_c_run next1)
qed

text \<open>
  A session on an accepted connection: when the body is defined and has changed nothing but new
  objects, the session ends with the parameters, the result and the connection released.
\<close>

lemma session_served:
  assumes fresh: "fresh_ok s" and ok: "request_ok request" and p: "params_at s params xs F"
    and acc: "PQstatus (request_conn E request s) = CONNECTION_OK"
    and body: "body (result_view (request_result E request s query xs))
      (queried E request s F query xs) = Inr (x, t)"
    and frame: "\<And>a. a < next_id (queried E request s F query xs) \<Longrightarrow>
      store t a = store (queried E request s F query xs) a"
  shows "session E request result query params none body s = Inr (x,
    t\<lparr>store := (\<lambda>a. if a < next_id (queried E request s F query xs) then (store s |` (- F)) a
        else store t a), trace := trace t @ [EFinish]\<rparr>)"
proof -
  let ?s1 = "connected E request s" and ?c = "Suc (next_id s)"
  let ?ro = "request_result E request s query xs" and ?s2 = "queried E request s F query xs"
  let ?res = "map_option (\<lambda>_. Suc ?c) ?ro"
  note new = connected_params [OF fresh p]
  have store2: "store ?s2 = (case ?ro of None \<Rightarrow> (store ?s1 |` (- F))
      | Some r \<Rightarrow> (store ?s1 |` (- F))(Suc ?c \<mapsto> Res r))"
    "next_id ?s2 = (case ?ro of None \<Rightarrow> Suc ?c | Some r \<Rightarrow> Suc (Suc ?c))"
    by (simp_all add: queried_def exec_state_def connected_def Let_def split: option.split)
  have free: "store s ?c = None" "store s (Suc ?c) = None" "?c \<notin> F" "Suc ?c \<notin> F"
    using fresh new(3,4) by (simp_all add: fresh_ok_def connected_def)
  have tc: "store t ?c = Some (Conn (request_conn E request s))"
    using frame [of ?c] store2 free by (simp add: connected_def split: option.splits)
  have t_other: "a < next_id ?s2 \<Longrightarrow> a \<noteq> ?c \<Longrightarrow> ?ro = None \<or> a \<noteq> Suc ?c \<Longrightarrow>
      store t a = (store s |` (- F)) a" for a
    using frame [of a] store2
    by (auto simp: connected_def restrict_map_def split: option.splits if_splits)
  have rel: "seq_c (PQclear ?res) (seq_c (PQfinish (Some ?c)) (return_c x)) t = Inr (x,
      t\<lparr>store := (store t)(?c := None, Suc ?c := (if ?ro = None then store t (Suc ?c) else None)),
        trace := trace t @ [EFinish]\<rparr>)"
  proof (cases ?ro)
    case None
    then show ?thesis using tc
      by (simp add: PQclear_def PQfinish_def fetch_conn_def fetch_def release_def log_event_def
          bind_c_run seq_c_run cmd_simps fun_upd_idem fun_upd_twist)
  next
    case (Some r)
    then have "store t (Suc ?c) = Some (Res r)"
      using frame [of "Suc ?c"] store2 by simp
    then show ?thesis using tc Some
      by (simp add: PQclear_def PQfinish_def fetch_conn_def fetch_res_def fetch_def release_def
          log_event_def connected_def bind_c_run seq_c_run cmd_simps fun_upd_twist)
  qed
  have "(store t)(?c := None, Suc ?c := (if ?ro = None then store t (Suc ?c) else None)) =
      (\<lambda>a. if a < next_id ?s2 then (store s |` (- F)) a else store t a)"
    using t_other free store2(2)
    by (cases ?ro) (auto simp: fun_eq_iff restrict_map_def)
  with rel show ?thesis
    using session_prefix [OF fresh ok p acc, where body = body and query = query] body by simp
qed

lemma session_plain:
  assumes "fresh_ok s" and "request_ok request" and "params_at s params xs F"
    and "PQstatus (request_conn E request s) = CONNECTION_OK"
    and body: "body (result_view (request_result E request s query xs))
      (queried E request s F query xs) =
        Inr (x, (queried E request s F query xs)\<lparr>next_id := n, trace := tr, answer := ans\<rparr>)"
  shows "session E request result query params none body s = Inr (x,
    noted E (session_notes request query xs)
      (s\<lparr>store := store s |` (- F), next_id := n, trace := tr @ [EFinish], answer := ans\<rparr>))"
proof -
  let ?s2 = "queried E request s F query xs"
  have none: "store s a = None" "store ?s2 a = None" if "\<not> a < next_id ?s2" for a
    using that assms(1) fresh_queried [OF assms(1), of E request F query xs]
      queried_simps(4) [of s E request F query xs]
    by (auto simp: fresh_ok_def)
  have "(\<lambda>a. if a < next_id ?s2 then (store s |` (- F)) a else store ?s2 a) = store s |` (- F)"
    using none by (auto simp: fun_eq_iff restrict_map_def)
  moreover have "?s2\<lparr>next_id := n, answer := ans, store := m, trace := tr @ [EFinish]\<rparr> =
      noted E (session_notes request query xs)
        (s\<lparr>store := m, next_id := n, trace := tr @ [EFinish], answer := ans\<rparr>)" for m
    by (simp add: queried_def session_notes_def exec_state_def connected_def Let_def)
  ultimately show ?thesis
    using session_served [where body = body, OF assms(1-4) body] by (simp cong: if_cong)
qed

lemma session_refused:
  assumes "fresh_ok s" and "request_ok request"
    and "PQstatus (request_conn E request s) \<noteq> CONNECTION_OK"
    and "c_format (PQerrorMessage (request_conn E request s)) [] = Inr msg"
  shows "session E request result query params none body s = Inr (none,
    noted E (connect_notes (request_connstring request)) (served s {} (Suc (Suc (next_id s)))
      (EConnect (request_connstring request) # err_log E msg @ [EFinish])
      (set_msg result (err_text E msg) (answer s))))"
  using pg_connect_request_refused [OF assms(1,2)] assms(3,4)
  by (simp add: session_def request_conn_def served_def bind_c_run cmd_simps restrict_map_def)

lemma session_bad_message:
  assumes "request_ok request"
    and "PQstatus (request_conn E request s) \<noteq> CONNECTION_OK"
    and "c_format (PQerrorMessage (request_conn E request s)) [] = Inl e"
  shows "session E request result query params none body s = Inl e"
  using pg_connect_request_fault [OF assms(1)] assms(2,3)
  by (simp add: session_def request_conn_def bind_c_run)

section \<open>What pg_scalar does\<close>

definition scalar_body ::
  "env \<Rightarrow> result_ptr \<Rightarrow> string \<Rightarrow> string \<Rightarrow> nat \<Rightarrow> pgresult \<Rightarrow> (sysinfo_ret \<times> string) mcmd" where
  "scalar_body E result query buffer bufferlen r =
     (if PQresultStatus r \<noteq> PGRES_TUPLES_OK then
        seq_c (set_err_result E result
                 (''PostgreSQL error for query '' @ [CHR 0x22] @ ''%s'' @ [CHR 0x22] @ '': %s'')
                 [AStr (Some query), AStr (Some (PQresultErrorMessage r))])
          (return_c (SYSINFO_RET_FAIL, buffer))
      else if PQntuples r = 0 then
        seq_c (set_err_result E result
                 (''No results returned for query '' @ [CHR 0x22] @ ''%s'' @ [CHR 0x22])
                 [AStr (Some query)])
          (return_c (SYSINFO_RET_FAIL, buffer))
      else
        bind_c (lift_c (non_null (PQgetvalue r 0 0))) (\<lambda>v.
        return_c (SYSINFO_RET_OK, zbx_strlcpy E bufferlen v)))"

lemma pg_scalar_session:
  "pg_scalar E request result query params buffer bufferlen =
     traced E ''%s'' [AStr (Some ''pg_scalar'')]
       (session E request result query params (SYSINFO_RET_FAIL, buffer)
         (scalar_body E result query buffer bufferlen))"
  unfolding pg_scalar_def session_def scalar_body_def ..

lemma scalar_body_message:
  assumes "scalar_reply query r = Inl msg"
  shows "scalar_body E result query buffer bufferlen r s = Inr ((SYSINFO_RET_FAIL, buffer),
    s\<lparr>trace := trace s @ err_log E msg, answer := set_msg result (err_text E msg) (answer s)\<rparr>)"
proof (cases "PQresultStatus r = PGRES_TUPLES_OK")
  case True
  then have "PQntuples r = 0" and "msg = ''No results returned for query '' @ [CHR 0x22] @ query @ [CHR 0x22]"
    using assms by (auto simp: scalar_reply_def split: if_splits)
  then show ?thesis
    using True set_err_result_run [OF scalar_formats(2), where E = E and result = result and s = s]
    by (simp add: scalar_body_def seq_c_run cmd_simps)
next
  case False
  then have "msg = ''PostgreSQL error for query '' @ [CHR 0x22] @ query @ [CHR 0x22] @ '': '' @
      PQresultErrorMessage r"
    using assms by (auto simp: scalar_reply_def split: if_splits)
  then show ?thesis
    using False set_err_result_run [OF scalar_formats(1), where E = E and result = result and s = s]
    by (simp add: scalar_body_def seq_c_run cmd_simps)
qed

definition scalar_notes :: "agent_request \<Rightarrow> string \<Rightarrow> string list \<Rightarrow> string list" where
  "scalar_notes request query xs =
     around ''pg_scalar'' (session_notes request query xs)"

text \<open>When the connection is accepted, on each of its ends.\<close>

lemma pg_scalar_served:
  assumes fresh: "fresh_ok s" and ok: "request_ok request" and p: "params_at s params xs F"
    and acc: "PQstatus (request_conn E request s) = CONNECTION_OK"
    and ro: "request_result E request s query xs = ro"
  shows "\<exists>n \<ge> next_id s. pg_scalar E request result query params buffer bufferlen s =
    (case scalar_reply query (result_view ro) of
       Inl msg \<Rightarrow> Inr ((SYSINFO_RET_FAIL, buffer), noted E (scalar_notes request query xs)
         (served s F n ([EConnect (request_connstring request), EExec query xs] @ err_log E msg @ [EFinish])
           (set_msg result (err_text E msg) (answer s))))
     | Inr None \<Rightarrow> Inl Null_deref
     | Inr (Some v) \<Rightarrow> Inr ((SYSINFO_RET_OK, zbx_strlcpy E bufferlen v),
         noted E (scalar_notes request query xs)
           (served s F n [EConnect (request_connstring request), EExec query xs, EFinish] (answer s))))"
proof -
  let ?s = "noted E [''In pg_scalar''] s" and ?body = "scalar_body E result query buffer bufferlen"
  let ?s2 = "queried E request ?s F query xs" and ?r = "result_view ro"
  have s: "fresh_ok ?s" "params_at ?s params xs F" "PQstatus (request_conn E request ?s) = CONNECTION_OK"
    using fresh p acc by simp_all
  note plain = session_plain [where body = ?body, OF s(1) ok s(2,3)]
  have n: "next_id s \<le> next_id ?s2" using queried_simps(4) [of ?s E request F query xs] by simp
  have same: "?s2 = ?s2\<lparr>next_id := next_id ?s2, trace := trace ?s2, answer := answer ?s2\<rparr>" by simp
  show ?thesis
  proof (cases "scalar_reply query ?r")
    case (Inl msg)
    then have "?body (result_view (request_result E request ?s query xs)) ?s2 =
        Inr ((SYSINFO_RET_FAIL, buffer), ?s2\<lparr>next_id := next_id ?s2, trace := trace ?s2 @ err_log E msg,
          answer := set_msg result (err_text E msg) (answer ?s2)\<rparr>)"
      by (simp add: ro scalar_body_message [OF Inl])
    from plain [OF this] show ?thesis
      using n Inl by (intro exI [of _ "next_id ?s2"])
        (simp add: pg_scalar_session cmd_simps served_def scalar_notes_def around_def queried_simps)
  next
    case (Inr c)
    then have ok_r: "PQresultStatus ?r = PGRES_TUPLES_OK" "PQntuples ?r \<noteq> 0" "PQgetvalue ?r 0 0 = c"
      by (auto simp: scalar_reply_def split: if_splits)
    show ?thesis
    proof (cases c)
      case None
      then have "?body (result_view (request_result E request ?s query xs)) ?s2 = Inl Null_deref"
        using ok_r by (simp add: scalar_body_def ro non_null_def bind_c_run cmd_simps)
      then show ?thesis
        using session_prefix [where body = ?body and query = query, OF s(1) ok s(2,3)] Inr None
        by (intro exI [of _ "next_id s"]) (simp add: pg_scalar_session cmd_simps)
    next
      case (Some v)
      then have "?body (result_view (request_result E request ?s query xs)) ?s2 =
          Inr ((SYSINFO_RET_OK, zbx_strlcpy E bufferlen v),
            ?s2\<lparr>next_id := next_id ?s2, trace := trace ?s2, answer := answer ?s2\<rparr>)"
        using ok_r by (simp add: scalar_body_def ro non_null_def cmd_simps)
      from plain [OF this] show ?thesis
        using n Inr Some by (intro exI [of _ "next_id ?s2"])
          (simp add: pg_scalar_session cmd_simps served_def scalar_notes_def around_def queried_simps)
    qed
  qed
qed

text \<open>
  When the connection is refused: the parameters have not been released.
\<close>

lemma pg_scalar_refused:
  assumes "fresh_ok s" and "request_ok request"
    and "PQstatus (request_conn E request s) \<noteq> CONNECTION_OK"
    and "c_format (PQerrorMessage (request_conn E request s)) [] = Inr msg"
  shows "pg_scalar E request result query params buffer bufferlen s =
    Inr ((SYSINFO_RET_FAIL, buffer), noted E (around ''pg_scalar'' (connect_notes (request_connstring request)))
      (served s {} (Suc (Suc (next_id s)))
        (EConnect (request_connstring request) # err_log E msg @ [EFinish])
        (set_msg result (err_text E msg) (answer s))))"
  using session_refused [where E = E and s = "noted E [''In pg_scalar''] s" and request = request and
      msg = msg and result = result and query = query and params = params and
      body = "scalar_body E result query buffer bufferlen"] assms
  by (simp add: pg_scalar_session cmd_simps around_def)

lemma pg_scalar_bad_message:
  assumes "request_ok request"
    and "PQstatus (request_conn E request s) \<noteq> CONNECTION_OK"
    and "c_format (PQerrorMessage (request_conn E request s)) [] = Inl e"
  shows "pg_scalar E request result query params buffer bufferlen s = Inl e"
  using session_bad_message [OF assms(1), where E = E and s = "noted E [''In pg_scalar''] s" and e = e
      and body = "scalar_body E result query buffer bufferlen" and result = result and query = query
      and params = params] assms(2,3)
  by (simp add: pg_scalar_session cmd_simps)

end
