(* ===== verification/Discovery.thy ===== *)
theory Discovery
  imports Exec
begin

text \<open>
  Discovery (\<open>pg_discovery.c\<close>): the rows of a query become a JSON document of objects, whose fields
  are named after the columns. \<open>pg_get_discovery\<close> asks the database of the request,
  \<open>pg_get_discovery_wide\<close> every database the server lists, which \<open>pg_get_databases\<close> returns as a
  multi-string: the names, each followed by a NUL, and one more NUL.
\<close>

section \<open>JSON documents\<close>

text \<open>
  The caller's struct, from \<open>zbx_json_init\<close> on a resource to be given back with \<open>zbx_json_free\<close>; where
  the library keeps the text is not modelled.
\<close>

definition zbx_json_init :: "nat mcmd" where
  "zbx_json_init = alloc (Json [])"

definition zbx_json_add :: "nat \<Rightarrow> json_op \<Rightarrow> unit mcmd" where
  "zbx_json_add j x = bind_c (fetch_json j) (\<lambda>ops. update j (Json (ops @ [x])))"

definition zbx_json_free :: "nat \<Rightarrow> unit mcmd" where
  "zbx_json_free j = bind_c (fetch_json j) (\<lambda>_. release j)"

definition ZBX_PROTO_TAG_DATA :: string where
  "ZBX_PROTO_TAG_DATA = ''data''"

text \<open>The name of a field: the column name in a macro, in upper case.\<close>

definition field_name :: "env \<Rightarrow> pgresult \<Rightarrow> nat \<Rightarrow> fault + string" where
  "field_name E r x =
     bind_f (snprintf E (MAX_STRING_LEN E) ''{#%s}'' [AStr (PQfname r x)]) (\<lambda>buffer.
     Inr (map toupper buffer))"

definition add_fields :: "env \<Rightarrow> nat \<Rightarrow> pgresult \<Rightarrow> nat \<Rightarrow> unit mcmd" where
  "add_fields E j r i =
     for_c [0..<PQnfields r] (\<lambda>x.
       bind_c (lift_c (field_name E r x)) (\<lambda>buffer.
       zbx_json_add j (J_addstring buffer (PQgetvalue r i x))))"

definition add_rows :: "env \<Rightarrow> nat \<Rightarrow> pgresult \<Rightarrow> unit mcmd" where
  "add_rows E j r =
     for_c [0..<PQntuples r] (\<lambda>i.
       seq_c (zbx_json_add j J_addobject)
       (seq_c (add_fields E j r i)
       (zbx_json_add j J_close)))"

text \<open>The end of both functions: the document is closed, copied to the answer and freed.\<close>

definition finish_json :: "env \<Rightarrow> nat \<Rightarrow> unit mcmd" where
  "finish_json E j =
     seq_c (zbx_json_add j J_close)
     (bind_c (fetch_json j) (\<lambda>ops.
     seq_c (SET_STR_RESULT (zbx_json_text E ops))
     (zbx_json_free j)))"

section \<open>pg_get_discovery\<close>

definition pg_get_discovery ::
  "env \<Rightarrow> agent_request \<Rightarrow> result_ptr \<Rightarrow> string \<Rightarrow> nat option \<Rightarrow> sysinfo_ret mcmd" where
  "pg_get_discovery E request result query params =
     traced E ''%s(%s)'' [AStr (Some ''pg_get_discovery''), AStr (Some (req_key request))]
     (bind_c (pg_connect_request E request result) (\<lambda>conn.
     case conn of
       None \<Rightarrow> return_c SYSINFO_RET_FAIL
     | Some c \<Rightarrow>
         bind_c (pg_exec E c query params) (\<lambda>res.
         bind_c (view_result res) (\<lambda>r.
         bind_c
           (if PQresultStatus r \<noteq> PGRES_TUPLES_OK then
              seq_c (set_err_result E result ''PostgreSQL query error: %s''
                       [AStr (Some (PQresultErrorMessage r))])
                (return_c SYSINFO_RET_FAIL)
            else
              bind_c zbx_json_init (\<lambda>j.
              seq_c (zbx_json_add j (J_addarray ZBX_PROTO_TAG_DATA))
              (seq_c (add_rows E j r)
              (seq_c (finish_json E j)
              (return_c SYSINFO_RET_OK))))) (\<lambda>ret.
         seq_c (PQclear res)
         (seq_c (PQfinish conn)
         (return_c ret)))))))"

section \<open>pg_get_databases\<close>

definition DATABASES_QUERY :: string where
  "DATABASES_QUERY =
     ''SELECT datname FROM pg_database WHERE datallowconn = '' @ [CHR 0x27] @ ''t'' @ [CHR 0x27] @
     '' AND pg_catalog.has_database_privilege(current_user, oid, '' @ [CHR 0x27] @ ''CONNECT'' @
     [CHR 0x27] @ '');''"

text \<open>The size of the buffer is summed up in an \<open>int\<close>.\<close>

definition multi_string :: "pgresult \<Rightarrow> nat mcmd" where
  "multi_string r =
     bind_c (lift_c (foldM_f (\<lambda>i bufferlen.
         bind_f (non_null (PQgetvalue r i 0)) (\<lambda>v. Inr (to_int32 (bufferlen + int (length v + 1)))))
       [0..<PQntuples r] 1)) (\<lambda>bufferlen.
     bind_c (malloc_cleared bufferlen) (\<lambda>databases.
     bind_c (fold_c [0..<PQntuples r] (\<lambda>i c.
         bind_c (strcat2_at databases c (PQgetvalue r i 0)) (\<lambda>c.
         return_c (map_option Suc c))) (Some 0)) (\<lambda>_.
     return_c databases)))"

definition pg_get_databases :: "env \<Rightarrow> agent_request \<Rightarrow> result_ptr \<Rightarrow> nat option mcmd" where
  "pg_get_databases E request result =
     traced E ''%s'' [AStr (Some ''pg_get_databases'')]
     (bind_c (pg_connect_request E request result) (\<lambda>conn.
     case conn of
       None \<Rightarrow> return_c None
     | Some c \<Rightarrow>
         bind_c (pg_exec E c DATABASES_QUERY None) (\<lambda>res.
         bind_c (view_result res) (\<lambda>r.
         bind_c
           (if PQntuples r = 0 then
              seq_c (set_err_result E result
                       ''Failed to enumerate connectable PostgreSQL databases'' [])
                (return_c None)
            else bind_c (multi_string r) (\<lambda>databases. return_c (Some databases))) (\<lambda>databases.
         seq_c (PQclear res)
         (seq_c (PQfinish conn)
         (return_c databases)))))))"

section \<open>pg_get_discovery_wide\<close>

text \<open>
  One round of the loop. The value is None when the round was completed, otherwise the variables
  \<open>connstring\<close> and \<open>conn\<close> at the jump to the end of the function.
\<close>

definition wide_round ::
  "env \<Rightarrow> agent_request \<Rightarrow> result_ptr \<Rightarrow> string \<Rightarrow> nat option \<Rightarrow> nat \<Rightarrow> string
     \<Rightarrow> (nat option \<times> nat option) option mcmd" where
  "wide_round E request result query params j db =
     bind_c (build_connstring (get_rparam request PARAM_CONN_STRING) (Some db)) (\<lambda>connstring.
     bind_c (c_str_at connstring) (\<lambda>text.
     bind_c (pg_connect E text result) (\<lambda>conn.
     case conn of
       None \<Rightarrow> return_c (Some (Some connstring, None))
     | Some c \<Rightarrow>
         bind_c (pg_exec E c query params) (\<lambda>res.
         bind_c (view_result res) (\<lambda>r.
         if PQresultStatus r \<noteq> PGRES_TUPLES_OK then
           seq_c (set_err_result E result ''PostgreSQL query error: %s''
                    [AStr (Some (PQresultErrorMessage r))])
             (return_c (Some (Some connstring, conn)))
         else
           seq_c (add_rows E j r)
           (seq_c (zbx_free (Some connstring))
           (seq_c (PQclear res)
           (seq_c (PQfinish conn)
           (return_c None)))))))))"

text \<open>The loop over the names of a multi-string, from an offset on.\<close>

function wide_loop ::
  "env \<Rightarrow> agent_request \<Rightarrow> result_ptr \<Rightarrow> string \<Rightarrow> nat option \<Rightarrow> nat \<Rightarrow> char list \<Rightarrow> nat
     \<Rightarrow> (nat option \<times> nat option) option mcmd" where
  "wide_loop E request result query params j b k =
     (if k < length b then
        if b ! k = NUL then return_c None
        else
          bind_c (lift_c (c_str b k)) (\<lambda>db.
          bind_c (wide_round E request result query params j db) (\<lambda>exit.
          case exit of
            Some v \<Rightarrow> return_c (Some v)
          | None \<Rightarrow> wide_loop E request result query params j b (k + length db + 1)))
      else fault_c Out_of_bounds)"
  by pat_completeness auto
termination
  by (relation "measure (\<lambda>(E, request, result, query, params, j, b, k). length b - k)") auto

declare wide_loop.simps [simp del]

definition pg_get_discovery_wide ::
  "env \<Rightarrow> agent_request \<Rightarrow> result_ptr \<Rightarrow> string \<Rightarrow> nat option \<Rightarrow> sysinfo_ret mcmd" where
  "pg_get_discovery_wide E request result query params =
     traced E ''%s(%s)'' [AStr (Some ''pg_get_discovery_wide''), AStr (Some (req_key request))]
     (bind_c (pg_get_databases E request result) (\<lambda>databases.
     case databases of
       None \<Rightarrow> return_c SYSINFO_RET_FAIL
     | Some d \<Rightarrow>
         bind_c zbx_json_init (\<lambda>j.
         seq_c (zbx_json_add j (J_addarray ZBX_PROTO_TAG_DATA))
         (bind_c (fetch_bytes d) (\<lambda>b.
         bind_c (wide_loop E request result query params j b 0) (\<lambda>exit.
         case exit of
           None \<Rightarrow>
             seq_c (finish_json E j)
             (seq_c (zbx_free databases)
             (return_c SYSINFO_RET_OK))
         | Some (connstring, conn) \<Rightarrow>
             seq_c (zbx_free connstring)
             (seq_c (zbx_free databases)
             (seq_c (PQfinish conn)
             (return_c SYSINFO_RET_FAIL)))))))))"

section \<open>The document of a result\<close>

text \<open>The objects a result stands for: a list of fields for each row.\<close>

type_synonym json_object = "(string \<times> string option) list"

definition field_label :: "env \<Rightarrow> pgresult \<Rightarrow> nat \<Rightarrow> string" where
  "field_label E r x =
     map toupper (zbx_snprintf E (MAX_STRING_LEN E) (''{#'' @ str0 (PQfname r x) @ ''}''))"

definition row_object :: "env \<Rightarrow> pgresult \<Rightarrow> nat \<Rightarrow> json_object" where
  "row_object E r i = map (\<lambda>x. (field_label E r x, PQgetvalue r i x)) [0..<PQnfields r]"

definition row_objects :: "env \<Rightarrow> pgresult \<Rightarrow> json_object list" where
  "row_objects E r = map (row_object E r) [0..<PQntuples r]"

definition object_ops :: "json_object \<Rightarrow> json_op list" where
  "object_ops fs = J_addobject # map (\<lambda>(n, v). J_addstring n v) fs @ [J_close]"

definition doc_ops :: "json_object list \<Rightarrow> json_op list" where
  "doc_ops objs = J_addarray ''data'' # concat (map object_ops objs) @ [J_close]"

text \<open>A reader of documents.\<close>

fun read_fields :: "json_op list \<Rightarrow> (json_object \<times> json_op list) option" where
  "read_fields (J_addstring n v # ops) =
     (case read_fields ops of None \<Rightarrow> None | Some (fs, rest) \<Rightarrow> Some ((n, v) # fs, rest))"
| "read_fields (J_close # ops) = Some ([], ops)"
| "read_fields _ = None"

lemma read_fields_shorter: "read_fields ops = Some (fs, rest) \<Longrightarrow> length rest < length ops"
  by (induction ops arbitrary: fs rest rule: read_fields.induct) (auto split: option.splits)

function read_objects :: "json_op list \<Rightarrow> json_object list option" where
  "read_objects ops =
     (case ops of
        J_addobject # tail \<Rightarrow>
          (case read_fields tail of
             None \<Rightarrow> None
           | Some (fs, rest) \<Rightarrow> map_option ((#) fs) (read_objects rest))
      | [J_close] \<Rightarrow> Some []
      | _ \<Rightarrow> None)"
  by pat_completeness auto
termination
  by (relation "measure length") (auto dest: read_fields_shorter)

declare read_objects.simps [simp del]

definition read_doc :: "json_op list \<Rightarrow> json_object list option" where
  "read_doc ops =
     (case ops of J_addarray name # rest \<Rightarrow> if name = ''data'' then read_objects rest else None
      | _ \<Rightarrow> None)"

lemma read_fields_ops:
  "read_fields (map (\<lambda>(n, v). J_addstring n v) fs @ J_close # rest) = Some (fs, rest)"
  by (induction fs) auto

lemma object_ops_append:
  "object_ops fs @ rest = J_addobject # map (\<lambda>(n, v). J_addstring n v) fs @ J_close # rest"
  by (simp add: object_ops_def)

lemma read_objects_ops: "read_objects (concat (map object_ops objs) @ [J_close]) = Some objs"
proof (induction objs)
  case Nil
  show ?case by (simp add: read_objects.simps)
next
  case (Cons fs objs)
  then show ?case
    by (subst read_objects.simps) (simp add: object_ops_append read_fields_ops)
qed

lemma read_doc_ops: "read_doc (doc_ops objs) = Some objs"
  by (simp add: read_doc_def doc_ops_def read_objects_ops)

section \<open>What the writers do\<close>

text \<open>The state in which a document holds these calls.\<close>

definition with_json :: "cstate \<Rightarrow> nat \<Rightarrow> json_op list \<Rightarrow> cstate" where
  "with_json s j ops = s\<lparr>store := (store s)(j \<mapsto> Json ops)\<rparr>"

lemma with_json_simps [simp]:
  "store (with_json s j ops) = (store s)(j \<mapsto> Json ops)"
  "with_json (with_json s j ops) j ops' = with_json s j ops'"
  "store s j = Some (Json ops) \<Longrightarrow> with_json s j ops = s"
  by (simp_all add: with_json_def fun_upd_idem)

definition appends :: "nat \<Rightarrow> unit mcmd \<Rightarrow> json_op list \<Rightarrow> bool" where
  "appends j m ops \<longleftrightarrow>
     (\<forall>s past. store s j = Some (Json past) \<longrightarrow> m s = Inr ((), with_json s j (past @ ops)))"

lemma appends_add: "appends j (zbx_json_add j x) [x]"
  by (simp add: appends_def zbx_json_add_def fetch_json_def fetch_def update_def with_json_def
      bind_c_run cmd_simps)

lemma appends_return: "appends j (return_c ()) []"
  by (simp add: appends_def cmd_simps)

lemma appends_seq: "appends j m xs \<Longrightarrow> appends j n ys \<Longrightarrow> appends j (seq_c m n) (xs @ ys)"
  by (simp add: appends_def seq_c_run)

lemma appends_for:
  "(\<And>x. x \<in> set xs \<Longrightarrow> appends j (f x) (g x)) \<Longrightarrow>
    appends j (for_c xs f) (concat (map g xs))"
  by (induction xs) (simp_all add: appends_return appends_seq)

lemma appends_field:
  assumes "PQfname r x \<noteq> None"
  shows "appends j (bind_c (lift_c (field_name E r x)) (\<lambda>buffer.
      zbx_json_add j (J_addstring buffer v))) [J_addstring (field_label E r x) v]"
  using assms appends_add [of j]
  by (auto simp: appends_def field_name_def field_label_def snprintf_def str0_def bind_c_run
      cmd_simps)

lemma appends_fields:
  assumes "\<forall>x < PQnfields r. PQfname r x \<noteq> None"
  shows "appends j (add_fields E j r i) (map (\<lambda>(n, v). J_addstring n v) (row_object E r i))"
proof -
  have "appends j (add_fields E j r i)
      (concat (map (\<lambda>x. [J_addstring (field_label E r x) (PQgetvalue r i x)]) [0..<PQnfields r]))"
    unfolding add_fields_def by (rule appends_for) (use assms in \<open>auto intro: appends_field\<close>)
  then show ?thesis by (simp add: row_object_def comp_def)
qed

lemma appends_rows:
  assumes "\<forall>x < PQnfields r. PQfname r x \<noteq> None"
  shows "appends j (add_rows E j r) (concat (map object_ops (row_objects E r)))"
proof -
  have "appends j (seq_c (zbx_json_add j J_addobject)
      (seq_c (add_fields E j r i) (zbx_json_add j J_close))) (object_ops (row_object E r i))" for i
    using appends_seq [OF appends_add appends_seq [OF appends_fields [OF assms] appends_add]]
    by (simp add: object_ops_def)
  from appends_for [OF this] show ?thesis
    by (simp add: add_rows_def row_objects_def comp_def)
qed

lemma finish_json_run:
  "store s j = Some (Json ops) \<Longrightarrow> finish_json E j s = Inr ((),
    s\<lparr>store := (store s)(j := None),
      answer := (answer s)\<lparr>res_str := Some (zbx_json_text E (ops @ [J_close]))\<rparr>\<rparr>)"
  using appends_add [of j J_close]
  by (simp add: finish_json_def appends_def with_json_def zbx_json_free_def fetch_json_def fetch_def
      release_def SET_STR_RESULT_def bind_c_run seq_c_run cmd_simps)

section \<open>What pg_get_discovery does\<close>

definition discovery_body :: "env \<Rightarrow> result_ptr \<Rightarrow> pgresult \<Rightarrow> sysinfo_ret mcmd" where
  "discovery_body E result r =
     (if PQresultStatus r \<noteq> PGRES_TUPLES_OK then
        seq_c (set_err_result E result ''PostgreSQL query error: %s''
                 [AStr (Some (PQresultErrorMessage r))])
          (return_c SYSINFO_RET_FAIL)
      else
        bind_c zbx_json_init (\<lambda>j.
        seq_c (zbx_json_add j (J_addarray ZBX_PROTO_TAG_DATA))
        (seq_c (add_rows E j r)
        (seq_c (finish_json E j)
        (return_c SYSINFO_RET_OK)))))"

lemma pg_get_discovery_session:
  "pg_get_discovery E request result query params =
     traced E ''%s(%s)'' [AStr (Some ''pg_get_discovery''), AStr (Some (req_key request))]
       (session E request result query params SYSINFO_RET_FAIL (discovery_body E result))"
  unfolding pg_get_discovery_def session_def discovery_body_def ..

definition query_error :: "pgresult \<Rightarrow> string" where
  "query_error r = ''PostgreSQL query error: '' @ PQresultErrorMessage r"

lemma query_error_format:
  "c_format ''PostgreSQL query error: %s'' [AStr (Some (PQresultErrorMessage r))]
    = Inr (query_error r)"
  by (simp add: query_error_def)

definition named_columns :: "pgresult \<Rightarrow> bool" where
  "named_columns r \<longleftrightarrow> (\<forall>x < PQnfields r. PQfname r x \<noteq> None)"

lemma complete_named: "complete_result r \<Longrightarrow> named_columns r"
  by (simp add: complete_result_def named_columns_def)

lemma document_run:
  assumes "fresh_ok s" and "named_columns r"
  shows "bind_c zbx_json_init (\<lambda>j.
      seq_c (zbx_json_add j (J_addarray ZBX_PROTO_TAG_DATA))
      (seq_c (add_rows E j r) (seq_c (finish_json E j) (return_c SYSINFO_RET_OK)))) s
    = Inr (SYSINFO_RET_OK, s\<lparr>next_id := Suc (next_id s),
        answer := (answer s)\<lparr>res_str := Some (zbx_json_text E (doc_ops (row_objects E r)))\<rparr>\<rparr>)"
proof -
  let ?j = "next_id s" and ?rows = "concat (map object_ops (row_objects E r))"
  let ?s1 = "s\<lparr>store := (store s)(?j \<mapsto> Json []), next_id := Suc ?j\<rparr>"
  have 1: "zbx_json_init s = Inr (?j, ?s1)" by (simp add: zbx_json_init_def alloc_def)
  have "appends ?j (add_rows E ?j r) ?rows"
    using assms(2) by (intro appends_rows) (simp add: named_columns_def)
  then have 2: "zbx_json_add ?j (J_addarray ZBX_PROTO_TAG_DATA) ?s1
      = Inr ((), with_json ?s1 ?j [J_addarray ZBX_PROTO_TAG_DATA])"
    "add_rows E ?j r (with_json ?s1 ?j [J_addarray ZBX_PROTO_TAG_DATA])
      = Inr ((), with_json ?s1 ?j (J_addarray ZBX_PROTO_TAG_DATA # ?rows))"
    using appends_add [of ?j] by (simp_all add: appends_def)
  have "(store s)(?j := None) = store s"
    using assms(1) by (simp add: fresh_ok_def fun_upd_idem)
  then have 3: "finish_json E ?j (with_json ?s1 ?j (J_addarray ZBX_PROTO_TAG_DATA # ?rows))
      = Inr ((), s\<lparr>next_id := Suc ?j,
          answer := (answer s)\<lparr>res_str := Some (zbx_json_text E (doc_ops (row_objects E r)))\<rparr>\<rparr>)"
    using finish_json_run [of "with_json ?s1 ?j (J_addarray ZBX_PROTO_TAG_DATA # ?rows)" ?j]
    by (simp add: with_json_def doc_ops_def ZBX_PROTO_TAG_DATA_def)
  from 1 2 3 show ?thesis by (simp add: bind_c_run seq_c_run cmd_simps)
qed

text \<open>A function name with the key of the item.\<close>

definition keyed :: "string \<Rightarrow> agent_request \<Rightarrow> string" where
  "keyed f request = f @ ''('' @ req_key request @ '')''"

definition discovery_notes :: "agent_request \<Rightarrow> string \<Rightarrow> string list \<Rightarrow> string list" where
  "discovery_notes request query xs =
     around (keyed ''pg_get_discovery'' request) (session_notes request query xs)"

lemma pg_get_discovery_served:
  assumes fresh: "fresh_ok s" and ok: "request_ok request" and p: "params_at s params xs F"
    and acc: "PQstatus (request_conn E request s) = CONNECTION_OK"
    and r: "result_view (request_result E request s query xs) = r" and named: "named_columns r"
  shows "\<exists>n \<ge> next_id s. pg_get_discovery E request result query params s =
    (if PQresultStatus r = PGRES_TUPLES_OK then
       Inr (SYSINFO_RET_OK, noted E (discovery_notes request query xs)
         (served s F n [EConnect (request_connstring request), EExec query xs, EFinish]
           ((answer s)\<lparr>res_str := Some (zbx_json_text E (doc_ops (row_objects E r)))\<rparr>)))
     else
       Inr (SYSINFO_RET_FAIL, noted E (discovery_notes request query xs)
         (served s F n ([EConnect (request_connstring request), EExec query xs] @
             err_log E (query_error r) @ [EFinish])
           (set_msg result (err_text E (query_error r)) (answer s)))))"
proof -
  let ?s = "noted E [''In '' @ keyed ''pg_get_discovery'' request] s"
  let ?s2 = "queried E request ?s F query xs"
  have n: "next_id s \<le> next_id ?s2" using queried_simps(4) [of ?s E request F query xs] by simp
  have s: "fresh_ok ?s" "params_at ?s params xs F" "PQstatus (request_conn E request ?s) = CONNECTION_OK"
    using fresh p acc by simp_all
  note plain = session_plain [where body = "discovery_body E result", OF s(1) ok s(2,3)]
  show ?thesis
  proof (cases "PQresultStatus r = PGRES_TUPLES_OK")
    case True
    have "discovery_body E result (result_view (request_result E request ?s query xs)) ?s2
      = Inr (SYSINFO_RET_OK,
        ?s2\<lparr>next_id := Suc (next_id ?s2), trace := trace ?s2,
          answer := (answer ?s2)\<lparr>res_str := Some (zbx_json_text E (doc_ops (row_objects E r)))\<rparr>\<rparr>)"
      using document_run [OF fresh_queried [OF s(1)] named] True by (simp add: discovery_body_def r)
    from plain [OF this] show ?thesis
      using True n
      by (intro exI [of _ "Suc (next_id ?s2)"])
        (simp add: pg_get_discovery_session discovery_notes_def around_def keyed_def cmd_simps
          served_def queried_simps)
  next
    case False
    have "discovery_body E result (result_view (request_result E request ?s query xs)) ?s2
      = Inr (SYSINFO_RET_FAIL,
        ?s2\<lparr>next_id := next_id ?s2, trace := trace ?s2 @ err_log E (query_error r),
          answer := set_msg result (err_text E (query_error r)) (answer ?s2)\<rparr>)"
      using set_err_result_run [OF query_error_format] False
      by (simp add: discovery_body_def seq_c_run cmd_simps r)
    from plain [OF this] show ?thesis
      using False n
      by (intro exI [of _ "next_id ?s2"])
        (simp add: pg_get_discovery_session discovery_notes_def around_def keyed_def cmd_simps
          served_def queried_simps)
  qed
qed

section \<open>What pg_get_databases does\<close>

text \<open>A multi-string: each name with its NUL, and a NUL at the end.\<close>

definition multi_bytes :: "string list \<Rightarrow> char list" where
  "multi_bytes names = concat (map (\<lambda>v. v @ [NUL]) names) @ [NUL]"

text \<open>
  A column of C strings. All of them together are far below the range of an \<open>int\<close>: a name has at
  most 63 bytes in PostgreSQL, so this holds for any list of less than eight million databases.
\<close>

definition first_column :: "pgresult \<Rightarrow> string list \<Rightarrow> bool" where
  "first_column r names \<longleftrightarrow>
     map (\<lambda>i. PQgetvalue r i 0) [0..<PQntuples r] = map Some names \<and> list_all cstring names \<and>
     length (multi_bytes names) < 2 ^ 29"

lemma length_multi_bytes:
  "length (multi_bytes names) = Suc (length (concat (map (\<lambda>v. v @ [NUL]) names)))"
  by (simp add: multi_bytes_def del: length_concat)

text \<open>A name that may become part of a connection string.\<close>

definition name_ok :: "string \<Rightarrow> bool" where
  "name_ok db \<longleftrightarrow> cstring db \<and> length db < 2 ^ 29"

lemma name_okD: "name_ok db \<Longrightarrow> cstring db"
  by (simp add: name_ok_def)

lemma first_column_names_ok: "first_column r names \<Longrightarrow> list_all name_ok names"
proof -
  have "length v \<le> length (multi_bytes names)" if "v \<in> set names" for v
    using that by (induction names) (auto simp: multi_bytes_def)
  then show "first_column r names \<Longrightarrow> list_all name_ok names"
    unfolding first_column_def list_all_iff name_ok_def by (blast intro: le_less_trans)
qed

lemma foldM_lengths:
  "map (\<lambda>i. PQgetvalue r i 0) xs = map Some names \<Longrightarrow>
    b + length (concat (map (\<lambda>v. v @ [NUL]) names)) < 2 ^ 31 \<Longrightarrow>
    foldM_f (\<lambda>i n. bind_f (non_null (PQgetvalue r i 0)) (\<lambda>v. Inr (to_int32 (n + int (length v + 1))))) xs (int b)
      = Inr (int (b + length (concat (map (\<lambda>v. v @ [NUL]) names))))"
proof (induction xs arbitrary: b names)
  case Nil
  then show ?case by simp
next
  case (Cons i xs)
  then obtain v vs where names: "names = v # vs" and v: "PQgetvalue r i 0 = Some v"
    and vs: "map (\<lambda>i. PQgetvalue r i 0) xs = map Some vs" by (auto simp: Cons_eq_map_conv)
  have len: "b + (length v + 1) + length (concat (map (\<lambda>v. v @ [NUL]) vs)) < 2 ^ 31"
    using Cons.prems(2) by (simp add: names del: length_concat)
  then have "to_int32 (int b + int (length v + 1)) = int (b + (length v + 1))"
    by (subst to_int32_small) simp_all
  then show ?case
    using Cons.IH [OF vs len] v by (simp add: names non_null_def del: length_concat)
qed

lemma fold_copy:
  assumes "map (\<lambda>i. PQgetvalue r i 0) xs = map Some names" and "list_all cstring names"
    and "store s a = Some (Bytes (pre @ replicate k NUL))"
    and "length (concat (map (\<lambda>v. v @ [NUL]) names)) < k"
  shows "\<exists>c. fold_c xs (\<lambda>i c. bind_c (strcat2_at a c (PQgetvalue r i 0)) (\<lambda>c.
      return_c (map_option Suc c))) (Some (length pre)) s = Inr (c, s\<lparr>store := (store s)(a \<mapsto>
        Bytes (pre @ concat (map (\<lambda>v. v @ [NUL]) names) @
          replicate (k - length (concat (map (\<lambda>v. v @ [NUL]) names))) NUL))\<rparr>)"
  using assms
proof (induction xs arbitrary: names s pre k)
  case Nil
  then show ?case by (simp add: cmd_simps fun_upd_idem)
next
  case (Cons i xs)
  then obtain v vs where names: "names = v # vs" and v: "PQgetvalue r i 0 = Some v" "cstring v"
    and vs: "map (\<lambda>i. PQgetvalue r i 0) xs = map Some vs" "list_all cstring vs"
    by (auto simp: Cons_eq_map_conv)
  let ?l = "length (concat (map (\<lambda>v. v @ [NUL]) vs))"
  have k: "Suc (length v) + ?l < k" using Cons.prems(4) by (simp add: names)
  then obtain m where m: "k = Suc m" "length v \<le> m" by (cases k) auto
  then have drop: "NUL # drop (length v) (replicate m NUL) = [NUL] @ replicate (k - Suc (length v)) NUL"
    by simp
  let ?s1 = "s\<lparr>store := (store s)(a \<mapsto> Bytes ((pre @ v @ [NUL]) @ replicate (k - Suc (length v)) NUL))\<rparr>"
  have step: "strcat2_at a (Some (length pre)) (Some v) s = Inr (Some (length pre + length v), ?s1)"
    using strcat2_at_run [of s a pre "[]" "replicate m NUL" v] Cons.prems(3) m v drop by simp
  have st: "store ?s1 a = Some (Bytes ((pre @ v @ [NUL]) @ replicate (k - Suc (length v)) NUL))"
    by simp
  have lt: "?l < k - Suc (length v)" using k by linarith
  from Cons.IH [OF vs st lt] obtain c where
    "fold_c xs (\<lambda>i c. bind_c (strcat2_at a c (PQgetvalue r i 0)) (\<lambda>c.
      return_c (map_option Suc c))) (Some (length (pre @ v @ [NUL]))) ?s1 = Inr (c,
        ?s1\<lparr>store := (store ?s1)(a \<mapsto> Bytes ((pre @ v @ [NUL]) @ concat (map (\<lambda>v. v @ [NUL]) vs) @
          replicate (k - Suc (length v) - ?l) NUL))\<rparr>)"
    by blast
  moreover have "bind_c (strcat2_at a (Some (length pre)) (PQgetvalue r i 0)) (\<lambda>c.
      return_c (map_option Suc c)) s = Inr (Some (length (pre @ v @ [NUL])), ?s1)"
    using step v by (simp add: bind_c_Inr cmd_simps)
  moreover have "?s1\<lparr>store := (store ?s1)(a \<mapsto> Bytes ((pre @ v @ [NUL]) @
        concat (map (\<lambda>v. v @ [NUL]) vs) @ replicate (k - Suc (length v) - ?l) NUL))\<rparr>
      = s\<lparr>store := (store s)(a \<mapsto> Bytes (pre @ concat (map (\<lambda>v. v @ [NUL]) names) @
        replicate (k - length (concat (map (\<lambda>v. v @ [NUL]) names))) NUL))\<rparr>"
    by (simp add: names)
  ultimately show ?case
    unfolding fold_c.simps by (intro exI [of _ c]) (simp only: bind_c_Inr)
qed

lemma multi_string_run:
  assumes "first_column r names"
  shows "multi_string r s = Inr (next_id s,
    s\<lparr>store := (store s)(next_id s \<mapsto> Bytes (multi_bytes names)), next_id := Suc (next_id s)\<rparr>)"
proof -
  let ?l = "length (concat (map (\<lambda>v. v @ [NUL]) names))"
  let ?s1 = "s\<lparr>store := (store s)(next_id s \<mapsto> Bytes (replicate (1 + ?l) NUL)),
    next_id := Suc (next_id s)\<rparr>"
  have col: "map (\<lambda>i. PQgetvalue r i 0) [0..<PQntuples r] = map Some names" "list_all cstring names"
    and size: "1 + ?l < 2 ^ 31"
    using assms by (simp_all add: first_column_def length_multi_bytes del: length_concat)
  have "store ?s1 (next_id s) = Some (Bytes ([] @ replicate (1 + ?l) NUL))" by simp
  note copy = fold_copy [OF col this]
  have "malloc_cleared (int (1 + ?l)) s = Inr (next_id s, ?s1)"
    unfolding malloc_cleared_def alloc_def by (simp only: nat_int of_nat_less_0_iff if_False)
  then show ?thesis using foldM_lengths [OF col(1) size] copy
    by (auto simp: multi_string_def multi_bytes_def bind_c_run cmd_simps simp del: length_concat)
qed

definition databases_body :: "env \<Rightarrow> result_ptr \<Rightarrow> pgresult \<Rightarrow> nat option mcmd" where
  "databases_body E result r =
     (if PQntuples r = 0 then
        seq_c (set_err_result E result
                 ''Failed to enumerate connectable PostgreSQL databases'' [])
          (return_c None)
      else bind_c (multi_string r) (\<lambda>databases. return_c (Some databases)))"

lemma pg_get_databases_session:
  "pg_get_databases E request result =
     traced E ''%s'' [AStr (Some ''pg_get_databases'')]
       (session E request result DATABASES_QUERY None None (databases_body E result))"
  unfolding pg_get_databases_def session_def databases_body_def ..

lemma params_at_None: "params_at s None [] {}"
  by (simp add: params_at_def)

definition databases_notes :: "agent_request \<Rightarrow> string list" where
  "databases_notes request = around ''pg_get_databases'' (session_notes request DATABASES_QUERY [])"

text \<open>When there are rows, one new object holds the names and nothing else is left behind.\<close>

lemma pg_get_databases_served:
  assumes fresh: "fresh_ok s" and ok: "request_ok request"
    and acc: "PQstatus (request_conn E request s) = CONNECTION_OK"
    and r: "result_view (request_result E request s DATABASES_QUERY []) = r"
    and rows: "PQntuples r \<noteq> 0" and names: "first_column r names"
  shows "\<exists>d \<ge> next_id s. pg_get_databases E request result s = Inr (Some d,
    noted E (databases_notes request) (s\<lparr>store := (store s)(d \<mapsto> Bytes (multi_bytes names)), next_id := Suc d,
      trace := trace s @ [EConnect (request_connstring request), EExec DATABASES_QUERY [], EFinish]\<rparr>))"
proof -
  let ?s = "noted E [''In pg_get_databases''] s"
  let ?s2 = "queried E request ?s {} DATABASES_QUERY []" and ?d = "next_id (queried E request ?s {} DATABASES_QUERY [])"
  have s: "fresh_ok ?s" "PQstatus (request_conn E request ?s) = CONNECTION_OK" using fresh acc by simp_all
  let ?t = "?s2\<lparr>store := (store ?s2)(?d \<mapsto> Bytes (multi_bytes names)), next_id := Suc ?d\<rparr>"
  have body: "databases_body E result (result_view (request_result E request ?s DATABASES_QUERY [])) ?s2
      = Inr (Some ?d, ?t)"
    using multi_string_run [OF names] rows by (simp add: databases_body_def r bind_c_run cmd_simps)
  have le: "next_id s < ?d" using queried_simps(4) [of ?s E request "{}" DATABASES_QUERY "[]"] by simp
  have frame: "store ?t a = store ?s2 a" if "a < ?d" for a using that by simp
  have none: "store s a = None" "store ?s2 a = None" if "\<not> a < ?d" for a
    using that fresh fresh_queried [OF s(1), of E request "{}" DATABASES_QUERY "[]"] le
    by (auto simp: fresh_ok_def)
  have st: "(\<lambda>a. if a < ?d then (store ?s |` (- {})) a else store ?t a)
      = (store s)(?d \<mapsto> Bytes (multi_bytes names))"
    using none by (auto simp: fun_eq_iff restrict_map_def)
  have eq: "?t\<lparr>store := m, trace := tr\<rparr> = noted E (session_notes request DATABASES_QUERY [])
      (?s\<lparr>store := m, next_id := Suc ?d, trace := tr\<rparr>)" for m tr
    by (simp add: queried_def exec_state_def connected_def Let_def)
  have "trace ?t = trace s @ [EConnect (request_connstring request), EExec DATABASES_QUERY []]"
    by (simp add: queried_simps)
  then show ?thesis
    using session_served [where body = "databases_body E result", OF s(1) ok params_at_None s(2) body frame, unfolded st eq]
      less_imp_le [OF le]
    by (intro exI [of _ ?d])
      (simp add: pg_get_databases_session databases_notes_def around_def cmd_simps)
qed

section \<open>What pg_get_discovery_wide does\<close>

text \<open>The connection string, connection and result of one database, after the events of the past.\<close>

definition db_connstring :: "agent_request \<Rightarrow> string \<Rightarrow> string" where
  "db_connstring request db = connstring_spec (get_rparam request PARAM_CONN_STRING) (Some db)"

definition db_conn :: "env \<Rightarrow> agent_request \<Rightarrow> event list \<Rightarrow> string \<Rightarrow> pgconn" where
  "db_conn E request past db = PQconnectdb E past (db_connstring request db)"

definition db_result :: "env \<Rightarrow> agent_request \<Rightarrow> string \<Rightarrow> event list \<Rightarrow> string \<Rightarrow> pgresult" where
  "db_result E request query past db =
     result_view (PQexecParams E (past @ [EConnect (db_connstring request db)])
       (db_conn E request past db) query [])"

definition db_events :: "agent_request \<Rightarrow> string \<Rightarrow> string \<Rightarrow> event list" where
  "db_events request query db = [EConnect (db_connstring request db), EExec query [], EFinish]"

text \<open>The results of all databases, one after the other.\<close>

fun db_results :: "env \<Rightarrow> agent_request \<Rightarrow> string \<Rightarrow> event list \<Rightarrow> string list \<Rightarrow> pgresult list" where
  "db_results E request query past [] = []"
| "db_results E request query past (db # dbs) =
     db_result E request query past db #
     db_results E request query (past @ db_events request query db) dbs"

text \<open>Every database accepts the connection and answers the query.\<close>

fun all_served :: "env \<Rightarrow> agent_request \<Rightarrow> string \<Rightarrow> event list \<Rightarrow> string list \<Rightarrow> bool" where
  "all_served E request query past [] = True"
| "all_served E request query past (db # dbs) =
     (PQstatus (db_conn E request past db) = CONNECTION_OK \<and>
      PQresultStatus (db_result E request query past db) = PGRES_TUPLES_OK \<and>
      named_columns (db_result E request query past db) \<and>
      all_served E request query (past @ db_events request query db) dbs)"

text \<open>A state that differs from another in the document, the trace and the identifiers used.\<close>

definition doc_state :: "cstate \<Rightarrow> nat \<Rightarrow> json_op list \<Rightarrow> nat \<Rightarrow> event list \<Rightarrow> cstate" where
  "doc_state s j ops n es =
     s\<lparr>store := (store s)(j \<mapsto> Json ops), next_id := n, trace := trace s @ es\<rparr>"

lemma doc_state_noted [simp]: "doc_state (noted E ms s) j ops n es = noted E ms (doc_state s j ops n es)"
  by (simp add: doc_state_def)

text \<open>The debug messages of one database.\<close>

definition db_notes :: "agent_request \<Rightarrow> string \<Rightarrow> string \<Rightarrow> string list" where
  "db_notes request query db = connect_notes (db_connstring request db) @ exec_notes query []"

lemma doc_state_twice:
  "doc_state (doc_state s j ops n es) j ops' n' es' = doc_state s j ops' n' (es @ es')"
  by (simp add: doc_state_def)

lemma db_connstring_text:
  assumes "request_ok request" and "name_ok db"
  shows "\<exists>b. build_connstring (get_rparam request PARAM_CONN_STRING) (Some db) s
    = Inr (next_id s, s\<lparr>store := (store s)(next_id s \<mapsto> Bytes b), next_id := Suc (next_id s)\<rparr>)
    \<and> c_str b 0 = Inr (db_connstring request db)"
proof -
  have ok: "cstring_ptr (get_rparam request PARAM_CONN_STRING)" "cstring_ptr (Some db)"
    using assms by (simp_all add: request_ok_def cstring_ptr_def name_ok_def)
  have "strlen0 (get_rparam request PARAM_CONN_STRING) < 2 ^ 29" "length db < 2 ^ 29"
    using assms by (simp_all add: request_ok_def name_ok_def)
  then have size: "strlen0 (get_rparam request PARAM_CONN_STRING) + strlen0 (Some db) + 9 < 2 ^ 31"
    by (simp add: strlen0_def)
  obtain k where "build_connstring (get_rparam request PARAM_CONN_STRING) (Some db) s
    = Inr (next_id s, s\<lparr>store := (store s)(next_id s \<mapsto>
        text_buffer (db_connstring request db) k), next_id := Suc (next_id s)\<rparr>)"
    using build_connstring_run [OF ok size] unfolding db_connstring_def by blast
  moreover have "cstring (db_connstring request db)"
    using ok by (auto simp: db_connstring_def connstring_spec_def cstring_ptr_def strisnull_def
        split: option.splits)
  then have "c_str (db_connstring request db @ NUL # replicate k NUL) 0
      = Inr (db_connstring request db)"
    using c_str_run [of _ "[]"] by simp
  ultimately show ?thesis by (auto simp: text_buffer_def)
qed

text \<open>One round on a database that answers: its rows are added, nothing else stays.\<close>

lemma wide_round_served:
  assumes fresh: "fresh_ok s" and ok: "request_ok request" and db: "name_ok db"
    and j: "store s j = Some (Json ops)"
    and acc: "PQstatus (db_conn E request (trace s) db) = CONNECTION_OK"
    and r: "db_result E request query (trace s) db = r"
    and status: "PQresultStatus r = PGRES_TUPLES_OK" and named: "named_columns r"
  shows "\<exists>n \<ge> next_id s. wide_round E request result query None j db s =
    Inr (None, noted E (db_notes request query db)
      (doc_state s j (ops @ concat (map object_ops (row_objects E r))) n (db_events request query db)))"
proof -
  let ?a = "next_id s" and ?cs = "db_connstring request db" and ?conn = "db_conn E request (trace s) db"
  obtain b where b: "build_connstring (get_rparam request PARAM_CONN_STRING) (Some db) s
      = Inr (?a, s\<lparr>store := (store s)(?a \<mapsto> Bytes b), next_id := Suc ?a\<rparr>)"
    and rd: "c_str b 0 = Inr ?cs"
    using db_connstring_text [OF ok db] by blast
  let ?s1 = "s\<lparr>store := (store s)(?a \<mapsto> Bytes b), next_id := Suc ?a\<rparr>"
  let ?s2 = "s\<lparr>store := (store s)(?a \<mapsto> Bytes b, Suc ?a \<mapsto> Conn ?conn), next_id := Suc (Suc ?a),
    trace := trace s @ [EConnect ?cs]\<rparr>"
  let ?ro = "PQexecParams E (trace s @ [EConnect ?cs]) ?conn query []"
  let ?n2 = "noted E (connect_notes ?cs)" and ?n3 = "noted E (db_notes request query db)"
  let ?s3 = "exec_state ?s2 {} query [] ?ro"
  let ?res = "map_option (\<lambda>_. Suc (Suc ?a)) ?ro"
  have view_r: "result_view ?ro = r" using r by (simp add: db_result_def)
  have read: "c_str_at ?a ?s1 = Inr (?cs, ?s1)"
    using rd by (simp add: c_str_at_def fetch_bytes_def fetch_def bind_c_run cmd_simps)
  have conn: "pg_connect E ?cs result ?s1 = Inr (Some (Suc ?a), ?n2 ?s2)"
    using pg_connect_accepted [of E ?s1 ?cs result] acc by (simp add: db_conn_def)
  have "fresh_ok (?n2 ?s2)" using fresh by (auto simp: fresh_ok_def)
  from pg_exec_run [OF this params_at_None _ refl, of "Suc ?a" ?conn E query]
  have exec: "pg_exec E (Suc ?a) query None (?n2 ?s2) = Inr (?res, ?n3 ?s3)"
    by (simp add: db_notes_def)
  have view: "view_result ?res (?n3 ?s3) = Inr (r, ?n3 ?s3)"
    using view_r by (cases ?ro) (simp_all add: view_result_def result_view_def fetch_res_def
        fetch_def exec_state_def Let_def bind_c_run cmd_simps)
  have free: "store s (?a + i) = None" for i using fresh by (simp add: fresh_ok_def)
  have ne: "j \<noteq> ?a" "j \<noteq> Suc ?a" "j \<noteq> Suc (Suc ?a)"
    using j free [of 0] free [of 1] free [of 2] by auto
  have j3: "store (?n3 ?s3) j = Some (Json ops)"
    using j ne by (simp add: exec_state_def Let_def split: option.split)
  let ?ops = "ops @ concat (map object_ops (row_objects E r))"
  have rows: "add_rows E j r (?n3 ?s3) = Inr ((), with_json (?n3 ?s3) j ?ops)"
    using appends_rows [of r j E] named j3 by (simp add: appends_def named_columns_def)
  have rel: "seq_c (zbx_free (Some ?a)) (seq_c (PQclear ?res) (seq_c (PQfinish (Some (Suc ?a)))
      (return_c None))) (with_json (?n3 ?s3) j ?ops)
    = Inr (None, ?n3 (doc_state s j ?ops (next_id ?s3) (db_events request query db)))"
    using ne free [of 0] free [of 1] free [of 2]
    by (cases ?ro) (auto simp: PQclear_def PQfinish_def zbx_free_def fetch_conn_def fetch_res_def
        fetch_def release_def log_event_def exec_state_def Let_def with_json_def doc_state_def
        db_events_def bind_c_run seq_c_run cmd_simps fun_eq_iff restrict_map_def
        intro!: cstate.equality)
  have "next_id s \<le> next_id ?s3" by (simp add: exec_state_def Let_def split: option.split)
  then show ?thesis
    using status rel
    by (intro exI [of _ "next_id ?s3"])
      (simp add: wide_round_def b read conn exec view bind_c_Inr
        seq_c_Inr [where m = "add_rows E j r", OF rows])
qed

lemma fresh_doc_state:
  assumes "fresh_ok s" and "store s j \<noteq> None" and "next_id s \<le> n"
  shows "fresh_ok (doc_state s j ops n es)"
proof -
  have "j < next_id s" using assms(1,2) by (force simp: fresh_ok_def not_le [symmetric])
  then show ?thesis using assms(1,3) by (auto simp: fresh_ok_def doc_state_def)
qed

lemma c_str_multi:
  "cstring db \<Longrightarrow> c_str (pre @ multi_bytes (db # dbs)) (length pre) = Inr db"
  using c_str_run [of db pre "multi_bytes dbs"] by (simp add: multi_bytes_def)

lemma multi_bytes_head:
  "length pre < length (pre @ multi_bytes names)"
  "(pre @ multi_bytes []) ! length pre = NUL"
  "db \<noteq> [] \<Longrightarrow> cstring db \<Longrightarrow> (pre @ multi_bytes (db # dbs)) ! length pre \<noteq> NUL"
  by (auto simp: multi_bytes_def nth_append cstring_def neq_Nil_conv)

text \<open>The loop up to the end of a part of the list all of which answers.\<close>

lemma wide_loop_prefix:
  assumes "fresh_ok s" and ok: "request_ok request"
    and "list_all (\<lambda>db. db \<noteq> [] \<and> name_ok db) dbs"
    and "store s j = Some (Json ops)" and "all_served E request query (trace s) dbs"
  shows "\<exists>n \<ge> next_id s. wide_loop E request result query None j (pre @ multi_bytes (dbs @ rest)) (length pre) s
    = wide_loop E request result query None j ((pre @ concat (map (\<lambda>v. v @ [NUL]) dbs)) @ multi_bytes rest)
        (length (pre @ concat (map (\<lambda>v. v @ [NUL]) dbs)))
        (noted E (concat (map (db_notes request query) dbs)) (doc_state s j
        (ops @ concat (map object_ops (concat (map (row_objects E)
          (db_results E request query (trace s) dbs))))) n
        (concat (map (db_events request query) dbs))))"
  using assms(1,3-5)
proof (induction dbs arbitrary: pre s ops)
  case Nil
  have "store s = (store s)(j \<mapsto> Json ops)" using Nil.prems(3) by (simp add: fun_upd_idem)
  then show ?case by (intro exI [of _ "next_id s"]) (simp add: doc_state_def)
next
  case (Cons db dbs)
  let ?r = "db_result E request query (trace s) db" and ?ev = "db_events request query db"
  let ?ops = "ops @ concat (map object_ops (row_objects E ?r))"
  have db: "db \<noteq> []" "name_ok db" "cstring db"
    and acc: "PQstatus (db_conn E request (trace s) db) = CONNECTION_OK"
    and st: "PQresultStatus ?r = PGRES_TUPLES_OK" and nm: "named_columns ?r"
    and more: "all_served E request query (trace s @ ?ev) dbs"
    using Cons.prems(2,4) name_okD by auto
  obtain n where n: "next_id s \<le> n"
    and round: "wide_round E request result query None j db s = Inr (None, noted E (db_notes request query db)
        (doc_state s j ?ops n ?ev))"
    using wide_round_served [OF Cons.prems(1) ok db(2) Cons.prems(3) acc refl st nm] by blast
  let ?s1 = "noted E (db_notes request query db) (doc_state s j ?ops n ?ev)"
  have s1: "trace ?s1 = trace s @ ?ev" "store ?s1 j = Some (Json ?ops)" "next_id ?s1 = n"
    by (simp_all add: doc_state_def)
  have fresh1: "fresh_ok ?s1"
    using fresh_doc_state [OF Cons.prems(1) _ n] Cons.prems(3) by simp
  have bytes: "(pre @ db @ [NUL]) @ multi_bytes (dbs @ rest) = pre @ multi_bytes ((db # dbs) @ rest)"
    by (simp add: multi_bytes_def)
  have "wide_loop E request result query None j (pre @ multi_bytes ((db # dbs) @ rest)) (length pre) s
      = wide_loop E request result query None j ((pre @ db @ [NUL]) @ multi_bytes (dbs @ rest))
          (length (pre @ db @ [NUL])) ?s1"
    unfolding bytes
    using multi_bytes_head(1) [of pre "(db # dbs) @ rest"] multi_bytes_head(3) [OF db(1,3), of pre "dbs @ rest"]
      c_str_multi [OF db(3), of pre "dbs @ rest"]
    by (subst wide_loop.simps) (simp add: round bind_c_Inr cmd_simps)
  moreover have "list_all (\<lambda>db. db \<noteq> [] \<and> name_ok db) dbs" using Cons.prems(2) by simp
  note IH = Cons.IH [OF fresh1 this s1(2), of "pre @ db @ [NUL]", unfolded s1, OF more]
  ultimately show ?case
    using IH n by (auto simp: doc_state_twice intro: order_trans simp del: length_append)
qed

lemma wide_loop_end:
  "wide_loop E request result query params j (pre @ multi_bytes []) (length pre) s = Inr (None, s)"
  using multi_bytes_head(1) [of pre "[]"]
  by (simp add: wide_loop.simps [of _ _ _ _ _ _ _ "length pre"] multi_bytes_head(2) cmd_simps)

lemma wide_loop_served:
  assumes "fresh_ok s" and "request_ok request"
    and "list_all (\<lambda>db. db \<noteq> [] \<and> name_ok db) dbs"
    and "store s j = Some (Json ops)" and "all_served E request query (trace s) dbs"
  shows "\<exists>n \<ge> next_id s. wide_loop E request result query None j (pre @ multi_bytes dbs) (length pre) s
    = Inr (None, noted E (concat (map (db_notes request query) dbs)) (doc_state s j
        (ops @ concat (map object_ops (concat (map (row_objects E)
          (db_results E request query (trace s) dbs))))) n
        (concat (map (db_events request query) dbs))))"
  using wide_loop_prefix [OF assms, where result = result and pre = pre and rest = "[]"]
  unfolding wide_loop_end append_Nil2 .

text \<open>The whole function when every database answers.\<close>

definition wide_objects :: "env \<Rightarrow> agent_request \<Rightarrow> string \<Rightarrow> event list \<Rightarrow> string list \<Rightarrow> json_object list" where
  "wide_objects E request query past dbs =
     concat (map (row_objects E) (db_results E request query past dbs))"

definition list_events :: "agent_request \<Rightarrow> event list" where
  "list_events request = [EConnect (request_connstring request), EExec DATABASES_QUERY [], EFinish]"

text \<open>The debug messages of the whole function, where \<open>ms\<close> are those of the databases.\<close>

definition wide_notes :: "agent_request \<Rightarrow> string list \<Rightarrow> string list" where
  "wide_notes request ms = around (keyed ''pg_get_discovery_wide'' request) (databases_notes request @ ms)"

lemma pg_get_discovery_wide_served:
  assumes fresh: "fresh_ok s" and ok: "request_ok request"
    and acc: "PQstatus (request_conn E request s) = CONNECTION_OK"
    and r: "result_view (request_result E request s DATABASES_QUERY []) = r"
    and names: "first_column r dbs" and some: "dbs \<noteq> []" "[] \<notin> set dbs"
    and served: "all_served E request query (trace s @ list_events request) dbs"
  shows "\<exists>n \<ge> next_id s. pg_get_discovery_wide E request result query None s =
    Inr (SYSINFO_RET_OK, noted E (wide_notes request (concat (map (db_notes request query) dbs)))
      (s\<lparr>next_id := n,
        trace := trace s @ list_events request @ concat (map (db_events request query) dbs),
        answer := (answer s)\<lparr>res_str := Some (zbx_json_text E
          (doc_ops (wide_objects E request query (trace s @ list_events request) dbs)))\<rparr>\<rparr>))"
proof -
  let ?ev = "concat (map (db_events request query) dbs)"
  have len: "length dbs = PQntuples r"
    using names [unfolded first_column_def] by (metis diff_zero length_map length_upt)
  then have rows: "PQntuples r \<noteq> 0" using some(1) by (metis length_0_conv)
  let ?in = "''In '' @ keyed ''pg_get_discovery_wide'' request" and ?db = "concat (map (db_notes request query) dbs)"
  let ?s0 = "noted E [?in] s" and ?n1 = "noted E (?in # databases_notes request)"
  have s0: "fresh_ok ?s0" "PQstatus (request_conn E request ?s0) = CONNECTION_OK"
    "result_view (request_result E request ?s0 DATABASES_QUERY []) = r" using fresh acc r by simp_all
  obtain d where d: "next_id s \<le> d" and dbs: "pg_get_databases E request result ?s0 = Inr (Some d,
      ?n1 (s\<lparr>store := (store s)(d \<mapsto> Bytes (multi_bytes dbs)), next_id := Suc d,
        trace := trace s @ list_events request\<rparr>))"
    using pg_get_databases_served [OF s0(1) ok s0(2,3) rows names] unfolding list_events_def by auto
  let ?s1 = "?n1 (s\<lparr>store := (store s)(d \<mapsto> Bytes (multi_bytes dbs)), next_id := Suc d,
        trace := trace s @ list_events request\<rparr>)"
  let ?s2 = "?s1\<lparr>store := (store ?s1)(Suc d \<mapsto> Json []), next_id := Suc (Suc d)\<rparr>"
  let ?s3 = "?s1\<lparr>store := (store ?s1)(Suc d \<mapsto> Json [J_addarray ''data'']), next_id := Suc (Suc d)\<rparr>"
  have free: "store s d = None" "store s (Suc d) = None" using fresh d by (simp_all add: fresh_ok_def)
  have init: "zbx_json_init ?s1 = Inr (Suc d, ?s2)" by (simp add: zbx_json_init_def alloc_def)
  have array: "zbx_json_add (Suc d) (J_addarray ZBX_PROTO_TAG_DATA) ?s2 = Inr ((), ?s3)"
    by (simp add: zbx_json_add_def fetch_json_def fetch_def update_def ZBX_PROTO_TAG_DATA_def
        bind_c_run cmd_simps)
  have bytes: "fetch_bytes d ?s3 = Inr (multi_bytes dbs, ?s3)"
    by (simp add: fetch_bytes_def fetch_def bind_c_run cmd_simps)
  have "fresh_ok ?s3" using fresh d by (auto simp: fresh_ok_def)
  moreover have "list_all (\<lambda>db. db \<noteq> [] \<and> name_ok db) dbs"
    using first_column_names_ok [OF names] some(2) by (auto simp: list_all_iff)
  moreover have "store ?s3 (Suc d) = Some (Json [J_addarray ''data''])" by simp
  moreover have "all_served E request query (trace ?s3) dbs" using served by simp
  ultimately obtain n where n: "Suc (Suc d) \<le> n"
    and loop: "wide_loop E request result query None (Suc d) (multi_bytes dbs) 0 ?s3 = Inr (None, noted E ?db
      (doc_state ?s3 (Suc d) (J_addarray ''data'' # concat (map object_ops
        (wide_objects E request query (trace s @ list_events request) dbs))) n ?ev))"
    using wide_loop_served [of ?s3 request dbs "Suc d" "[J_addarray ''data'']" E query result "[]"] ok
    unfolding wide_objects_def by auto
  let ?s4 = "noted E ?db (doc_state ?s3 (Suc d) (J_addarray ''data'' # concat (map object_ops
        (wide_objects E request query (trace s @ list_events request) dbs))) n ?ev)"
  have "finish_json E (Suc d) ?s4 = Inr ((), ?s4\<lparr>store := (store ?s4)(Suc d := None),
      answer := (answer ?s4)\<lparr>res_str := Some (zbx_json_text E
        (doc_ops (wide_objects E request query (trace s @ list_events request) dbs)))\<rparr>\<rparr>)"
    using finish_json_run [of ?s4 "Suc d"] by (simp add: doc_state_def doc_ops_def)
  moreover have "(store s)(d := None) = store s" "(store s)(Suc d := None) = store s"
    using free by (simp_all add: fun_upd_idem)
  ultimately have "seq_c (finish_json E (Suc d)) (seq_c (zbx_free (Some d)) (return_c SYSINFO_RET_OK)) ?s4
      = Inr (SYSINFO_RET_OK, noted E (?in # databases_notes request @ ?db)
      (s\<lparr>next_id := n, trace := trace s @ list_events request @ ?ev,
      answer := (answer s)\<lparr>res_str := Some (zbx_json_text E
        (doc_ops (wide_objects E request query (trace s @ list_events request) dbs)))\<rparr>\<rparr>))"
    by (simp add: seq_c_run cmd_simps zbx_free_def release_def doc_state_def fun_upd_twist)
  then show ?thesis
    using d n init array bytes loop by (intro exI [of _ n])
      (simp add: pg_get_discovery_wide_def keyed_def wide_notes_def around_def cmd_simps
        dbs [unfolded keyed_def append.simps append_assoc] bind_c_Inr
        seq_c_Inr [where m = "zbx_json_add (Suc d) (J_addarray ZBX_PROTO_TAG_DATA)"])
qed

text \<open>A round whose query fails ends with the connection open and the result allocated.\<close>

lemma wide_round_failed:
  assumes fresh: "fresh_ok s" and ok: "request_ok request" and db: "name_ok db"
    and acc: "PQstatus (db_conn E request (trace s) db) = CONNECTION_OK"
    and ro: "PQexecParams E (trace s @ [EConnect (db_connstring request db)])
      (db_conn E request (trace s) db) query [] = ro"
    and r: "result_view ro = r" and status: "PQresultStatus r \<noteq> PGRES_TUPLES_OK"
  shows "\<exists>b. wide_round E request result query None j db s =
    Inr (Some (Some (next_id s), Some (Suc (next_id s))), noted E (db_notes request query db)
      (s\<lparr>store := (let m = (store s)(next_id s \<mapsto> Bytes b,
            Suc (next_id s) \<mapsto> Conn (db_conn E request (trace s) db)) in
          case ro of None \<Rightarrow> m | Some r \<Rightarrow> m(Suc (Suc (next_id s)) \<mapsto> Res r)),
        next_id := (case ro of None \<Rightarrow> Suc (Suc (next_id s)) | Some r \<Rightarrow> Suc (Suc (Suc (next_id s)))),
        trace := trace s @ [EConnect (db_connstring request db), EExec query []] @ err_log E (query_error r),
        answer := set_msg result (err_text E (query_error r)) (answer s)\<rparr>))"
proof -
  let ?n2 = "noted E (connect_notes (db_connstring request db))" and ?n3 = "noted E (db_notes request query db)"
  let ?a = "next_id s" and ?cs = "db_connstring request db" and ?conn = "db_conn E request (trace s) db"
  obtain b where b: "build_connstring (get_rparam request PARAM_CONN_STRING) (Some db) s
      = Inr (?a, s\<lparr>store := (store s)(?a \<mapsto> Bytes b), next_id := Suc ?a\<rparr>)"
    and rd: "c_str b 0 = Inr ?cs"
    using db_connstring_text [OF ok db] by blast
  let ?s1 = "s\<lparr>store := (store s)(?a \<mapsto> Bytes b), next_id := Suc ?a\<rparr>"
  let ?s2 = "s\<lparr>store := (store s)(?a \<mapsto> Bytes b, Suc ?a \<mapsto> Conn ?conn), next_id := Suc (Suc ?a),
    trace := trace s @ [EConnect ?cs]\<rparr>"
  let ?s3 = "exec_state ?s2 {} query [] ro" and ?res = "map_option (\<lambda>_. Suc (Suc ?a)) ro"
  have read: "c_str_at ?a ?s1 = Inr (?cs, ?s1)"
    using rd by (simp add: c_str_at_def fetch_bytes_def fetch_def bind_c_run cmd_simps)
  have conn: "pg_connect E ?cs result ?s1 = Inr (Some (Suc ?a), ?n2 ?s2)"
    using pg_connect_accepted [of E ?s1 ?cs result] acc by (simp add: db_conn_def)
  have "fresh_ok (?n2 ?s2)" using fresh by (auto simp: fresh_ok_def)
  from pg_exec_run [OF this params_at_None _ refl, of "Suc ?a" ?conn E query]
  have exec: "pg_exec E (Suc ?a) query None (?n2 ?s2) = Inr (?res, ?n3 ?s3)"
    using ro by (simp add: db_notes_def)
  have view: "view_result ?res (?n3 ?s3) = Inr (r, ?n3 ?s3)"
    using r by (cases ro) (auto simp: view_result_def fetch_res_def fetch_def exec_state_def Let_def
        result_view_def bind_c_run cmd_simps)
  have "seq_c (set_err_result E result ''PostgreSQL query error: %s''
      [AStr (Some (PQresultErrorMessage r))]) (return_c (Some (Some ?a, Some (Suc ?a)))) (?n3 ?s3)
    = Inr (Some (Some ?a, Some (Suc ?a)), ?n3
      (s\<lparr>store := (let m = (store s)(?a \<mapsto> Bytes b, Suc ?a \<mapsto> Conn ?conn) in
          case ro of None \<Rightarrow> m | Some r \<Rightarrow> m(Suc (Suc ?a) \<mapsto> Res r)),
        next_id := (case ro of None \<Rightarrow> Suc (Suc ?a) | Some r \<Rightarrow> Suc (Suc (Suc ?a))),
        trace := trace s @ [EConnect ?cs, EExec query []] @ err_log E (query_error r),
        answer := set_msg result (err_text E (query_error r)) (answer s)\<rparr>))"
    by (cases ro) (auto simp: set_err_result_run [OF query_error_format] seq_c_run cmd_simps
        exec_state_def Let_def restrict_map_def fun_eq_iff intro!: cstate.equality)
  then show ?thesis
    using status by (intro exI [of _ b])
      (simp add: wide_round_def b read conn exec view bind_c_Inr)
qed

text \<open>When the connection is refused, the round ends without a connection.\<close>

lemma wide_round_refused:
  assumes fresh: "fresh_ok s" and ok: "request_ok request" and db: "name_ok db"
    and ref: "PQstatus (db_conn E request (trace s) db) \<noteq> CONNECTION_OK"
  shows "\<exists>b. wide_round E request result query params j db s =
    (case c_format (PQerrorMessage (db_conn E request (trace s) db)) [] of
       Inl e \<Rightarrow> Inl e
     | Inr msg \<Rightarrow> Inr (Some (Some (next_id s), None), noted E (connect_notes (db_connstring request db))
         (s\<lparr>store := (store s)(next_id s \<mapsto> Bytes b), next_id := Suc (Suc (next_id s)),
           trace := trace s @ EConnect (db_connstring request db) # err_log E msg @ [EFinish],
           answer := set_msg result (err_text E msg) (answer s)\<rparr>)))"
proof -
  let ?a = "next_id s" and ?cs = "db_connstring request db" and ?conn = "db_conn E request (trace s) db"
  obtain b where b: "build_connstring (get_rparam request PARAM_CONN_STRING) (Some db) s
      = Inr (?a, s\<lparr>store := (store s)(?a \<mapsto> Bytes b), next_id := Suc ?a\<rparr>)"
    and rd: "c_str b 0 = Inr ?cs"
    using db_connstring_text [OF ok db] by blast
  let ?s1 = "s\<lparr>store := (store s)(?a \<mapsto> Bytes b), next_id := Suc ?a\<rparr>"
  have read: "c_str_at ?a ?s1 = Inr (?cs, ?s1)"
    using rd by (simp add: c_str_at_def fetch_bytes_def fetch_def bind_c_run cmd_simps)
  have fresh1: "fresh_ok ?s1" using fresh by (auto simp: fresh_ok_def)
  have ref1: "PQstatus (PQconnectdb E (trace ?s1) ?cs) \<noteq> CONNECTION_OK"
    using ref by (simp add: db_conn_def)
  show ?thesis
  proof (cases "c_format (PQerrorMessage ?conn) []")
    case (Inl e)
    then have "pg_connect E ?cs result ?s1 = Inl e"
      using ref by (intro pg_connect_bad_message) (simp_all add: db_conn_def)
    then show ?thesis using Inl
      by (simp add: wide_round_def b read bind_c_Inr bind_c_Inl)
  next
    case (Inr msg)
    then have "c_format (PQerrorMessage (PQconnectdb E (trace ?s1) ?cs)) [] = Inr msg"
      by (simp add: db_conn_def)
    from pg_connect_refused [OF ref1 this fresh1, of result] show ?thesis
      using Inr by (intro exI [of _ b]) (simp add: wide_round_def b read bind_c_Inr cmd_simps)
  qed
qed

text \<open>
  When the query fails in one database after others have answered, the function reports it and
  finishes the connection, but the result of the query and the document are not given back, and no
  pointer to them is left.
\<close>

lemma pg_get_discovery_wide_leaks:
  assumes fresh: "fresh_ok s" and ok: "request_ok request"
    and acc: "PQstatus (request_conn E request s) = CONNECTION_OK"
    and list: "result_view (request_result E request s DATABASES_QUERY []) = l"
    and names: "first_column l (dbs @ db # rest)" and some: "[] \<notin> set (dbs @ [db])"
    and served: "all_served E request query (trace s @ list_events request) dbs"
    and past: "past = trace s @ list_events request @ concat (map (db_events request query) dbs)"
    and acc': "PQstatus (db_conn E request past db) = CONNECTION_OK"
    and ro: "PQexecParams E (past @ [EConnect (db_connstring request db)])
      (db_conn E request past db) query [] = Some r"
    and status: "PQresultStatus r \<noteq> PGRES_TUPLES_OK"
  shows "\<exists>t. pg_get_discovery_wide E request result query None s = Inr (SYSINFO_RET_FAIL, t) \<and>
    trace t = past @ [EConnect (db_connstring request db), EExec query []] @
      err_log E (query_error r) @ [EFinish] \<and>
    (\<exists>j k. j \<noteq> k \<and> store s j = None \<and> store s k = None \<and>
      store t = (store s)(j \<mapsto> Json (J_addarray ''data'' # concat (map object_ops
        (wide_objects E request query (trace s @ list_events request) dbs))), k \<mapsto> Res r))"
proof -
  let ?dbs = "dbs @ db # rest" and ?lst = "trace s @ list_events request"
  have "length ?dbs = PQntuples l"
    using names [unfolded first_column_def] by (metis diff_zero length_map length_upt)
  then have rows: "PQntuples l \<noteq> 0" by auto
  let ?in = "''In '' @ keyed ''pg_get_discovery_wide'' request" and ?db = "concat (map (db_notes request query) dbs)"
  let ?s0 = "noted E [?in] s" and ?n1 = "noted E (?in # databases_notes request)"
  have s0: "fresh_ok ?s0" "PQstatus (request_conn E request ?s0) = CONNECTION_OK"
    "result_view (request_result E request ?s0 DATABASES_QUERY []) = l" using fresh acc list by simp_all
  obtain d where d: "next_id s \<le> d" and dbs: "pg_get_databases E request result ?s0 = Inr (Some d,
      ?n1 (s\<lparr>store := (store s)(d \<mapsto> Bytes (multi_bytes ?dbs)), next_id := Suc d, trace := ?lst\<rparr>))"
    using pg_get_databases_served [OF s0(1) ok s0(2,3) rows names] unfolding list_events_def by auto
  let ?j = "Suc d" and ?b = "multi_bytes ?dbs"
  let ?s1 = "?n1 (s\<lparr>store := (store s)(d \<mapsto> Bytes ?b), next_id := ?j, trace := ?lst\<rparr>)"
  let ?s2 = "?s1\<lparr>store := (store ?s1)(?j \<mapsto> Json []), next_id := Suc ?j\<rparr>"
  let ?s3 = "?s1\<lparr>store := (store ?s1)(?j \<mapsto> Json [J_addarray ''data'']), next_id := Suc ?j\<rparr>"
  have init: "zbx_json_init ?s1 = Inr (?j, ?s2)" by (simp add: zbx_json_init_def alloc_def)
  have array: "zbx_json_add ?j (J_addarray ZBX_PROTO_TAG_DATA) ?s2 = Inr ((), ?s3)"
    by (simp add: zbx_json_add_def fetch_json_def fetch_def update_def ZBX_PROTO_TAG_DATA_def
        bind_c_run cmd_simps)
  have bytes: "fetch_bytes d ?s3 = Inr (?b, ?s3)"
    by (simp add: fetch_bytes_def fetch_def bind_c_run cmd_simps)
  have db: "name_ok db" "cstring db" "db \<noteq> []"
    and ok_dbs: "list_all (\<lambda>db. db \<noteq> [] \<and> name_ok db) dbs"
    using first_column_names_ok [OF names] some by (auto simp: list_all_iff name_okD)
  have fresh3: "fresh_ok ?s3" using fresh d by (auto simp: fresh_ok_def)
  have js: "store ?s3 ?j = Some (Json [J_addarray ''data''])" by simp
  let ?ev = "concat (map (db_events request query) dbs)"
  let ?ops = "J_addarray ''data'' # concat (map object_ops (wide_objects E request query ?lst dbs))"
  have served3: "all_served E request query (trace ?s3) dbs" using served by simp
  obtain n where n: "Suc ?j \<le> n" and pre: "wide_loop E request result query None ?j ?b 0 ?s3 =
      wide_loop E request result query None ?j (concat (map (\<lambda>v. v @ [NUL]) dbs) @ multi_bytes (db # rest))
        (length (concat (map (\<lambda>v. v @ [NUL]) dbs))) (noted E ?db (doc_state ?s3 ?j ?ops n ?ev))"
    using wide_loop_prefix [OF fresh3 ok ok_dbs js served3, where result = result and pre = "[]" and rest = "db # rest"]
    unfolding wide_objects_def by (auto simp del: length_concat)
  let ?s4 = "noted E ?db (doc_state ?s3 ?j ?ops n ?ev)"
  have fresh4: "fresh_ok ?s4" using fresh_doc_state [OF fresh3, of ?j n ?ops ?ev] n by simp
  have past4: "trace ?s4 = past" using past by (simp add: doc_state_def)
  have next4: "next_id ?s4 = n" by (simp add: doc_state_def)
  have free: "store s d = None" "store s ?j = None" "store s (n + i) = None" for i
    using fresh d n by (simp_all add: fresh_ok_def)
  obtain b where round: "wide_round E request result query None ?j db ?s4 =
      Inr (Some (Some n, Some (Suc n)), noted E (db_notes request query db)
      (?s4\<lparr>store := (store ?s4)(n \<mapsto> Bytes b, Suc n \<mapsto> Conn (db_conn E request past db),
          Suc (Suc n) \<mapsto> Res r), next_id := Suc (Suc (Suc n)),
        trace := past @ [EConnect (db_connstring request db), EExec query []] @ err_log E (query_error r),
        answer := set_msg result (err_text E (query_error r)) (answer ?s4)\<rparr>))"
    using wide_round_failed [OF fresh4 ok db(1) _ _ _ status, of E query "Some r" result ?j] acc' ro
    unfolding past4 next4 by (auto simp: result_view_def)
  have loop: "wide_loop E request result query None ?j ?b 0 ?s3 =
      wide_round E request result query None ?j db ?s4"
    unfolding pre
    using multi_bytes_head(1) [of _ "db # rest"] multi_bytes_head(3) [OF db(3,2), of _ rest]
      c_str_multi [OF db(2), of _ rest] round
    by (subst wide_loop.simps) (simp add: bind_c_Inr cmd_simps del: length_concat)
  let ?t = "(store s)(?j \<mapsto> Json ?ops, Suc (Suc n) \<mapsto> Res r)"
  let ?n3 = "noted E (?in # databases_notes request @ ?db @ db_notes request query db)"
  let ?out = "s\<lparr>store := ?t, next_id := Suc (Suc (Suc n)), trace :=
      past @ [EConnect (db_connstring request db), EExec query []] @ err_log E (query_error r) @ [EFinish],
    answer := set_msg result (err_text E (query_error r)) (answer s)\<rparr>"
  have tail: "seq_c (zbx_free (Some n)) (seq_c (zbx_free (Some d))
      (seq_c (PQfinish (Some (Suc n))) (return_c SYSINFO_RET_FAIL)))
      (?n3 (s\<lparr>store := (store s)(d \<mapsto> Bytes ?b, ?j \<mapsto> Json ?ops, n \<mapsto> Bytes b,
          Suc n \<mapsto> Conn (db_conn E request past db), Suc (Suc n) \<mapsto> Res r),
        next_id := Suc (Suc (Suc n)),
        trace := past @ [EConnect (db_connstring request db), EExec query []] @ err_log E (query_error r),
        answer := set_msg result (err_text E (query_error r)) (answer s)\<rparr>))
    = Inr (SYSINFO_RET_FAIL, ?n3 ?out)"
    using free(1,2) free(3) [of 0] free(3) [of 1] n
    by (auto simp: zbx_free_def release_def PQfinish_def fetch_conn_def fetch_def log_event_def
        seq_c_run bind_c_run cmd_simps fun_eq_iff intro!: cstate.equality)
  let ?final = "noted E (wide_notes request (?db @ db_notes request query db)) ?out"
  have "pg_get_discovery_wide E request result query None s = Inr (SYSINFO_RET_FAIL, ?final)"
    using init array bytes loop round tail
    by (simp add: pg_get_discovery_wide_def keyed_def wide_notes_def around_def cmd_simps doc_state_def
        dbs [unfolded keyed_def append.simps append_assoc] bind_c_Inr
        seq_c_Inr [where m = "zbx_json_add (Suc d) (J_addarray ZBX_PROTO_TAG_DATA)"])
  then show ?thesis
    using free(2) free(3) [of 2] n
    by (intro exI [of _ ?final] conjI exI [of _ ?j] exI [of _ "Suc (Suc n)"]) simp_all
qed

end
