(* ===== verification/Refine.thy ===== *)
theory Refine
  imports Discovery
begin

text \<open>
  An abstract specification of the item functions, and what it means that a function of the code
  implements it. The specification knows neither the heap nor handles: its state is the sequence of
  the calls that can be seen from outside and the answer to the agent. The simulation relates a run
  of the code to a run of the specification, and says that the code touches no object that was there
  before, except those it is told to release.
\<close>

section \<open>Simulation\<close>

type_synonym view = "event list \<times> agent_result"

definition view_of :: "cstate \<Rightarrow> view" where
  "view_of s = (trace s, answer s)"

text \<open>The objects outside of \<open>F\<close> that were there before are unchanged.\<close>

definition framed :: "nat set \<Rightarrow> cstate \<Rightarrow> cstate \<Rightarrow> bool" where
  "framed F s t \<longleftrightarrow>
     fresh_ok t \<and> next_id s \<le> next_id t \<and> queries t = queries s \<and>
     (\<forall>a < next_id s. a \<notin> F \<longrightarrow> store t a = store s a)"

definition refines :: "nat set \<Rightarrow> ('a \<Rightarrow> 'b) \<Rightarrow> 'a mcmd \<Rightarrow> (view, 'b) cmd \<Rightarrow> cstate \<Rightarrow> bool" where
  "refines F h m sp s \<longleftrightarrow>
     (case m s of
        Inl e \<Rightarrow> sp (view_of s) = Inl e
      | Inr (x, t) \<Rightarrow> sp (view_of s) = Inr (h x, view_of t) \<and> framed F s t)"

lemma framed_refl: "fresh_ok s \<Longrightarrow> framed F s s"
  by (simp add: framed_def)

lemma framed_fresh: "framed F s t \<Longrightarrow> fresh_ok t"
  by (simp add: framed_def)

lemma framed_trans: "framed F s t \<Longrightarrow> framed F t u \<Longrightarrow> framed F s u"
  by (auto simp: framed_def)

lemma framed_mono: "framed F s t \<Longrightarrow> F \<subseteq> G \<Longrightarrow> framed G s t"
  by (auto simp: framed_def)

lemma refines_mono: "refines F h m sp s \<Longrightarrow> F \<subseteq> G \<Longrightarrow> refines G h m sp s"
  by (auto simp: refines_def intro: framed_mono split: sum.splits)

lemma refines_Inr:
  "m s = Inr (x, t) \<Longrightarrow> sp (view_of s) = Inr (h x, view_of t) \<Longrightarrow> framed F s t \<Longrightarrow>
    refines F h m sp s"
  by (simp add: refines_def)

lemma refines_Inl: "m s = Inl e \<Longrightarrow> sp (view_of s) = Inl e \<Longrightarrow> refines F h m sp s"
  by (simp add: refines_def)

lemma refines_return: "fresh_ok s \<Longrightarrow> h x = y \<Longrightarrow> refines F h (return_c x) (return_c y) s"
  by (simp add: refines_def cmd_simps framed_refl)

lemma refines_lift: "fresh_ok s \<Longrightarrow> refines F id (lift_c r) (lift_c r) s"
  by (cases r) (simp_all add: refines_def cmd_simps framed_refl)

lemma refines_bind:
  assumes m: "refines F h m sp s"
    and f: "\<And>x t. m s = Inr (x, t) \<Longrightarrow> framed F s t \<Longrightarrow> refines F k (f x) (g (h x)) t"
  shows "refines F k (bind_c m f) (bind_c sp g) s"
proof (cases "m s")
  case (Inl e)
  then show ?thesis using m by (simp add: refines_def bind_c_run)
next
  case (Inr p)
  then obtain x t where p: "m s = Inr (x, t)" by (cases p) auto
  then have sp: "sp (view_of s) = Inr (h x, view_of t)" and fr: "framed F s t"
    using m by (simp_all add: refines_def)
  show ?thesis
    using f [OF p fr] fr by (cases "f x t")
      (auto simp: refines_def bind_c_run p sp intro: framed_trans)
qed

lemma refines_bind_untouched:
  assumes m: "refines {} h m sp s"
    and f: "\<And>x t. framed {} s t \<Longrightarrow> refines F k (f x) (g (h x)) t"
  shows "refines F k (bind_c m f) (bind_c sp g) s"
proof (cases "m s")
  case (Inl e)
  then show ?thesis using m by (simp add: refines_def bind_c_run)
next
  case (Inr p)
  then obtain x t where p: "m s = Inr (x, t)" by (cases p) auto
  then have sp: "sp (view_of s) = Inr (h x, view_of t)" and fr: "framed {} s t"
    using m by (simp_all add: refines_def)
  have "framed F s t" by (rule framed_mono [OF fr]) simp
  then show ?thesis
    using f [OF fr, of x] by (cases "f x t")
      (auto simp: refines_def bind_c_run p sp intro: framed_trans)
qed

lemma params_at_framed:
  assumes "params_at s p xs F" and "fresh_ok s" and "framed {} s t"
  shows "params_at t p xs F"
proof (rule params_at_frame [OF assms(1)])
  fix a
  assume "a \<in> F"
  then have "a < next_id s" using params_fresh [OF assms(1,2), of a] by force
  then show "store t a = store s a" using assms(3) by (simp add: framed_def)
qed

lemma refines_seq:
  assumes "refines F h m sp s"
    and "\<And>x t. m s = Inr (x, t) \<Longrightarrow> framed F s t \<Longrightarrow> refines F k n sq t"
  shows "refines F k (seq_c m n) (seq_c sp sq) s"
  unfolding seq_c_def by (rule refines_bind [OF assms])

text \<open>Debug messages are not seen by the specification.\<close>

lemma view_noted [simp]: "view_of (noted E ms s) = view_of s"
  by (simp add: view_of_def)

lemma framed_noted [simp]:
  "framed F s (noted E ms t) = framed F s t"
  "framed F (noted E ms s) t = framed F s t"
  by (simp_all add: framed_def)

lemma refines_traced:
  assumes "c_format fmt args = Inr name" and "\<And>ms. refines F h m sp (noted E ms s)"
  shows "refines F h (traced E fmt args m) sp s"
  using assms(2) [of "[''In '' @ name]"]
  by (auto simp: refines_def traced_run [OF assms(1)] split: sum.splits)

lemma refines_noted:
  "m s = m' (noted E ms s) \<Longrightarrow> refines F h m' sp (noted E ms s) \<Longrightarrow> refines F h m sp s"
  by (auto simp: refines_def split: sum.splits)

lemma refines_debug:
  assumes "c_format fmt args = Inr msg" and "refines F h m sp (noted E [msg] s)"
  shows "refines F h (seq_c (zabbix_log E LOG_LEVEL_DEBUG fmt args) m) sp s"
  using assms by (auto simp: refines_def seq_c_run cmd_simps split: sum.splits)

text \<open>A run of the specification that is defined gives a run of the code.\<close>

lemma refines_returns:
  assumes "refines F id m sp s" and "sp (view_of s) = Inr (x, v)"
  shows "\<exists>t. m s = Inr (x, t) \<and> view_of t = v \<and> framed F s t"
  using assms by (auto simp: refines_def split: sum.splits)

section \<open>The specification\<close>

definition sp_emit :: "event list \<Rightarrow> (view, unit) cmd" where
  "sp_emit es = modify_c (\<lambda>(tr, a). (tr @ es, a))"

definition sp_answer :: "(agent_result \<Rightarrow> agent_result) \<Rightarrow> (view, unit) cmd" where
  "sp_answer f = modify_c (\<lambda>(tr, a). (tr, f a))"

text \<open>An error is logged and reported to the agent.\<close>

definition sp_error :: "env \<Rightarrow> result_ptr \<Rightarrow> string \<Rightarrow> (view, unit) cmd" where
  "sp_error E result text =
     seq_c (sp_emit (err_log E text)) (sp_answer (set_msg result (err_text E text)))"

definition sp_reject :: "env \<Rightarrow> result_ptr \<Rightarrow> string \<Rightarrow> (view, sysinfo_ret) cmd" where
  "sp_reject E result text = seq_c (sp_error E result text) (return_c SYSINFO_RET_FAIL)"

definition sp_connect :: "env \<Rightarrow> string \<Rightarrow> result_ptr \<Rightarrow> (view, pgconn option) cmd" where
  "sp_connect E cs result =
     bind_c (get_c fst) (\<lambda>past.
     let c = PQconnectdb E past cs in
     seq_c (sp_emit [EConnect cs])
     (if PQstatus c = CONNECTION_OK then return_c (Some c)
      else
        bind_c (lift_c (c_format (PQerrorMessage c) [])) (\<lambda>text.
        seq_c (sp_error E result text)
        (seq_c (sp_emit [EFinish])
        (return_c None)))))"

definition sp_exec :: "env \<Rightarrow> pgconn \<Rightarrow> string \<Rightarrow> string list \<Rightarrow> (view, pgresult) cmd" where
  "sp_exec E c query xs =
     bind_c (get_c fst) (\<lambda>past.
     seq_c (sp_emit [EExec query xs])
     (return_c (result_view (PQexecParams E past c query xs))))"

text \<open>One connection, one query, one use of its result.\<close>

definition sp_session ::
  "env \<Rightarrow> string \<Rightarrow> result_ptr \<Rightarrow> string \<Rightarrow> string list \<Rightarrow> 'a \<Rightarrow> (pgresult \<Rightarrow> (view, 'a) cmd)
     \<Rightarrow> (view, 'a) cmd" where
  "sp_session E cs result query xs none body =
     bind_c (sp_connect E cs result) (\<lambda>conn.
     case conn of
       None \<Rightarrow> return_c none
     | Some c \<Rightarrow>
         bind_c (sp_exec E c query xs) (\<lambda>r.
         bind_c (body r) (\<lambda>x.
         seq_c (sp_emit [EFinish]) (return_c x))))"

text \<open>A scalar: the first cell of the result, cut to the size of a string of the agent.\<close>

definition sp_cell :: "env \<Rightarrow> result_ptr \<Rightarrow> string \<Rightarrow> pgresult \<Rightarrow> (view, string option) cmd" where
  "sp_cell E result query r =
     (case scalar_reply query r of
        Inl text \<Rightarrow> seq_c (sp_error E result text) (return_c None)
      | Inr None \<Rightarrow> fault_c Null_deref
      | Inr (Some v) \<Rightarrow> return_c (Some (zbx_strlcpy E (MAX_STRING_LEN E) v)))"

definition sp_scalar ::
  "env \<Rightarrow> agent_request \<Rightarrow> result_ptr \<Rightarrow> string \<Rightarrow> string list \<Rightarrow> (view, string option) cmd" where
  "sp_scalar E request result query xs =
     sp_session E (request_connstring request) result query xs None (sp_cell E result query)"

text \<open>The value of a text in the type of an item.\<close>

definition value_answer :: "env \<Rightarrow> ar_type \<Rightarrow> string \<Rightarrow> fault + (agent_result \<Rightarrow> agent_result)" where
  "value_answer E type v =
     (case type of
        AR_STRING \<Rightarrow> Inr (\<lambda>a. a\<lparr>res_str := Some v\<rparr>)
      | AR_UINT64 \<Rightarrow> bind_f (text_to_uint E v) (\<lambda>n. Inr (\<lambda>a. a\<lparr>res_ui64 := Some n\<rparr>))
      | AR_DOUBLE \<Rightarrow> Inr (\<lambda>a. a\<lparr>res_dbl := Some (text_to_double E v)\<rparr>)
      | AR_OTHER t \<Rightarrow> Inr id)"

definition sp_value ::
  "env \<Rightarrow> agent_request \<Rightarrow> result_ptr \<Rightarrow> ar_type \<Rightarrow> string \<Rightarrow> string list \<Rightarrow> (view, sysinfo_ret) cmd" where
  "sp_value E request result type query xs =
     bind_c (sp_scalar E request result query xs) (\<lambda>cell.
     case cell of
       None \<Rightarrow> return_c SYSINFO_RET_FAIL
     | Some v \<Rightarrow>
         bind_c (lift_c (value_answer E type v)) (\<lambda>f.
         seq_c (sp_answer f) (return_c SYSINFO_RET_OK)))"

text \<open>The version of the server as a number, 0 when it is not known.\<close>

definition sp_version :: "env \<Rightarrow> agent_request \<Rightarrow> result_ptr \<Rightarrow> (view, int) cmd" where
  "sp_version E request result =
     bind_c (sp_scalar E request result VERSION_QUERY []) (\<lambda>cell.
     case cell of
       None \<Rightarrow> return_c 0
     | Some v \<Rightarrow> lift_c (atol v))"

text \<open>Discovery: the rows of one database, or of all that the server lists.\<close>

definition sp_objects :: "env \<Rightarrow> result_ptr \<Rightarrow> pgresult \<Rightarrow> (view, json_object list option) cmd" where
  "sp_objects E result r =
     (if PQresultStatus r \<noteq> PGRES_TUPLES_OK then
        seq_c (sp_error E result (query_error r)) (return_c None)
      else return_c (Some (row_objects E r)))"

definition sp_document :: "env \<Rightarrow> json_object list option \<Rightarrow> (view, sysinfo_ret) cmd" where
  "sp_document E objs =
     (case objs of
        None \<Rightarrow> return_c SYSINFO_RET_FAIL
      | Some os \<Rightarrow>
          seq_c (sp_answer (\<lambda>a. a\<lparr>res_str := Some (zbx_json_text E (doc_ops os))\<rparr>))
            (return_c SYSINFO_RET_OK))"

definition sp_discovery ::
  "env \<Rightarrow> agent_request \<Rightarrow> result_ptr \<Rightarrow> string \<Rightarrow> string list \<Rightarrow> (view, sysinfo_ret) cmd" where
  "sp_discovery E request result query xs =
     sp_session E (request_connstring request) result query xs SYSINFO_RET_FAIL (\<lambda>r.
       bind_c (sp_objects E result r) (sp_document E))"

definition sp_databases :: "env \<Rightarrow> agent_request \<Rightarrow> result_ptr \<Rightarrow> (view, string list option) cmd" where
  "sp_databases E request result =
     sp_session E (request_connstring request) result DATABASES_QUERY [] None (\<lambda>r.
       if PQntuples r = 0 then
         seq_c (sp_error E result ''Failed to enumerate connectable PostgreSQL databases'')
           (return_c None)
       else return_c (Some (map (\<lambda>i. the (PQgetvalue r i 0)) [0..<PQntuples r])))"

fun sp_wide_loop ::
  "env \<Rightarrow> agent_request \<Rightarrow> result_ptr \<Rightarrow> string \<Rightarrow> json_object list \<Rightarrow> string list
     \<Rightarrow> (view, json_object list option) cmd" where
  "sp_wide_loop E request result query objs [] = return_c (Some objs)"
| "sp_wide_loop E request result query objs (db # dbs) =
     bind_c (sp_session E (db_connstring request db) result query [] None (sp_objects E result)) (\<lambda>new.
     case new of
       None \<Rightarrow> return_c None
     | Some os \<Rightarrow> sp_wide_loop E request result query (objs @ os) dbs)"

definition sp_discovery_wide ::
  "env \<Rightarrow> agent_request \<Rightarrow> result_ptr \<Rightarrow> string \<Rightarrow> (view, sysinfo_ret) cmd" where
  "sp_discovery_wide E request result query =
     bind_c (sp_databases E request result) (\<lambda>dbs.
     case dbs of
       None \<Rightarrow> return_c SYSINFO_RET_FAIL
     | Some names \<Rightarrow>
         bind_c (sp_wide_loop E request result query [] (takeWhile (\<lambda>db. db \<noteq> []) names))
           (sp_document E))"

section \<open>The frame of a session implements its specification\<close>

text \<open>
  The results of the server are well formed: the columns have names, and cells are C strings. The
  list of databases is a column of names.
\<close>

definition good_result :: "pgresult \<Rightarrow> bool" where
  "good_result r \<longleftrightarrow>
     named_columns r \<and> (\<forall>i x v. PQgetvalue r i x = Some v \<longrightarrow> cstring v)"

definition server_ok :: "env \<Rightarrow> bool" where
  "server_ok E \<longleftrightarrow>
     (\<forall>past c query xs r. PQexecParams E past c query xs = Some r \<longrightarrow>
        good_result r \<and> (query = DATABASES_QUERY \<longrightarrow> (\<exists>names. first_column r names)))"

lemma good_result_view: "server_ok E \<Longrightarrow> good_result (result_view (PQexecParams E past c query xs))"
  by (cases "PQexecParams E past c query xs")
    (auto simp: server_ok_def good_result_def result_view_def null_result_def named_columns_def)

lemma databases_view:
  assumes "server_ok E"
  shows "\<exists>names. first_column (result_view (PQexecParams E past c DATABASES_QUERY xs)) names"
proof (cases "PQexecParams E past c DATABASES_QUERY xs")
  case None
  then have "first_column (result_view (PQexecParams E past c DATABASES_QUERY xs)) []"
    by (simp add: result_view_def null_result_def first_column_def multi_bytes_def)
  then show ?thesis ..
next
  case (Some r)
  then show ?thesis using assms by (auto simp: server_ok_def result_view_def)
qed

lemma sp_emit_run: "sp_emit es (tr, a) = Inr ((), (tr @ es, a))"
  by (simp add: sp_emit_def cmd_simps)

lemma sp_answer_run: "sp_answer f (tr, a) = Inr ((), (tr, f a))"
  by (simp add: sp_answer_def cmd_simps)

lemma sp_error_run:
  "sp_error E result text (tr, a) =
    Inr ((), (tr @ err_log E text, set_msg result (err_text E text) a))"
  by (simp add: sp_error_def seq_c_run sp_emit_run sp_answer_run)

lemmas sp_runs = sp_emit_run sp_answer_run sp_error_run bind_c_run seq_c_run cmd_simps

lemma set_err_result_refines:
  assumes "fresh_ok s" and "c_format format args = Inr text"
  shows "refines F (\<lambda>_. ()) (set_err_result E result format args) (sp_error E result text) s"
  using set_err_result_run [OF assms(2)] assms(1)
  by (intro refines_Inr) (auto simp: view_of_def sp_error_run framed_def fresh_ok_def)

lemma reject_refines_body:
  assumes "fresh_ok s" and "c_format format args = Inr text" and "h x = y"
  shows "refines F h (seq_c (set_err_result E result format args) (return_c x))
    (seq_c (sp_error E result text) (return_c y)) s"
  by (rule refines_seq [OF set_err_result_refines [OF assms(1,2)] refines_return])
    (auto intro: framed_fresh assms(3))

text \<open>
  The specification of a session, when the connection is refused and when it is accepted.
\<close>

lemma sp_session_refused:
  assumes "PQstatus (PQconnectdb E past cs) \<noteq> CONNECTION_OK"
  shows "sp_session E cs result query xs none body (past, a) =
    bind_f (c_format (PQerrorMessage (PQconnectdb E past cs)) []) (\<lambda>text.
    Inr (none, (past @ EConnect cs # err_log E text @ [EFinish], set_msg result (err_text E text) a)))"
  using assms by (cases "c_format (PQerrorMessage (PQconnectdb E past cs)) []")
    (simp_all add: sp_session_def sp_connect_def Let_def sp_runs)

lemma sp_session_accepted:
  assumes "PQstatus (PQconnectdb E past cs) = CONNECTION_OK"
  shows "sp_session E cs result query xs none body (past, a) =
    (case body (result_view (PQexecParams E (past @ [EConnect cs]) (PQconnectdb E past cs) query xs))
        (past @ [EConnect cs, EExec query xs], a) of
       Inl e \<Rightarrow> Inl e
     | Inr (x, (tr, a')) \<Rightarrow> Inr (x, (tr @ [EFinish], a')))"
  using assms by (simp add: sp_session_def sp_connect_def sp_exec_def Let_def sp_runs split: sum.split)

lemma session_refines:
  assumes fresh: "fresh_ok s" and ok: "request_ok request" and p: "params_at s params xs F"
    and server: "server_ok E"
    and body: "\<And>r t. fresh_ok t \<Longrightarrow> good_result r \<Longrightarrow> refines {} h (body r) (bsp r) t"
    and none: "h none = spnone"
  shows "refines F h (session E request result query params none body)
    (sp_session E (request_connstring request) result query xs spnone bsp) s"
proof (cases "PQstatus (request_conn E request s) = CONNECTION_OK")
  case False
  let ?m = "c_format (PQerrorMessage (request_conn E request s)) []"
  note sp = sp_session_refused [OF False [unfolded request_conn_def], of result query xs spnone bsp "answer s"]
  show ?thesis
  proof (cases ?m)
    case (Inl e)
    have "session E request result query params none body s = Inl e"
      using pg_connect_request_fault [OF ok] False Inl
      by (simp add: session_def request_conn_def bind_c_run)
    then show ?thesis using sp Inl by (intro refines_Inl) (simp_all add: view_of_def request_conn_def)
  next
    case (Inr msg)
    then show ?thesis
      using sp fresh none
      by (intro refines_Inr [where m = "session E request result query params none body",
            OF session_refused [OF fresh ok False Inr]])
        (auto simp: view_of_def request_conn_def served_def framed_def fresh_ok_def restrict_map_def)
  qed
next
  case True
  let ?r = "result_view (request_result E request s query xs)" and ?s2 = "queried E request s F query xs"
  note fresh2 = fresh_queried [OF fresh, of E request F query xs]
  have "good_result ?r" unfolding request_result_def by (rule good_result_view [OF server])
  note ref = body [OF fresh2 this]
  have view2: "view_of ?s2 = (trace s @ [EConnect (request_connstring request), EExec query xs], answer s)"
    by (simp add: view_of_def queried_simps)
  have sp: "sp_session E (request_connstring request) result query xs spnone bsp (view_of s) =
      (case bsp ?r (view_of ?s2) of Inl e \<Rightarrow> Inl e | Inr (x, (tr, a')) \<Rightarrow> Inr (x, (tr @ [EFinish], a')))"
    unfolding view2 using sp_session_accepted [OF True [unfolded request_conn_def]]
    by (simp add: view_of_def request_result_def request_conn_def)
  show ?thesis
  proof (cases "body ?r ?s2")
    case (Inl e)
    then have "bsp ?r (view_of ?s2) = Inl e" using ref by (simp add: refines_def)
    then show ?thesis
      using session_prefix [OF fresh ok p True, where body = body and query = query] Inl sp
      by (intro refines_Inl) simp_all
  next
    case (Inr q)
    then obtain x t where b: "body ?r ?s2 = Inr (x, t)" by (cases q) auto
    then have bsp: "bsp ?r (view_of ?s2) = Inr (h x, view_of t)" and fr: "framed {} ?s2 t"
      using ref by (simp_all add: refines_def)
    have "store t a = store ?s2 a" if "a < next_id ?s2" for a using fr that by (simp add: framed_def)
    note run = session_served [where body = body, OF fresh ok p True b this]
    show ?thesis
      using sp bsp fr fresh2 queried_simps(4) [of s E request F query xs]
      by (intro refines_Inr [where m = "session E request result query params none body", OF run])
        (auto simp: view_of_def framed_def fresh_ok_def queried_simps(1-3) restrict_map_def)
  qed
qed

section \<open>Values\<close>

definition cell_of :: "sysinfo_ret \<times> string \<Rightarrow> string option" where
  "cell_of p = (if fst p = SYSINFO_RET_OK then Some (snd p) else None)"

lemma cell_of_simps [simp]:
  "cell_of (SYSINFO_RET_OK, v) = Some v"
  "cell_of (SYSINFO_RET_FAIL, v) = None"
  by (simp_all add: cell_of_def)

lemma scalar_body_refines:
  assumes "fresh_ok t"
  shows "refines {} cell_of (scalar_body E result query buffer (MAX_STRING_LEN E) r)
    (sp_cell E result query r) t"
proof (cases "PQresultStatus r = PGRES_TUPLES_OK \<and> PQntuples r \<noteq> 0")
  case True
  then show ?thesis
    using assms
    by (cases "PQgetvalue r 0 0")
      (simp_all add: scalar_body_def sp_cell_def scalar_reply_def non_null_def refines_def
        bind_c_run cmd_simps framed_refl)
next
  case False
  show ?thesis
  proof (cases "PQresultStatus r = PGRES_TUPLES_OK")
    case True
    have none: "\<not> PQresultStatus r \<noteq> PGRES_TUPLES_OK" "PQntuples r = 0"
      using True \<open>\<not> (PQresultStatus r = PGRES_TUPLES_OK \<and> PQntuples r \<noteq> 0)\<close> by auto
    show ?thesis
      unfolding scalar_body_def sp_cell_def scalar_reply_def if_not_P [OF none(1)] if_P [OF none(2)]
        sum.case
      by (rule reject_refines_body [OF assms scalar_formats(2)]) simp
  next
    case bad: False
    show ?thesis
      unfolding scalar_body_def sp_cell_def scalar_reply_def if_P [OF bad] sum.case
      by (rule reject_refines_body [OF assms scalar_formats(1)]) simp
  qed
qed

lemma pg_scalar_refines:
  assumes "fresh_ok s" "request_ok request" "params_at s params xs F" "server_ok E"
  shows "refines F cell_of (pg_scalar E request result query params buffer (MAX_STRING_LEN E))
    (sp_scalar E request result query xs) s"
  unfolding pg_scalar_session sp_scalar_def
  by (rule refines_traced, simp, rule session_refines) (simp_all add: assms scalar_body_refines)

definition plain_type :: "ar_type \<Rightarrow> bool" where
  "plain_type type \<longleftrightarrow> type \<in> {AR_STRING, AR_UINT64, AR_DOUBLE}"

lemma set_answer_refines:
  assumes "fresh_ok s" and "plain_type type"
  shows "refines F id
    (case type of
          AR_STRING \<Rightarrow> seq_c (SET_STR_RESULT value) (return_c SYSINFO_RET_OK)
        | AR_UINT64 \<Rightarrow>
            bind_c (lift_c (text_to_uint E value)) (\<lambda>n.
            seq_c (SET_UI64_RESULT n) (return_c SYSINFO_RET_OK))
        | AR_DOUBLE \<Rightarrow> seq_c (SET_DBL_RESULT (text_to_double E value)) (return_c SYSINFO_RET_OK)
        | AR_OTHER t \<Rightarrow> m t)
    (bind_c (lift_c (value_answer E type value)) (\<lambda>f.
      seq_c (sp_answer f) (return_c SYSINFO_RET_OK))) s"
  using assms
  by (cases "text_to_uint E value")
    (auto simp: plain_type_def value_answer_def refines_def SET_STR_RESULT_def SET_UI64_RESULT_def
      SET_DBL_RESULT_def sp_runs framed_def fresh_ok_def view_of_def)

lemma pg_get_result_refines:
  assumes "fresh_ok s" "request_ok request" "params_at s params xs F" "server_ok E"
    and "plain_type type"
  shows "refines F id (pg_get_result E request result type query params)
    (sp_value E request result type query xs) s"
  unfolding pg_get_result_def sp_value_def
proof (rule refines_traced, simp, rule refines_bind [OF pg_scalar_refines])
  fix p t ms
  assume "framed F (noted E ms s) t"
  then have t: "fresh_ok t" by (rule framed_fresh)
  show "refines F id
    (case p of (ret, value) \<Rightarrow>
      if ret = SYSINFO_RET_FAIL then return_c SYSINFO_RET_FAIL
      else (case type of
          AR_UINT64 \<Rightarrow>
            bind_c (lift_c (text_to_uint E value)) (\<lambda>n.
            seq_c (SET_UI64_RESULT n) (return_c SYSINFO_RET_OK))
        | AR_DOUBLE \<Rightarrow> seq_c (SET_DBL_RESULT (text_to_double E value)) (return_c SYSINFO_RET_OK)
        | AR_STRING \<Rightarrow> seq_c (SET_STR_RESULT value) (return_c SYSINFO_RET_OK)
        | AR_OTHER t \<Rightarrow>
            seq_c (set_err_result E result ''Unsupported result type: 0x%0X in %s''
                     [AInt t, AStr (Some ''pg_get_result'')])
              (return_c SYSINFO_RET_FAIL)))
    (case cell_of p of
       None \<Rightarrow> return_c SYSINFO_RET_FAIL
     | Some v \<Rightarrow> bind_c (lift_c (value_answer E type v)) (\<lambda>f.
         seq_c (sp_answer f) (return_c SYSINFO_RET_OK))) t"
  proof (cases p)
    case (Pair ret v)
    then show ?thesis
      using set_answer_refines [OF t assms(5)]
      by (cases ret) (simp_all add: refines_return [OF t])
  qed
qed (simp_all add: assms)

lemma pg_version_refines:
  assumes "fresh_ok s" "request_ok request" "server_ok E"
  shows "refines {} id (pg_version E request result) (sp_version E request result) s"
  unfolding pg_version_def sp_version_def
proof (rule refines_traced, simp, rule refines_bind [OF pg_scalar_refines])
  fix p t ms
  assume "framed {} (noted E ms s) t"
  then have t: "fresh_ok t" by (rule framed_fresh)
  have log: "refines {} id (bind_c (lift_c (atol v)) (\<lambda>version.
      seq_c (zabbix_log E LOG_LEVEL_DEBUG ''PostgreSQL server version: %lu'' [AInt version]) (return_c version)))
    (lift_c (atol v)) t" for v
    using t by (cases "atol v") (simp_all add: refines_def seq_c_run cmd_simps bind_c_run framed_refl)
  show "refines {} id
    (case p of (ret, buffer) \<Rightarrow>
      if ret = SYSINFO_RET_OK then
        bind_c (lift_c (atol buffer)) (\<lambda>version.
        seq_c (zabbix_log E LOG_LEVEL_DEBUG ''PostgreSQL server version: %lu'' [AInt version])
        (return_c version))
      else return_c 0)
    (case cell_of p of None \<Rightarrow> return_c 0 | Some v \<Rightarrow> lift_c (atol v)) t"
    using log by (cases p; cases "fst p") (simp_all add: refines_return [OF t])
qed (simp_all add: assms params_at_None)

section \<open>Discovery\<close>

lemma discovery_body_refines:
  assumes "fresh_ok t" and "good_result r"
  shows "refines {} id (discovery_body E result r) (bind_c (sp_objects E result r) (sp_document E)) t"
proof (cases "PQresultStatus r = PGRES_TUPLES_OK")
  case True
  have "named_columns r" using assms(2) by (simp add: good_result_def)
  from document_run [OF assms(1) this] show ?thesis
    using True assms(1)
    by (simp add: refines_def discovery_body_def sp_objects_def sp_document_def view_of_def framed_def
        fresh_ok_def sp_runs)
next
  case False
  then show ?thesis
    using reject_refines_body [OF assms(1) query_error_format, of id SYSINFO_RET_FAIL SYSINFO_RET_FAIL "{}" E result r]
    by (simp add: discovery_body_def sp_objects_def sp_document_def seq_c_def bind_c_assoc
        bind_c_return)
qed

lemma pg_get_discovery_refines:
  assumes "fresh_ok s" "request_ok request" "params_at s params xs F" "server_ok E"
  shows "refines F id (pg_get_discovery E request result query params)
    (sp_discovery E request result query xs) s"
  unfolding pg_get_discovery_session sp_discovery_def
  by (rule refines_traced, simp, rule session_refines) (simp_all add: assms discovery_body_refines)

section \<open>Discovery in all databases\<close>

lemma first_column_names:
  "first_column r names \<Longrightarrow> map (\<lambda>i. the (PQgetvalue r i 0)) [0..<PQntuples r] = names"
proof -
  assume "first_column r names"
  then have "map (\<lambda>i. PQgetvalue r i 0) [0..<PQntuples r] = map Some names"
    by (simp add: first_column_def)
  then have "map the (map (\<lambda>i. PQgetvalue r i 0) [0..<PQntuples r]) = map the (map Some names)"
    by simp
  then show ?thesis by (simp add: comp_def)
qed

lemma no_databases_format:
  "c_format ''Failed to enumerate connectable PostgreSQL databases'' []
    = Inr ''Failed to enumerate connectable PostgreSQL databases''"
  by (rule c_format_plain) simp

lemma databases_run:
  assumes fresh: "fresh_ok s" and ok: "request_ok request" and server: "server_ok E"
  shows "case sp_databases E request result (view_of s) of
      Inl e \<Rightarrow> pg_get_databases E request result s = Inl e
    | Inr (None, v) \<Rightarrow>
        \<exists>t. pg_get_databases E request result s = Inr (None, t) \<and> view_of t = v \<and> framed {} s t
    | Inr (Some names, v) \<Rightarrow> list_all name_ok names \<and>
        (\<exists>t d. pg_get_databases E request result s = Inr (Some d, t) \<and> view_of t = v \<and>
          framed {} s t \<and> next_id s \<le> d \<and> store t d = Some (Bytes (multi_bytes names)))"
proof (cases "PQstatus (request_conn E request s) = CONNECTION_OK")
  case False
  let ?s = "noted E [''In pg_get_databases''] s"
  note sp = sp_session_refused [OF False [unfolded request_conn_def], of result DATABASES_QUERY "[]"]
  show ?thesis
  proof (cases "c_format (PQerrorMessage (request_conn E request s)) []")
    case (Inl e)
    then have "pg_get_databases E request result s = Inl e"
      using session_bad_message [OF ok, of E ?s e result DATABASES_QUERY None None "databases_body E result"] False
      by (simp add: pg_get_databases_session cmd_simps)
    then show ?thesis using Inl by (simp add: sp sp_databases_def view_of_def request_conn_def)
  next
    case (Inr msg)
    then have "pg_get_databases E request result s = Inr (None,
        noted E (around ''pg_get_databases'' (connect_notes (request_connstring request)))
        (served s {} (Suc (Suc (next_id s)))
          (EConnect (request_connstring request) # err_log E msg @ [EFinish])
          (set_msg result (err_text E msg) (answer s))))"
      using session_refused [of ?s request E msg result DATABASES_QUERY None None "databases_body E result"]
        fresh ok False by (simp add: pg_get_databases_session cmd_simps around_def)
    then show ?thesis
      using Inr fresh by (auto simp: sp sp_databases_def view_of_def request_conn_def served_def
          framed_def fresh_ok_def restrict_map_def)
  qed
next
  case True
  let ?r = "result_view (request_result E request s DATABASES_QUERY [])"
  let ?s = "noted E [''In pg_get_databases''] s"
  let ?s2 = "queried E request ?s {} DATABASES_QUERY []"
  obtain names where names: "first_column ?r names"
    unfolding request_result_def using databases_view [OF server] by blast
  note sp = sp_session_accepted [OF True [unfolded request_conn_def], of result DATABASES_QUERY "[]"]
  have r: "result_view (PQexecParams E (trace s @ [EConnect (request_connstring request)])
      (PQconnectdb E (trace s) (request_connstring request)) DATABASES_QUERY []) = ?r"
    by (simp add: request_result_def request_conn_def)
  show ?thesis
  proof (cases "PQntuples ?r = 0")
    case rows: False
    obtain d where d: "next_id s \<le> d" and run: "pg_get_databases E request result s = Inr (Some d,
        noted E (databases_notes request) (s\<lparr>store := (store s)(d \<mapsto> Bytes (multi_bytes names)),
          next_id := Suc d,
          trace := trace s @ [EConnect (request_connstring request), EExec DATABASES_QUERY [], EFinish]\<rparr>))"
      using pg_get_databases_served [OF fresh ok True refl rows names] by blast
    have "sp_databases E request result (view_of s) = Inr (Some names,
        (trace s @ [EConnect (request_connstring request), EExec DATABASES_QUERY [], EFinish], answer s))"
      using rows first_column_names [OF names] by (simp add: sp sp_databases_def view_of_def r cmd_simps)
    then show ?thesis
      using run d fresh first_column_names_ok [OF names]
      by (auto simp: view_of_def framed_def fresh_ok_def)
  next
    case rows: True
    let ?m = "''Failed to enumerate connectable PostgreSQL databases''"
    have "databases_body E result ?r ?s2 = Inr (None,
        ?s2\<lparr>next_id := next_id ?s2, trace := trace ?s2 @ err_log E ?m,
          answer := set_msg result (err_text E ?m) (answer ?s2)\<rparr>)"
      using rows set_err_result_run [OF no_databases_format]
      by (simp add: databases_body_def seq_c_run cmd_simps)
    then have body: "databases_body E result (result_view (request_result E request ?s DATABASES_QUERY [])) ?s2
        = Inr (None, ?s2\<lparr>next_id := next_id ?s2, trace := trace ?s2 @ err_log E ?m,
          answer := set_msg result (err_text E ?m) (answer ?s2)\<rparr>)" by simp
    have s: "fresh_ok ?s" "PQstatus (request_conn E request ?s) = CONNECTION_OK" using fresh True by simp_all
    from session_plain [where body = "databases_body E result", OF s(1) ok params_at_None s(2) body]
    have run: "pg_get_databases E request result s = Inr (None, noted E (databases_notes request)
      (s\<lparr>store := store s |` (- {}), next_id := next_id ?s2,
        trace := (trace ?s2 @ err_log E ?m) @ [EFinish],
        answer := set_msg result (err_text E ?m) (answer ?s2)\<rparr>))"
      by (simp add: pg_get_databases_session cmd_simps databases_notes_def around_def)
    have "sp_databases E request result (view_of s) = Inr (None,
        (trace ?s2 @ err_log E ?m @ [EFinish], set_msg result (err_text E ?m) (answer s)))"
      using rows by (simp add: sp sp_databases_def view_of_def r sp_runs queried_simps)
    then show ?thesis
      using run fresh less_imp_le [OF queried_simps(4) [of ?s E request "{}" DATABASES_QUERY "[]"]]
      by (auto simp: view_of_def framed_def fresh_ok_def queried_simps(1-3))
  qed
qed

text \<open>The end of \<open>pg_get_discovery_wide\<close> after a jump out of the loop.\<close>

definition wide_exit :: "nat option \<Rightarrow> nat option \<Rightarrow> nat option \<Rightarrow> sysinfo_ret mcmd" where
  "wide_exit connstring databases conn =
     seq_c (zbx_free connstring)
     (seq_c (zbx_free databases)
     (seq_c (PQfinish conn)
     (return_c SYSINFO_RET_FAIL)))"

lemma wide_round_run:
  assumes fresh: "fresh_ok s" and ok: "request_ok request" and db: "name_ok db"
    and j: "store s j = Some (Json ops)" and server: "server_ok E"
  shows "case sp_session E (db_connstring request db) result query [] None (sp_objects E result)
      (view_of s) of
      Inl e \<Rightarrow> wide_round E request result query None j db s = Inl e
    | Inr (Some os, v) \<Rightarrow>
        \<exists>t. wide_round E request result query None j db s = Inr (None, t) \<and> view_of t = v \<and>
          framed {j} s t \<and> store t j = Some (Json (ops @ concat (map object_ops os)))
    | Inr (None, v) \<Rightarrow>
        \<exists>cs co t. wide_round E request result query None j db s = Inr (Some (cs, co), t) \<and>
          (\<forall>d < next_id s. store s d \<noteq> None \<longrightarrow>
            (\<exists>u. wide_exit cs (Some d) co t = Inr (SYSINFO_RET_FAIL, u) \<and> view_of u = v \<and>
              framed {d} s u))"
proof (cases "PQstatus (db_conn E request (trace s) db) = CONNECTION_OK")
  case False
  obtain b where run: "wide_round E request result query None j db s =
    (case c_format (PQerrorMessage (db_conn E request (trace s) db)) [] of
       Inl e \<Rightarrow> Inl e
     | Inr msg \<Rightarrow> Inr (Some (Some (next_id s), None), noted E (connect_notes (db_connstring request db))
         (s\<lparr>store := (store s)(next_id s \<mapsto> Bytes b), next_id := Suc (Suc (next_id s)),
           trace := trace s @ EConnect (db_connstring request db) # err_log E msg @ [EFinish],
           answer := set_msg result (err_text E msg) (answer s)\<rparr>)))"
    using wide_round_refused [OF fresh ok db False] by blast
  note sp = sp_session_refused [OF False [unfolded db_conn_def], of result query "[]"]
  have free: "store s (next_id s) = None" using fresh by (simp add: fresh_ok_def)
  have exit: "\<exists>u. wide_exit (Some (next_id s)) (Some d) None (noted E ms
      (s\<lparr>store := (store s)(next_id s \<mapsto> Bytes b), next_id := n, trace := tr, answer := a\<rparr>))
        = Inr (SYSINFO_RET_FAIL, u) \<and> view_of u = (tr, a) \<and> framed {d} s u"
    if "d < next_id s" "store s d \<noteq> None" "next_id s < n" for d n tr a ms
    using that fresh free
    by (auto simp: wide_exit_def zbx_free_def release_def PQfinish_def seq_c_run cmd_simps view_of_def
        framed_def fresh_ok_def)
  show ?thesis
    by (cases "c_format (PQerrorMessage (db_conn E request (trace s) db)) []")
      (simp_all add: run sp view_of_def [of s] db_conn_def [symmetric] exit)
next
  case acc: True
  let ?r = "db_result E request query (trace s) db"
  have "good_result ?r" unfolding db_result_def by (rule good_result_view [OF server])
  then have named: "named_columns ?r" by (simp add: good_result_def)
  note sp = sp_session_accepted [OF acc [unfolded db_conn_def], of result query "[]"]
  have r: "result_view (PQexecParams E (trace s @ [EConnect (db_connstring request db)])
      (PQconnectdb E (trace s) (db_connstring request db)) query []) = ?r"
    by (simp add: db_result_def db_conn_def)
  show ?thesis
  proof (cases "PQresultStatus ?r = PGRES_TUPLES_OK")
    case True
    obtain n where n: "next_id s \<le> n" and run: "wide_round E request result query None j db s =
        Inr (None, noted E (db_notes request query db)
          (doc_state s j (ops @ concat (map object_ops (row_objects E ?r))) n (db_events request query db)))"
      using wide_round_served [OF fresh ok db j acc refl True named] by blast
    have "fresh_ok (doc_state s j ops' n es)" for ops' es
      by (rule fresh_doc_state [OF fresh _ n]) (simp add: j)
    then show ?thesis
      using True run n
      by (simp add: sp view_of_def r sp_objects_def cmd_simps framed_def)
        (simp add: doc_state_def db_events_def)
  next
    case False
    let ?a = "next_id s" and ?conn = "db_conn E request (trace s) db"
    let ?ro = "PQexecParams E (trace s @ [EConnect (db_connstring request db)]) ?conn query []"
    let ?m = "\<lambda>b. (store s)(?a \<mapsto> Bytes b, Suc ?a \<mapsto> Conn ?conn)"
    have "result_view ?ro = ?r" by (simp add: db_result_def)
    from wide_round_failed [OF fresh ok db acc refl this False] obtain b where
      run: "wide_round E request result query None j db s =
      Inr (Some (Some ?a, Some (Suc ?a)), noted E (db_notes request query db)
        (s\<lparr>store := (case ?ro of None \<Rightarrow> ?m b | Some r \<Rightarrow> (?m b)(Suc (Suc ?a) \<mapsto> Res r)),
          next_id := (case ?ro of None \<Rightarrow> Suc (Suc ?a) | Some r \<Rightarrow> Suc (Suc (Suc ?a))),
          trace := trace s @ [EConnect (db_connstring request db), EExec query []] @ err_log E (query_error ?r),
          answer := set_msg result (err_text E (query_error ?r)) (answer s)\<rparr>))"
      unfolding Let_def by blast
    have free: "store s ?a = None" "store s (Suc ?a) = None" using fresh by (simp_all add: fresh_ok_def)
    have exit: "\<exists>u. wide_exit (Some ?a) (Some d) (Some (Suc ?a)) (noted E (db_notes request query db)
        (s\<lparr>store := (case ?ro of None \<Rightarrow> ?m b | Some r \<Rightarrow> (?m b)(Suc (Suc ?a) \<mapsto> Res r)),
          next_id := (case ?ro of None \<Rightarrow> Suc (Suc ?a) | Some r \<Rightarrow> Suc (Suc (Suc ?a))),
          trace := tr, answer := a\<rparr>))
          = Inr (SYSINFO_RET_FAIL, u) \<and> view_of u = (tr @ [EFinish], a) \<and> framed {d} s u"
      if "d < ?a" "store s d \<noteq> None" for d tr a
      using that fresh free
      by (cases ?ro) (auto simp: wide_exit_def zbx_free_def release_def PQfinish_def fetch_conn_def
          fetch_def log_event_def seq_c_run bind_c_run cmd_simps view_of_def framed_def fresh_ok_def)
    show ?thesis
      using False exit [where a = "set_msg result (err_text E (query_error ?r)) (answer s)" and
          tr = "trace s @ [EConnect (db_connstring request db), EExec query []] @ err_log E (query_error ?r)"]
      by (simp add: sp view_of_def [of s] r sp_objects_def sp_runs run)
  qed
qed

lemma framed_old: "framed F s t \<Longrightarrow> a < next_id s \<Longrightarrow> a \<notin> F \<Longrightarrow> store t a = store s a"
  by (simp add: framed_def)

lemma framed_next: "framed F s t \<Longrightarrow> next_id s \<le> next_id t"
  by (simp add: framed_def)

lemma wide_loop_run:
  assumes "fresh_ok s" and ok: "request_ok request" and server: "server_ok E"
    and "list_all name_ok dbs" and "store s j = Some (Json ops)"
  shows "case sp_wide_loop E request result query objs (takeWhile (\<lambda>db. db \<noteq> []) dbs) (view_of s) of
      Inl e \<Rightarrow> wide_loop E request result query None j (pre @ multi_bytes dbs) (length pre) s = Inl e
    | Inr (Some os, v) \<Rightarrow>
        \<exists>t new. wide_loop E request result query None j (pre @ multi_bytes dbs) (length pre) s
            = Inr (None, t) \<and> os = objs @ new \<and> view_of t = v \<and> framed {j} s t \<and>
          store t j = Some (Json (ops @ concat (map object_ops new)))
    | Inr (None, v) \<Rightarrow>
        \<exists>cs co t. wide_loop E request result query None j (pre @ multi_bytes dbs) (length pre) s
            = Inr (Some (cs, co), t) \<and>
          (\<forall>d < next_id s. d \<noteq> j \<longrightarrow> store s d \<noteq> None \<longrightarrow>
            (\<exists>u. wide_exit cs (Some d) co t = Inr (SYSINFO_RET_FAIL, u) \<and> view_of u = v \<and>
              framed {d, j} s u))"
  using assms(1,4,5)
proof (induction dbs arbitrary: pre s ops objs)
  case Nil
  have "wide_loop E request result query None j (pre @ multi_bytes []) (length pre) s = Inr (None, s)"
    using multi_bytes_head(1) [of pre "[]"] multi_bytes_head(2) [of pre]
    by (subst wide_loop.simps) (simp add: cmd_simps)
  then show ?case
    using Nil.prems framed_refl [OF Nil.prems(1), of "{j}"]
    by (auto simp: cmd_simps intro!: exI [of _ "[]"])
next
  case (Cons db dbs)
  let ?W = "wide_loop E request result query None j (pre @ multi_bytes (db # dbs)) (length pre) s"
  have name: "name_ok db" and dbs: "list_all name_ok dbs" using Cons.prems(2) by simp_all
  have db: "cstring db" using name by (rule name_okD)
  show ?case
  proof (cases "db = []")
    case True
    then have "?W = Inr (None, s)"
      by (subst wide_loop.simps) (simp add: multi_bytes_def nth_append cmd_simps)
    then show ?thesis
      using True Cons.prems framed_refl [OF Cons.prems(1), of "{j}"]
      by (auto simp: cmd_simps intro!: exI [of _ "[]"])
  next
    case False
    let ?S = "sp_session E (db_connstring request db) result query [] None (sp_objects E result)"
    note round = wide_round_run [OF Cons.prems(1) ok name Cons.prems(3) server, of result query]
    have W: "?W = (case wide_round E request result query None j db s of Inl e \<Rightarrow> Inl e
        | Inr (Some v, t) \<Rightarrow> Inr (Some v, t)
        | Inr (None, t) \<Rightarrow> wide_loop E request result query None j
            ((pre @ db @ [NUL]) @ multi_bytes dbs) (length (pre @ db @ [NUL])) t)"
    proof -
      have bytes: "(pre @ db @ [NUL]) @ multi_bytes dbs = pre @ multi_bytes (db # dbs)"
        by (simp add: multi_bytes_def)
      show ?thesis
        unfolding bytes
        using multi_bytes_head(1) [of pre "db # dbs"] multi_bytes_head(3) [OF False db, of pre dbs]
        by (subst wide_loop.simps)
          (auto simp: c_str_multi [OF db] bind_c_run cmd_simps split: sum.split option.split)
    qed
    have spec: "sp_wide_loop E request result query objs (takeWhile (\<lambda>db. db \<noteq> []) (db # dbs)) (view_of s)
        = (case ?S (view_of s) of Inl e \<Rightarrow> Inl e
          | Inr (None, v) \<Rightarrow> Inr (None, v)
          | Inr (Some os, v) \<Rightarrow> sp_wide_loop E request result query (objs @ os)
              (takeWhile (\<lambda>db. db \<noteq> []) dbs) v)"
      using False by (simp add: bind_c_run cmd_simps split: sum.split option.split)
    consider (fault) e where "?S (view_of s) = Inl e"
      | (stop) v where "?S (view_of s) = Inr (None, v)"
      | (rows) os v where "?S (view_of s) = Inr (Some os, v)"
      by (cases "?S (view_of s)") (simp, metis option.exhaust surj_pair)
    then show ?thesis
    proof cases
      case fault
      then show ?thesis unfolding spec W using round by simp
    next
      case stop
      then obtain cs co t where "wide_round E request result query None j db s = Inr (Some (cs, co), t)"
        and "\<forall>d < next_id s. store s d \<noteq> None \<longrightarrow>
          (\<exists>u. wide_exit cs (Some d) co t = Inr (SYSINFO_RET_FAIL, u) \<and> view_of u = v \<and> framed {d} s u)"
        using round by auto
      moreover have "framed {d, j} s u" if "framed {d} s u" for d u
        using framed_mono [OF that] by simp
      ultimately show ?thesis unfolding spec W using stop by simp blast
    next
      case rows
      then obtain t where t: "wide_round E request result query None j db s = Inr (None, t)"
        and v: "view_of t = v" and fr: "framed {j} s t"
        and js: "store t j = Some (Json (ops @ concat (map object_ops os)))"
        using round by auto
      note IH = Cons.IH [where objs = "objs @ os" and pre = "pre @ db @ [NUL]",
          OF framed_fresh [OF fr] dbs js]
      show ?thesis
      proof (cases "sp_wide_loop E request result query (objs @ os) (takeWhile (\<lambda>db. db \<noteq> []) dbs) v")
        case (Inl e)
        then show ?thesis unfolding spec W using IH rows t v by simp
      next
        case (Inr p)
        then obtain o' v' where p: "sp_wide_loop E request result query (objs @ os)
          (takeWhile (\<lambda>db. db \<noteq> []) dbs) v = Inr (o', v')" by (cases p) auto
        show ?thesis
        proof (cases o')
          case None
          have keep: "store t d = store s d" "d < next_id t" if "d < next_id s" "d \<noteq> j" for d
            using framed_old [OF fr that(1)] that framed_next [OF fr] by auto
          have "framed {d, j} s u" if "framed {d, j} t u" for d u
            using framed_trans [OF framed_mono [OF fr] that] by simp
          then show ?thesis unfolding spec W using IH p rows t v None keep by simp metis
        next
          case (Some fin)
          have "framed {j} s u" if "framed {j} t u" for u using framed_trans [OF fr that] .
          then show ?thesis unfolding spec W using IH p rows t v Some by simp fastforce
        qed
      qed
    qed
  qed
qed

text \<open>The function without its messages.\<close>

definition wide_main ::
  "env \<Rightarrow> agent_request \<Rightarrow> result_ptr \<Rightarrow> string \<Rightarrow> nat option \<Rightarrow> sysinfo_ret mcmd" where
  "wide_main E request result query params =
     bind_c (pg_get_databases E request result) (\<lambda>databases.
     case databases of
       None \<Rightarrow> return_c SYSINFO_RET_FAIL
     | Some d \<Rightarrow>
         bind_c zbx_json_init (\<lambda>j.
         seq_c (zbx_json_add j (J_addarray ZBX_PROTO_TAG_DATA))
         (bind_c (fetch_bytes d) (\<lambda>b.
         bind_c (wide_loop E request result query params j b 0) (\<lambda>exit.
         case exit of
           None \<Rightarrow>
             seq_c (finish_json E j)
             (seq_c (zbx_free databases)
             (return_c SYSINFO_RET_OK))
         | Some (connstring, conn) \<Rightarrow> wide_exit connstring databases conn)))))"

lemma pg_get_discovery_wide_main:
  "pg_get_discovery_wide E request result query params =
     traced E ''%s(%s)'' [AStr (Some ''pg_get_discovery_wide''), AStr (Some (req_key request))]
       (wide_main E request result query params)"
  unfolding pg_get_discovery_wide_def wide_main_def wide_exit_def ..

lemma wide_main_refines:
  assumes fresh: "fresh_ok s" and ok: "request_ok request" and server: "server_ok E"
  shows "refines {} id (wide_main E request result query None)
    (sp_discovery_wide E request result query) s"
proof -
  note dbs = databases_run [OF fresh ok server, of result]
  let ?D = "sp_databases E request result (view_of s)"
  consider (fault) e where "?D = Inl e" | (none) v where "?D = Inr (None, v)"
    | (names) names v where "?D = Inr (Some names, v)"
    by (cases ?D) (simp, metis option.exhaust surj_pair)
  then show ?thesis
  proof cases
    case fault
    then show ?thesis using dbs
      by (intro refines_Inl [where e = e])
        (simp_all add: wide_main_def sp_discovery_wide_def bind_c_run)
  next
    case none
    then show ?thesis using dbs
      by (auto simp: refines_def wide_main_def sp_discovery_wide_def bind_c_run cmd_simps)
  next
    case names
    then obtain t d where cs: "list_all name_ok names"
      and run: "pg_get_databases E request result s = Inr (Some d, t)"
      and v: "view_of t = v" and fr: "framed {} s t" and d: "next_id s \<le> d"
      and bytes: "store t d = Some (Bytes (multi_bytes names))"
      using dbs by auto
    let ?j = "next_id t"
    let ?t2 = "t\<lparr>store := (store t)(?j \<mapsto> Json []), next_id := Suc ?j\<rparr>"
    let ?t3 = "t\<lparr>store := (store t)(?j \<mapsto> Json [J_addarray ''data'']), next_id := Suc ?j\<rparr>"
    have fresh_t: "fresh_ok t" using fr by (rule framed_fresh)
    have dj: "d < ?j" using bytes fresh_t by (force simp: fresh_ok_def not_less [symmetric])
    have init: "zbx_json_init t = Inr (?j, ?t2)" by (simp add: zbx_json_init_def alloc_def)
    have array: "zbx_json_add ?j (J_addarray ZBX_PROTO_TAG_DATA) ?t2 = Inr ((), ?t3)"
      by (simp add: zbx_json_add_def fetch_json_def fetch_def update_def ZBX_PROTO_TAG_DATA_def
          bind_c_run cmd_simps)
    have fetch: "fetch_bytes d ?t3 = Inr (multi_bytes names, ?t3)"
      using bytes dj by (simp add: fetch_bytes_def fetch_def bind_c_run cmd_simps)
    have fresh3: "fresh_ok ?t3" using fresh_t by (auto simp: fresh_ok_def)
    have js: "store ?t3 ?j = Some (Json [J_addarray ''data''])" by simp
    have fr3: "framed {} s ?t3"
      using fr fresh3 framed_next [OF fr] by (auto simp: framed_def)
    have v3: "view_of ?t3 = v" using v by (simp add: view_of_def)
    let ?L = "wide_loop E request result query None ?j (multi_bytes names) 0 ?t3"
    let ?S = "sp_wide_loop E request result query [] (takeWhile (\<lambda>db. db \<noteq> []) names) v"
    note loop = wide_loop_run [where pre = "[]" and objs = "[]", OF fresh3 ok server cs js,
        of result query, unfolded append_Nil list.size(3) v3]
    have code: "wide_main E request result query None s =
        (case ?L of Inl e \<Rightarrow> Inl e
         | Inr (None, u) \<Rightarrow> seq_c (finish_json E ?j) (seq_c (zbx_free (Some d)) (return_c SYSINFO_RET_OK)) u
         | Inr (Some (cs, co), u) \<Rightarrow> wide_exit cs (Some d) co u)"
      using init array fetch
      by (simp add: wide_main_def wide_exit_def run bind_c_run
          seq_c_Inr [where m = "zbx_json_add ?j (J_addarray ZBX_PROTO_TAG_DATA)"]
          split: sum.split option.split)
    have spec: "sp_discovery_wide E request result query (view_of s) =
        (case ?S of Inl e \<Rightarrow> Inl e | Inr (os, v') \<Rightarrow> sp_document E os v')"
      using names by (simp add: sp_discovery_wide_def bind_c_run)
    consider (fault') e where "?S = Inl e" | (stop) v' where "?S = Inr (None, v')"
      | (rows) os v' where "?S = Inr (Some os, v')"
      by (cases ?S) (simp, metis option.exhaust surj_pair)
    then show ?thesis
    proof cases
      case fault'
      then show ?thesis using loop code spec by (intro refines_Inl [where e = e]) simp_all
    next
      case stop
      then obtain c1 c2 u where L: "?L = Inr (Some (c1, c2), u)"
        and ex: "\<forall>d < next_id ?t3. d \<noteq> ?j \<longrightarrow> store ?t3 d \<noteq> None \<longrightarrow>
          (\<exists>w. wide_exit c1 (Some d) c2 u = Inr (SYSINFO_RET_FAIL, w) \<and> view_of w = v' \<and>
            framed {d, ?j} ?t3 w)"
        using loop by auto
      have "d < next_id ?t3" "d \<noteq> ?j" "store ?t3 d \<noteq> None" using dj bytes by simp_all
      with ex obtain w where w: "wide_exit c1 (Some d) c2 u = Inr (SYSINFO_RET_FAIL, w)"
        "view_of w = v'" "framed {d, ?j} ?t3 w"
        by blast
      have "framed {} s w" using w(3) fr3 d framed_next [OF fr] by (auto simp: framed_def)
      then show ?thesis
        using code spec L w stop by (intro refines_Inr) (simp_all add: sp_document_def cmd_simps)
    next
      case rows
      then obtain u where L: "?L = Inr (None, u)" and vu: "view_of u = v'"
        and fu: "framed {?j} ?t3 u"
        and ju: "store u ?j = Some (Json (J_addarray ''data'' # concat (map object_ops os)))"
        using loop by auto
      have du: "store u d = Some (Bytes (multi_bytes names))"
        using framed_old [OF fu, of d] dj bytes by simp
      let ?w = "u\<lparr>store := (store u)(?j := None, d := None),
        answer := (answer u)\<lparr>res_str := Some (zbx_json_text E (doc_ops os))\<rparr>\<rparr>"
      have fin: "seq_c (finish_json E ?j) (seq_c (zbx_free (Some d)) (return_c SYSINFO_RET_OK)) u
          = Inr (SYSINFO_RET_OK, ?w)"
        using finish_json_run [OF ju] du dj
        by (simp add: seq_c_run cmd_simps zbx_free_def release_def doc_ops_def)
      have "framed {} s ?w"
        using fu fr3 d dj framed_next [OF fr] by (auto simp: framed_def fresh_ok_def)
      then show ?thesis
        using code spec L fin rows vu
        by (intro refines_Inr) (auto simp: sp_document_def sp_runs view_of_def)
    qed
  qed
qed

lemma pg_get_discovery_wide_refines:
  assumes "fresh_ok s" and "request_ok request" and "server_ok E"
  shows "refines {} id (pg_get_discovery_wide E request result query None)
    (sp_discovery_wide E request result query) s"
  unfolding pg_get_discovery_wide_main
  by (rule refines_traced, simp, rule wide_main_refines) (simp_all add: assms)

section \<open>Calls with parameters\<close>

lemma refines_built:
  assumes run: "m s = Inr (p, s')" and only: "only_store {} s F s'"
    and f: "refines (G \<union> F) k (f p) sp s'"
  shows "refines G k (bind_c m f) sp s"
proof -
  have eq: "s' = s\<lparr>store := store s', next_id := next_id s'\<rparr>"
    and st: "store s' |` (- F) = store s |` (- {})" and F: "F \<subseteq> {next_id s..}"
    and n: "next_id s \<le> next_id s'"
    using only by (auto simp: only_store_def)
  have view: "view_of s' = view_of s" "queries s' = queries s"
    by (subst eq, simp add: view_of_def)+
  have old: "store s' a = store s a" if "a \<notin> F" for a
    using fun_cong [OF st, of a] that by simp
  have "a \<notin> F" if "a < next_id s" for a using F that by auto
  then have "framed G s t" if "framed (G \<union> F) s' t" for t
    using that old n view by (auto simp: framed_def)
  then show ?thesis
    using f run view by (auto simp: refines_def bind_c_run split: sum.splits)
qed

lemma refines_new_params:
  assumes "fresh_ok s"
    and "\<And>p F t. fresh_ok t \<Longrightarrow> params_at t p (given v) F \<Longrightarrow> only_store {} s F t \<Longrightarrow>
      refines (G \<union> F) k (f p) sp t"
  shows "refines G k (bind_c (param_new v) f) sp s"
proof -
  obtain p s' F where run: "param_append None v s = Inr (p, s')"
    and at: "params_at s' p ([] @ given v) F" and only: "only_store {} s F s'"
    using param_append_run [OF assms(1) params_at_None] by blast
  have "fresh_ok s'" using only by (simp add: only_store_def)
  then show ?thesis
    using refines_built [of "param_new v" s p s' F G k f sp] run only at assms(2) [of s' p F]
    by (simp add: param_new_def)
qed

text \<open>The calls of the item functions, with the texts and parameters the server sees.\<close>

definition call_ok :: "env \<Rightarrow> agent_request \<Rightarrow> cstate \<Rightarrow> bool" where
  "call_ok E request s \<longleftrightarrow> fresh_ok s \<and> request_ok request \<and> server_ok E"

lemma call_okD: "call_ok E request s \<Longrightarrow> fresh_ok s \<and> request_ok request \<and> server_ok E"
  by (simp add: call_ok_def)

lemma call_ok_noted [simp]: "call_ok E request (noted E' ms s) = call_ok E request s"
  by (simp add: call_ok_def)

lemma call_ok_framed: "call_ok E request s \<Longrightarrow> framed F s t \<Longrightarrow> call_ok E request t"
  by (simp add: call_ok_def framed_def)

lemma value_refines:
  "call_ok E request s \<Longrightarrow> plain_type type \<Longrightarrow>
    refines {} id (pg_get_result E request result type query None)
      (sp_value E request result type query []) s"
  by (rule pg_get_result_refines) (auto simp: call_ok_def params_at_None)

lemma value_param_refines:
  assumes "call_ok E request s" and "plain_type type"
  shows "refines {} id (bind_c (param_new v) (pg_get_result E request result type query))
    (sp_value E request result type query (given v)) s"
  by (rule refines_new_params)
    (use assms in \<open>auto simp: call_ok_def intro: pg_get_result_refines\<close>)

lemma discovery_refines:
  "call_ok E request s \<Longrightarrow> refines {} id (pg_get_discovery E request result query None)
      (sp_discovery E request result query []) s"
  by (rule pg_get_discovery_refines) (auto simp: call_ok_def params_at_None)

lemma discovery_param_refines:
  assumes "call_ok E request s"
  shows "refines {} id (bind_c (param_new v) (pg_get_discovery E request result query))
    (sp_discovery E request result query (given v)) s"
  by (rule refines_new_params)
    (use assms in \<open>auto simp: call_ok_def intro: pg_get_discovery_refines\<close>)

lemma wide_refines:
  "call_ok E request s \<Longrightarrow> refines {} id (pg_get_discovery_wide E request result query None)
      (sp_discovery_wide E request result query) s"
  by (rule pg_get_discovery_wide_refines) (auto simp: call_ok_def)

lemma version_refines:
  "call_ok E request s \<Longrightarrow> refines {} id (pg_version E request result) (sp_version E request result) s"
  by (rule pg_version_refines) (auto simp: call_ok_def)

lemma plain_types [simp]: "plain_type AR_STRING" "plain_type AR_UINT64" "plain_type AR_DOUBLE"
  by (simp_all add: plain_type_def)

section \<open>Sessions that build their parameters after connecting\<close>

definition use_conn ::
  "env \<Rightarrow> nat \<Rightarrow> string \<Rightarrow> nat option \<Rightarrow> (pgresult \<Rightarrow> 'a mcmd) \<Rightarrow> 'a mcmd" where
  "use_conn E c query params body =
     bind_c (pg_exec E c query params) (\<lambda>res.
     bind_c (view_result res) (\<lambda>r.
     bind_c (body r) (\<lambda>x.
     seq_c (PQclear res) (seq_c (PQfinish (Some c)) (return_c x)))))"

lemma use_conn_refines:
  assumes fresh: "fresh_ok u" and c: "store u c = Some (Conn conn)" and p: "params_at u params xs F"
    and server: "server_ok E"
    and body: "\<And>r t. fresh_ok t \<Longrightarrow> good_result r \<Longrightarrow> refines {} h (body r) (bsp r) t"
  shows "refines (insert c F) h (use_conn E c query params body)
    (bind_c (sp_exec E conn query xs) (\<lambda>r. bind_c (bsp r) (\<lambda>x.
      seq_c (sp_emit [EFinish]) (return_c x)))) u"
proof -
  let ?ro = "PQexecParams E (trace u) conn query xs"
  let ?s2 = "noted E (exec_notes query xs) (exec_state u F query xs ?ro)" and ?r = "result_view ?ro"
  let ?res = "map_option (\<lambda>_. next_id u) ?ro"
  have exec: "pg_exec E c query params u = Inr (?res, ?s2)"
    by (rule pg_exec_run [OF fresh p c refl])
  have view: "view_result ?res ?s2 = Inr (?r, ?s2)"
    by (cases ?ro) (simp_all add: view_result_def result_view_def fetch_res_def fetch_def
        exec_state_def Let_def bind_c_run cmd_simps)
  have fresh2: "fresh_ok ?s2"
    using fresh by (auto simp: exec_state_def fresh_ok_def restrict_map_def Let_def split: option.split)
  have good: "good_result ?r" by (rule good_result_view [OF server])
  have view2: "view_of ?s2 = (trace u @ [EExec query xs], answer u)" "queries ?s2 = queries u"
    by (simp_all add: view_of_def exec_state_def Let_def)
  have cF: "c \<notin> F" by (rule params_not_conn [OF p c])
  have cn: "c < next_id u" using c fresh by (force simp: fresh_ok_def not_less [symmetric])
  have le: "next_id u \<le> next_id ?s2" by (simp add: exec_state_def Let_def split: option.split)
  have sp: "bind_c (sp_exec E conn query xs) (\<lambda>r. bind_c (bsp r) (\<lambda>x.
      seq_c (sp_emit [EFinish]) (return_c x))) (view_of u)
    = (case bsp ?r (view_of ?s2) of Inl e \<Rightarrow> Inl e | Inr (x, (tr, a)) \<Rightarrow> Inr (x, (tr @ [EFinish], a)))"
    unfolding view2 by (simp add: sp_exec_def view_of_def sp_runs split: sum.split)
  note ref = body [OF fresh2 good]
  show ?thesis
  proof (cases "body ?r ?s2")
    case (Inl e)
    then show ?thesis
      using ref sp by (intro refines_Inl [where e = e])
        (simp_all add: use_conn_def exec view bind_c_run refines_def)
  next
    case (Inr q)
    then obtain x t where b: "body ?r ?s2 = Inr (x, t)" by (cases q) auto
    then have bsp: "bsp ?r (view_of ?s2) = Inr (h x, view_of t)" and fr: "framed {} ?s2 t"
      using ref by (simp_all add: refines_def)
    have tc: "store t c = Some (Conn conn)"
      using framed_old [OF fr, of c] c cF cn le
      by (auto simp: exec_state_def Let_def restrict_map_def split: option.splits)
    have tres: "store t (next_id u) = Some (Res r)" if "?ro = Some r" for r
      using framed_old [OF fr, of "next_id u"] that
      by (auto simp: exec_state_def Let_def restrict_map_def)
    let ?u = "t\<lparr>store := (case ?ro of None \<Rightarrow> (store t)(c := None)
        | Some _ \<Rightarrow> (store t)(next_id u := None, c := None)), trace := trace t @ [EFinish]\<rparr>"
    have "seq_c (PQclear ?res) (seq_c (PQfinish (Some c)) (return_c x)) t = Inr (x, ?u)"
      using tc tres cn
      by (cases ?ro) (simp_all add: bind_c_run seq_c_run PQclear_def PQfinish_def fetch_conn_def
          fetch_res_def fetch_def release_def log_event_def cmd_simps)
    then have run: "use_conn E c query params body u = Inr (x, ?u)"
      by (simp add: use_conn_def exec view b bind_c_run)
    have "store t a = store u a" if "a < next_id u" "a \<notin> insert c F" for a
      using framed_old [OF fr, of a] that le
      by (auto simp: exec_state_def Let_def restrict_map_def split: option.splits)
    then have "framed (insert c F) u ?u"
      using fr le view2 by (auto simp: framed_def fresh_ok_def split: option.split)
    then show ?thesis
      using run sp bsp by (intro refines_Inr) (simp_all add: view_of_def)
  qed
qed

definition session_new ::
  "env \<Rightarrow> agent_request \<Rightarrow> result_ptr \<Rightarrow> string \<Rightarrow> string option \<Rightarrow> 'a \<Rightarrow> (pgresult \<Rightarrow> 'a mcmd)
     \<Rightarrow> 'a mcmd" where
  "session_new E request result query v none body =
     bind_c (pg_connect_request E request result) (\<lambda>conn.
     case conn of
       None \<Rightarrow> return_c none
     | Some c \<Rightarrow> bind_c (param_new v) (\<lambda>params. use_conn E c query params body))"

lemma session_new_refines:
  assumes ok: "call_ok E request s"
    and body: "\<And>r t. fresh_ok t \<Longrightarrow> good_result r \<Longrightarrow> refines {} h (body r) (bsp r) t"
    and none: "h none = spnone"
  shows "refines {} h (session_new E request result query v none body)
    (sp_session E (request_connstring request) result query (given v) spnone bsp) s"
proof -
  have fresh: "fresh_ok s" and req: "request_ok request" and server: "server_ok E"
    using call_okD [OF ok] by auto
  let ?cs = "request_connstring request" and ?conn = "request_conn E request s"
  show ?thesis
  proof (cases "PQstatus ?conn = CONNECTION_OK")
    case False
    note sp = sp_session_refused [OF False [unfolded request_conn_def], of result query "given v" spnone bsp]
    show ?thesis
    proof (cases "c_format (PQerrorMessage ?conn) []")
      case (Inl e)
      have "session_new E request result query v none body s = Inl e"
        using pg_connect_request_fault [OF req] False Inl
        by (simp add: session_new_def request_conn_def bind_c_run)
      then show ?thesis
        using Inl by (intro refines_Inl) (simp_all add: sp view_of_def request_conn_def)
    next
      case (Inr msg)
      have "session_new E request result query v none body s = Inr (none,
          noted E (connect_notes ?cs) (s\<lparr>next_id := Suc (Suc (next_id s)),
            trace := trace s @ EConnect ?cs # err_log E msg @ [EFinish],
            answer := set_msg result (err_text E msg) (answer s)\<rparr>))"
        using pg_connect_request_refused [OF fresh req] False Inr
        by (simp add: session_new_def request_conn_def bind_c_run cmd_simps)
      then show ?thesis
        using Inr fresh none
        by (intro refines_Inr) (auto simp: sp view_of_def request_conn_def framed_def fresh_ok_def)
    qed
  next
    case True
    let ?c = "Suc (next_id s)" and ?s1 = "noted E (connect_notes ?cs) (connected E request s)"
    have conn: "pg_connect_request E request result s = Inr (Some ?c, ?s1)"
      using pg_connect_request_accepted [OF fresh req] True
      by (simp add: connected_def request_conn_def)
    have s1: "store ?s1 ?c = Some (Conn ?conn)" "trace ?s1 = trace s @ [EConnect ?cs]"
      "answer ?s1 = answer s" "queries ?s1 = queries s" "next_id ?s1 = Suc (Suc (next_id s))"
      by (simp_all add: connected_def)
    have fresh1: "fresh_ok ?s1" using fresh by (auto simp: connected_def fresh_ok_def)
    let ?sp = "bind_c (sp_exec E ?conn query (given v)) (\<lambda>r. bind_c (bsp r) (\<lambda>x.
      seq_c (sp_emit [EFinish]) (return_c x)))"
    have use: "refines {?c} h (bind_c (param_new v) (\<lambda>params. use_conn E ?c query params body)) ?sp ?s1"
    proof (rule refines_new_params [OF fresh1])
      fix p F t
      assume t: "fresh_ok t" "params_at t p (given v) F" and only: "only_store {} ?s1 F t"
      have "?c \<notin> F" using only s1(5) by (auto simp: only_store_def)
      moreover have "store t |` (- F) = store ?s1 |` (- {})" using only by (simp add: only_store_def)
      from fun_cong [OF this, of ?c] \<open>?c \<notin> F\<close> have "store t ?c = Some (Conn ?conn)"
        using s1(1) by simp
      from use_conn_refines [where body = body and bsp = bsp, OF t(1) this t(2) server body]
      show "refines ({?c} \<union> F) h (use_conn E ?c query p body) ?sp t" by simp
    qed
    have spec: "sp_session E ?cs result query (given v) spnone bsp (view_of s) = ?sp (view_of ?s1)"
      using True by (simp add: sp_session_def sp_connect_def request_conn_def Let_def view_of_def
          connected_def sp_runs)
    have code: "session_new E request result query v none body s =
        bind_c (param_new v) (\<lambda>params. use_conn E ?c query params body) ?s1"
      by (simp add: session_new_def conn bind_c_Inr)
    have "framed {} s t" if "framed {?c} ?s1 t" for t
      using that s1 fresh by (auto simp: framed_def connected_def)
    then show ?thesis using use spec code by (auto simp: refines_def split: sum.splits)
  qed
qed

end
