(* ===== verification/QueryTable.thy ===== *)
theory QueryTable
  imports Machine
begin

text \<open>
  The table of named queries (\<open>pg_config.c\<close>): \<open>add_named_query\<close> inserts a name in order into two
  parallel arrays, \<open>get_query_by_name\<close> finds it by binary search. The arrays refine a sorted list
  of entries; the locale \<open>named_queries\<close> is what the rest of the module relies on.
\<close>

section \<open>Arrays and \<open>int\<close> arithmetic\<close>

definition arr_get :: "'a list \<Rightarrow> int \<Rightarrow> fault + 'a" where
  "arr_get xs i = (if 0 \<le> i \<and> nat i < length xs then Inr (xs ! nat i) else Inl Out_of_bounds)"

definition arr_set :: "'a list \<Rightarrow> int \<Rightarrow> 'a \<Rightarrow> fault + 'a list" where
  "arr_set xs i v =
     (if 0 \<le> i \<and> nat i < length xs then Inr (xs[nat i := v]) else Inl Out_of_bounds)"

text \<open>The sum of two \<open>int\<close>s has no meaning when it is not an \<open>int\<close>.\<close>

definition add_int :: "int \<Rightarrow> int \<Rightarrow> fault + int" where
  "add_int a b = (if - (2 ^ 31) \<le> a + b \<and> a + b < 2 ^ 31 then Inr (a + b) else Inl Signed_overflow)"

text \<open>\<open>strcmp\<close> on a pointer that may be NULL.\<close>

definition strcmp_ptr :: "string option \<Rightarrow> string \<Rightarrow> fault + int" where
  "strcmp_ptr p b = (case p of None \<Rightarrow> Inl Null_deref | Some a \<Rightarrow> Inr (strcmp a b))"

section \<open>Insertion\<close>

text \<open>
  One turn of the loop of \<open>add_named_query\<close> moves the entry at \<open>i\<close> to \<open>i + 1\<close> and clears \<open>i\<close>.
\<close>

definition shift_up :: "string option list \<Rightarrow> int \<Rightarrow> fault + string option list" where
  "shift_up xs i =
     bind_f (arr_get xs i) (\<lambda>x.
     bind_f (arr_set xs (i + 1) x) (\<lambda>xs.
     arr_set xs i None))"

text \<open>
  The loop \<open>while (i \<ge> 0 \<and> (keys[i] == NULL \<or> 0 > strcmp(name, keys[i])))\<close>. The third argument
  is \<open>i + 1\<close>, so that \<open>i = -1\<close> is \<open>0\<close>; the value holds \<open>i + 1\<close> where the loop ends.
\<close>

fun add_loop :: "string \<Rightarrow> query_table \<Rightarrow> nat \<Rightarrow> fault + query_table \<times> nat" where
  "add_loop name t 0 = Inr (t, 0)"
| "add_loop name t (Suc i) =
     (case arr_get (query_keys t) (int i) of
        Inl e \<Rightarrow> Inl e
      | Inr k \<Rightarrow>
          if (case k of None \<Rightarrow> True | Some key \<Rightarrow> 0 > strcmp name key) then
            (case shift_up (query_keys t) (int i) of
               Inl e \<Rightarrow> Inl e
             | Inr ks \<Rightarrow>
                 (case shift_up (query_values t) (int i) of
                    Inl e \<Rightarrow> Inl e
                  | Inr vs \<Rightarrow> add_loop name (t\<lparr>query_keys := ks, query_values := vs\<rparr>) i))
          else Inr (t, Suc i))"

text \<open>\<open>add_named_query\<close>: the loop starts at \<open>query_count - 1\<close>; the names go to \<open>i + 1\<close>.\<close>

definition add_named_query :: "string \<Rightarrow> string \<Rightarrow> query_table \<Rightarrow> fault + query_table" where
  "add_named_query name query t =
     bind_f (add_loop name t (nat (query_count t))) (\<lambda>(t, j).
     bind_f (arr_set (query_keys t) (int j) (Some name)) (\<lambda>ks.
     bind_f (arr_set (query_values t) (int j) (Some query)) (\<lambda>vs.
     Inr (t\<lparr>query_keys := ks, query_values := vs\<rparr>))))"

section \<open>Binary search\<close>

text \<open>
  The loop of \<open>get_query_by_name\<close>. Its bounds are never negative while it runs, so that C's
  division by two is \<open>div\<close>.
\<close>

function search_loop :: "query_table \<Rightarrow> string \<Rightarrow> int \<Rightarrow> int \<Rightarrow> fault + string option" where
  "search_loop t key bottom top' =
     (if bottom \<le> top' then
        bind_f (add_int bottom top') (\<lambda>sum.
        let mid = sum div 2 in
        bind_f (arr_get (query_keys t) mid) (\<lambda>k.
        bind_f (strcmp_ptr k key) (\<lambda>cmp.
        if cmp = 0 then arr_get (query_values t) mid
        else if cmp > 0 then search_loop t key bottom (mid - 1)
        else search_loop t key (mid + 1) top')))
      else Inr None)"
  by pat_completeness auto
termination
  by (relation "measure (\<lambda>(t, key, bottom, top'). nat (top' - bottom + 1))")
    (auto simp: add_int_def split: if_splits)

declare search_loop.simps [simp del]

definition get_query_by_name :: "query_table \<Rightarrow> string \<Rightarrow> fault + string option" where
  "get_query_by_name t key = search_loop t key 0 (query_count t - 1)"

section \<open>The table as a list of entries\<close>

text \<open>
  \<open>table_of n es\<close>: the arrays for \<open>n\<close> names of which those of \<open>es\<close> have been inserted; the rest
  of the \<open>n + 1\<close> cells is NULL.
\<close>

definition cells_table :: "nat \<Rightarrow> (string \<times> string) option list \<Rightarrow> query_table" where
  "cells_table n cs =
     \<lparr>query_keys = map (map_option fst) cs, query_values = map (map_option snd) cs,
      query_count = int n\<rparr>"

definition table_of :: "nat \<Rightarrow> (string \<times> string) list \<Rightarrow> query_table" where
  "table_of n es = cells_table n (map Some es @ replicate (n + 1 - length es) None)"

text \<open>A name goes before the first entry whose name is greater.\<close>

fun insert_entry :: "string \<times> string \<Rightarrow> (string \<times> string) list \<Rightarrow> (string \<times> string) list" where
  "insert_entry e [] = [e]"
| "insert_entry e (x # xs) = (if fst e < fst x then e # x # xs else x # insert_entry e xs)"

definition sorted_names :: "(string \<times> string) list \<Rightarrow> bool" where
  "sorted_names es \<longleftrightarrow> sorted (map fst es) \<and> (\<forall>e \<in> set es. cstring (fst e))"

lemma query_count_table_of [simp]: "query_count (table_of n es) = int n"
  by (simp add: table_of_def cells_table_def)

lemma set_insert_entry [simp]: "set (insert_entry e es) = insert e (set es)"
  by (induction es) auto

lemma length_insert_entry [simp]: "length (insert_entry e es) = Suc (length es)"
  by (induction es) auto

lemma sorted_insert_entry:
  "sorted (map fst es) \<Longrightarrow> sorted (map fst (insert_entry e es))"
  by (induction es) auto

lemma sorted_names_insert:
  "sorted_names es \<Longrightarrow> cstring (fst e) \<Longrightarrow> sorted_names (insert_entry e es)"
  by (auto simp: sorted_names_def sorted_insert_entry)

lemma insert_entry_split:
  assumes "\<forall>x \<in> set xs. \<not> fst e < fst x" and "ys = [] \<or> fst e < fst (hd ys)"
  shows "insert_entry e (xs @ ys) = xs @ e # ys"
  using assms
proof (induction xs)
  case Nil
  then show ?case by (cases ys) auto
qed simp

lemma map_of_insert_entry:
  "fst e \<notin> fst ` set es \<Longrightarrow> map_of (insert_entry e es) = (map_of es)(fst e \<mapsto> snd e)"
  by (induction es) (auto simp: fun_upd_twist)

lemma insert_entry_eq:
  "insert_entry e es =
    takeWhile (\<lambda>x. fst x \<le> fst e) es @ e # dropWhile (\<lambda>x. fst x \<le> fst e) es"
  by (induction es) auto

subsection \<open>The loop of insertion on cells\<close>

lemma arr_get_map_append:
  "arr_get (map f (cs @ c # ds)) (int (length cs)) = Inr (f c)"
  by (simp add: arr_get_def nth_append)

lemma arr_set_map_append:
  "arr_set (map f (cs @ c # ds)) (int (length cs)) x = Inr (map f cs @ x # map f ds)"
  by (simp add: arr_set_def list_update_append)

lemma shift_up_cells:
  "shift_up (map (map_option f) (cs @ c # d # ds)) (int (length cs))
    = Inr (map (map_option f) (cs @ None # c # ds))"
  by (simp add: shift_up_def arr_get_def arr_set_def nth_append nat_add_distrib
      list_update_append)

text \<open>A turn of the loop moves one cell of the table.\<close>

lemma add_loop_step:
  assumes "case c of None \<Rightarrow> True | Some e \<Rightarrow> strcmp name (fst e) < 0"
  shows "add_loop name (cells_table n (cs @ c # d # ds)) (Suc (length cs))
    = add_loop name (cells_table n (cs @ None # c # ds)) (length cs)"
  using assms shift_up_cells [of fst cs c d ds] shift_up_cells [of snd cs c d ds]
    arr_get_map_append [of "map_option fst" cs c "d # ds"]
  by (cases c) (simp_all add: cells_table_def)

lemma add_loop_stop:
  assumes "\<not> strcmp name (fst e) < 0"
  shows "add_loop name (cells_table n (cs @ Some e # ds)) (Suc (length cs))
    = Inr (cells_table n (cs @ Some e # ds), Suc (length cs))"
  using assms arr_get_map_append [of "map_option fst" cs "Some e" ds]
  by (simp add: cells_table_def)

text \<open>The free cells are passed over.\<close>

lemma add_loop_free:
  "add_loop name (cells_table n (cs @ replicate k None @ None # ds)) (length cs + k)
    = add_loop name (cells_table n (cs @ replicate k None @ None # ds)) (length cs)"
proof (induction k arbitrary: ds)
  case (Suc k)
  have "add_loop name (cells_table n (cs @ replicate k None @ None # None # ds)) (length cs + Suc k)
      = add_loop name (cells_table n (cs @ replicate k None @ None # None # ds)) (length cs + k)"
    using add_loop_step [of name None n "cs @ replicate k None" None ds] by simp
  then show ?case
    using Suc.IH [of "None # ds"] by (simp add: replicate_app_Cons_same)
qed simp

lemma takeWhile_snoc_stop: "\<not> P x \<Longrightarrow> takeWhile P (xs @ [x]) = takeWhile P xs"
  by (induction xs) auto

lemma dropWhile_snoc_stop: "\<not> P x \<Longrightarrow> dropWhile P (xs @ [x]) = dropWhile P xs @ [x]"
  by (induction xs) auto

text \<open>The entries with a greater name are shifted; the loop ends behind the others.\<close>

lemma add_loop_entries:
  assumes "sorted_names es" and "cstring name"
  shows "add_loop name (cells_table n (map Some es @ None # ds)) (length es)
    = Inr (cells_table n
        (map Some (takeWhile (\<lambda>x. fst x \<le> name) es) @ None
          # map Some (dropWhile (\<lambda>x. fst x \<le> name) es) @ ds),
        length (takeWhile (\<lambda>x. fst x \<le> name) es))"
  using assms(1)
proof (induction es arbitrary: ds rule: rev_induct)
  case (snoc x xs)
  from snoc.prems have xs: "sorted_names xs" and x: "cstring (fst x)"
    and le: "\<forall>y \<in> set xs. fst y \<le> fst x"
    by (auto simp: sorted_names_def sorted_append)
  have less: "strcmp name (fst x) < 0 \<longleftrightarrow> name < fst x"
    using assms(2) x by (rule strcmp_neg_iff)
  show ?case
  proof (cases "name < fst x")
    case True
    then have "add_loop name (cells_table n (map Some (xs @ [x]) @ None # ds)) (length (xs @ [x]))
        = add_loop name (cells_table n (map Some xs @ None # Some x # ds)) (length xs)"
      using add_loop_step [of name "Some x" n "map Some xs" None ds] less by simp
    moreover have "takeWhile (\<lambda>x. fst x \<le> name) (xs @ [x]) = takeWhile (\<lambda>x. fst x \<le> name) xs"
      and "dropWhile (\<lambda>x. fst x \<le> name) (xs @ [x]) = dropWhile (\<lambda>x. fst x \<le> name) xs @ [x]"
      using True by (simp_all add: takeWhile_snoc_stop dropWhile_snoc_stop)
    ultimately show ?thesis using snoc.IH [OF xs, of "Some x # ds"] by simp
  next
    case False
    then have all: "\<forall>y \<in> set (xs @ [x]). fst y \<le> name" using le by auto
    have "takeWhile (\<lambda>x. fst x \<le> name) (xs @ [x]) = xs @ [x]"
      and "dropWhile (\<lambda>x. fst x \<le> name) (xs @ [x]) = []"
      using all by (simp_all add: takeWhile_eq_all_conv dropWhile_eq_Nil_conv)
    then show ?thesis
      using add_loop_stop [of name x n "map Some xs" "None # ds"] False less by simp
  qed
qed simp

text \<open>
  \<open>add_named_query\<close> refines the insertion into a sorted list, as long as there is room.
\<close>

lemma add_named_query_refines:
  assumes "sorted_names es" and "cstring name" and room: "length es < n"
  shows "add_named_query name query (table_of n es)
    = Inr (table_of n (insert_entry (name, query) es))"
proof -
  define k where "k = n - length es"
  define pre where "pre = takeWhile (\<lambda>x. fst x \<le> name) es"
  define suf where "suf = dropWhile (\<lambda>x. fst x \<le> name) es"
  let ?free = "replicate k (None :: (string \<times> string) option)"
  have n: "n = length es + k" and k: "0 < k" using room by (simp_all add: k_def)
  have table: "table_of n es = cells_table n (map Some es @ ?free @ [None])"
    using n by (simp add: table_of_def replicate_append_same)
  have free: "?free @ [None] = None # ?free" by (simp add: replicate_append_same)
  have "add_loop name (table_of n es) n
      = add_loop name (cells_table n (map Some es @ ?free @ [None])) (length es)"
    using add_loop_free [of name n "map Some es" k "[]"] by (simp add: table) (simp add: n)
  also have "\<dots> = Inr (cells_table n (map Some pre @ None # map Some suf @ ?free), length pre)"
    unfolding pre_def suf_def free
    by (rule add_loop_entries [OF assms(1,2)])
  finally have loop: "add_loop name (table_of n es) n
    = Inr (cells_table n (map Some pre @ None # map Some suf @ ?free), length pre)" .
  have set_cells: "arr_set (map f (map Some pre @ None # map Some suf @ ?free)) (int (length pre)) v
      = Inr (map f (map Some pre) @ v # map f (map Some suf @ ?free))"
    for f :: "(string \<times> string) option \<Rightarrow> string option" and v
    using arr_set_map_append [of f "map Some pre" None "map Some suf @ ?free" v] by simp
  have "insert_entry (name, query) es = pre @ (name, query) # suf"
    by (simp add: insert_entry_eq pre_def suf_def)
  moreover have "length pre + length suf = length es"
    unfolding pre_def suf_def by (metis length_append takeWhile_dropWhile_id)
  ultimately have "table_of n (insert_entry (name, query) es)
      = cells_table n (map Some pre @ Some (name, query) # map Some suf @ ?free)"
    using n by (simp add: table_of_def)
  then show ?thesis
    using set_cells [of "map_option fst" "Some name"] set_cells [of "map_option snd" "Some query"]
    unfolding add_named_query_def by (simp add: loop) (simp add: cells_table_def)
qed

section \<open>Correctness of the search\<close>

text \<open>What the search of a name must give: an entry of that name, or NULL if there is none.\<close>

definition search_result :: "(string \<times> string) list \<Rightarrow> string \<Rightarrow> string option \<Rightarrow> bool" where
  "search_result es key r \<longleftrightarrow>
     (case r of None \<Rightarrow> key \<notin> fst ` set es | Some v \<Rightarrow> (key, v) \<in> set es)"

lemma table_of_full:
  assumes "length es = n" and "0 \<le> i" and "i < int n"
  shows "arr_get (query_keys (table_of n es)) i = Inr (Some (fst (es ! nat i)))"
    and "arr_get (query_values (table_of n es)) i = Inr (Some (snd (es ! nat i)))"
  using assms by (auto simp: table_of_def cells_table_def arr_get_def nth_append nat_less_iff)

lemma search_loop_correct:
  assumes es: "sorted_names es" "cstring key" "length es = n" "n \<le> 2 ^ 30"
    and "0 \<le> b" "top' < int n"
    and "\<forall>i < nat b. fst (es ! i) < key"
    and "\<forall>i. top' < int i \<and> i < n \<longrightarrow> key < fst (es ! i)"
  shows "\<exists>r. search_loop (table_of n es) key b top' = Inr r \<and> search_result es key r"
  using assms(5-)
proof (induction "nat (top' - b + 1)" arbitrary: b top' rule: less_induct)
  case less
  show ?case
  proof (cases "b \<le> top'")
    case False
    have "key \<notin> fst ` set es"
    proof
      assume "key \<in> fst ` set es"
      then obtain i where "i < n" and "\<not> fst (es ! i) < key" and "\<not> key < fst (es ! i)"
        using es(3) by (auto simp: in_set_conv_nth)
      moreover have "top' < int i" if "\<not> i < nat b"
        using that False less.prems(1) by linarith
      ultimately show False using less.prems(3,4) by blast
    qed
    then show ?thesis using False by (simp add: search_loop.simps search_result_def)
  next
    case True
    define mid where "mid = (b + top') div 2"
    let ?x = "es ! nat mid"
    have mid: "b \<le> mid" "mid \<le> top'" using True by (simp_all add: mid_def)
    then have range: "0 \<le> mid" "mid < int n" using less.prems by simp_all
    have sum: "add_int b top' = Inr (b + top')"
      using less.prems True es(4) by (simp add: add_int_def)
    have x: "?x \<in> set es" using range es(3) by (simp add: nat_less_iff)
    then have c: "cstring (fst ?x)" using es(1) by (simp add: sorted_names_def)
    have mono: "fst (es ! i) \<le> fst (es ! j)" if "i \<le> j" "j < n" for i j
      using es(1,3) that sorted_nth_mono [of "map fst es" i j] by (simp add: sorted_names_def)
    have unfold: "search_loop (table_of n es) key b top' =
      (if strcmp (fst ?x) key = 0 then Inr (Some (snd ?x))
       else if strcmp (fst ?x) key > 0 then search_loop (table_of n es) key b (mid - 1)
       else search_loop (table_of n es) key (mid + 1) top')"
      using True sum table_of_full [OF es(3) range]
      by (subst search_loop.simps) (simp add: strcmp_ptr_def mid_def [symmetric])
    consider "fst ?x = key" | "key < fst ?x" | "fst ?x < key" by fastforce
    then show ?thesis
    proof cases
      case 1
      then show ?thesis
        using unfold x strcmp_eq_0_iff [OF c es(2)] by (auto simp: search_result_def)
    next
      case 2
      have "\<exists>r. search_loop (table_of n es) key b (mid - 1) = Inr r \<and> search_result es key r"
      proof (rule less.hyps)
        show "\<forall>i. mid - 1 < int i \<and> i < n \<longrightarrow> key < fst (es ! i)"
          using 2 mono [of "nat mid"] by (auto intro: less_le_trans)
      qed (use less.prems mid in auto)
      then show ?thesis
        using unfold 2 strcmp_pos_iff [OF c es(2)] by auto
    next
      case 3
      have "\<exists>r. search_loop (table_of n es) key (mid + 1) top' = Inr r \<and> search_result es key r"
      proof (rule less.hyps)
        have "nat mid < n" using range by (simp add: nat_less_iff)
        then have "fst (es ! i) < key" if "i \<le> nat mid" for i
          using 3 mono [OF that] by (metis le_less_trans)
        then show "\<forall>i < nat (mid + 1). fst (es ! i) < key" by auto
      qed (use less.prems mid in auto)
      then show ?thesis
        using unfold 3 strcmp_neg_iff [OF c es(2)] by auto
    qed
  qed
qed

lemma get_query_by_name_correct:
  assumes "sorted_names es" "cstring key" "length es = n" "n \<le> 2 ^ 30"
  shows "\<exists>r. get_query_by_name (table_of n es) key = Inr r \<and> search_result es key r"
proof -
  have "\<forall>i. int n - 1 < int i \<and> i < n \<longrightarrow> key < fst (es ! i)" by auto
  then show ?thesis
    using search_loop_correct [OF assms, of 0 "int n - 1"] by (simp add: get_query_by_name_def)
qed

section \<open>The interface of the table\<close>

text \<open>
  What a client of the table relies on: tables stand for sorted lists of entries, an insertion
  keeps that, and in a full table a search gives an entry of the name or NULL.
\<close>

locale named_queries =
  fixes tab :: "nat \<Rightarrow> (string \<times> string) list \<Rightarrow> 't"
    and add :: "string \<Rightarrow> string \<Rightarrow> 't \<Rightarrow> fault + 't"
    and find_query :: "'t \<Rightarrow> string \<Rightarrow> fault + string option"
  assumes add_tab: "sorted_names es \<Longrightarrow> cstring name \<Longrightarrow> length es < n \<Longrightarrow>
      add name query (tab n es) = Inr (tab n (insert_entry (name, query) es))"
    and find_tab: "sorted_names es \<Longrightarrow> cstring key \<Longrightarrow> length es = n \<Longrightarrow> n \<le> 2 ^ 30 \<Longrightarrow>
      \<exists>r. find_query (tab n es) key = Inr r \<and> search_result es key r"
begin

lemma add_all:
  assumes "sorted_names es" and "\<forall>e \<in> set kvs. cstring (fst e)" and "length es + length kvs \<le> n"
  shows "foldM_f (\<lambda>e. add (fst e) (snd e)) kvs (tab n es) = Inr (tab n (fold insert_entry kvs es))"
  using assms
proof (induction kvs arbitrary: es)
  case (Cons e kvs)
  have "sorted_names (insert_entry e es)"
    using Cons.prems by (auto intro: sorted_names_insert)
  then show ?case
    using Cons.prems Cons.IH [of "insert_entry e es"] by (simp add: add_tab)
qed simp

lemma find_sound: "sorted_names es \<Longrightarrow> cstring key \<Longrightarrow> length es = n \<Longrightarrow> n \<le> 2 ^ 30 \<Longrightarrow>
    find_query (tab n es) key \<noteq> Inl e"
  using find_tab by fastforce

text \<open>With distinct names the search is the lookup in the list of entries.\<close>

lemma find_distinct:
  assumes "sorted_names es" "cstring key" "length es = n" "n \<le> 2 ^ 30" "distinct (map fst es)"
  shows "find_query (tab n es) key = Inr (map_of es key)"
proof -
  obtain r where r: "find_query (tab n es) key = Inr r" "search_result es key r"
    using find_tab [OF assms(1-4)] by blast
  then have "r = map_of es key"
    using assms(5) by (cases r) (auto simp: search_result_def map_of_eq_None_iff [symmetric]
        intro: map_of_eq_None_iff [THEN iffD2, symmetric] map_of_is_SomeI [symmetric])
  then show ?thesis using r by simp
qed

end

interpretation nq: named_queries table_of add_named_query get_query_by_name
  by unfold_locales (rule add_named_query_refines, assumption+, rule get_query_by_name_correct)

text \<open>Entries inserted one after the other, in any order, are all found.\<close>

lemma fold_insert_entry:
  "set (fold insert_entry kvs es) = set kvs \<union> set es"
  "length (fold insert_entry kvs es) = length kvs + length es"
  by (induction kvs arbitrary: es) auto

lemma sorted_names_fold:
  "sorted_names es \<Longrightarrow> \<forall>e \<in> set kvs. cstring (fst e) \<Longrightarrow> sorted_names (fold insert_entry kvs es)"
  by (induction kvs arbitrary: es) (auto intro: sorted_names_insert)

lemma distinct_insert_entry:
  "distinct (map fst (insert_entry e es)) \<longleftrightarrow> fst e \<notin> fst ` set es \<and> distinct (map fst es)"
  by (induction es) auto

lemma distinct_fold_insert:
  "distinct (map fst (fold insert_entry kvs es)) \<longleftrightarrow>
    distinct (map fst kvs) \<and> fst ` set kvs \<inter> fst ` set es = {} \<and> distinct (map fst es)"
  by (induction kvs arbitrary: es) (auto simp: distinct_insert_entry)

lemma map_of_fold_insert:
  "distinct (map fst kvs) \<Longrightarrow> fst ` set kvs \<inter> fst ` set es = {} \<Longrightarrow>
    map_of (fold insert_entry kvs es) = map_of es ++ map_of kvs"
proof (induction kvs arbitrary: es)
  case (Cons e kvs)
  have "map_of (fold insert_entry kvs (insert_entry e es)) = map_of (insert_entry e es) ++ map_of kvs"
    using Cons.prems by (intro Cons.IH) auto
  also have "map_of (insert_entry e es) = (map_of es)(fst e \<mapsto> snd e)"
    using Cons.prems by (intro map_of_insert_entry) auto
  also have "(map_of es)(fst e \<mapsto> snd e) ++ map_of kvs = map_of es ++ map_of (e # kvs)"
  proof -
    have "map_of kvs (fst e) = None"
      using Cons.prems by (simp add: map_of_eq_None_iff)
    then show ?thesis by (intro ext) (simp add: map_add_def split: option.split)
  qed
  finally show ?case by (simp only: fold_simps)
qed simp

section \<open>Properties\<close>

text \<open>
  C9. Insertion is refinement of an insertion into a sorted list: on arrays that hold the sorted
  entries \<open>es\<close>, with a free cell, \<open>add_named_query\<close> never leaves the arrays and ends with arrays
  that hold the entries with the new one behind those of names that are not greater.
\<close>

theorem named_query_inserted:
  assumes "sorted_names es" and "cstring name" and "length es < n"
  shows "add_named_query name query (table_of n es) = Inr (table_of n (insert_entry (name, query) es))
    \<and> sorted_names (insert_entry (name, query) es)"
  using assms nq.add_tab sorted_names_insert [of es "(name, query)"] by simp

theorem named_query_inserted_witness:
  "add_named_query ''db'' ''SELECT 1'' (table_of 3 [(''a'', ''A''), (''z'', ''Z'')])
    = Inr (table_of 3 [(''a'', ''A''), (''db'', ''SELECT 1''), (''z'', ''Z'')])"
  using named_query_inserted [of "[(''a'', ''A''), (''z'', ''Z'')]" "''db''" 3 "''SELECT 1''"]
  by (simp add: sorted_names_def)

text \<open>
  C10. Round trip: when at most \<open>2 ^ 30\<close> queries of distinct names are inserted in any order into empty
  arrays of their number, the binary search for a name gives the query inserted under it, and NULL for any
  other name; it ends, and no index is out of the arrays.
\<close>

theorem inserted_queries_found:
  assumes "distinct (map fst kvs)" and "\<forall>e \<in> set kvs. cstring (fst e)"
    and "length kvs \<le> 2 ^ 30" and "cstring key"
  shows "bind_f (foldM_f (\<lambda>e. add_named_query (fst e) (snd e)) kvs (table_of (length kvs) []))
      (\<lambda>t. get_query_by_name t key) = Inr (map_of kvs key)"
proof -
  let ?es = "fold insert_entry kvs []"
  have sorted: "sorted_names ?es"
    using assms(2) by (intro sorted_names_fold) (simp_all add: sorted_names_def)
  have "foldM_f (\<lambda>e. add_named_query (fst e) (snd e)) kvs (table_of (length kvs) [])
      = Inr (table_of (length kvs) ?es)"
    using assms(2) by (intro nq.add_all) (simp_all add: sorted_names_def)
  moreover have "get_query_by_name (table_of (length kvs) ?es) key = Inr (map_of ?es key)"
    using assms by (intro nq.find_distinct [OF sorted])
      (simp_all add: fold_insert_entry distinct_fold_insert)
  ultimately show ?thesis using assms(1) map_of_fold_insert [of kvs "[]"] by simp
qed

theorem inserted_queries_found_witness:
  "bind_f (foldM_f (\<lambda>e. add_named_query (fst e) (snd e)) [(''b'', ''B''), (''a'', ''A'')] (table_of (Suc (Suc 0)) []))
    (\<lambda>t. get_query_by_name t ''a'') = Inr (Some ''A'')"
  using inserted_queries_found [of "[(''b'', ''B''), (''a'', ''A'')]" "''a''"]
  by simp

text \<open>
  C21. On a full sorted table of at most \<open>2 ^ 30\<close> distinct names, binary search is equivalent to
  the search from the first entry on: for every name it gives the query of that name, or NULL.
\<close>

theorem binary_search_is_lookup:
  assumes "sorted_names es" and "distinct (map fst es)" and "length es \<le> 2 ^ 30" and "cstring key"
  shows "get_query_by_name (table_of (length es) es) key
    = Inr (map_option snd (find (\<lambda>e. fst e = key) es))"
proof -
  have "map_of es key = map_option snd (find (\<lambda>e. fst e = key) es)"
    by (induction es) auto
  then show ?thesis using nq.find_distinct [OF assms(1,4) refl assms(3,2)] by simp
qed

theorem binary_search_is_lookup_witness:
  "get_query_by_name (table_of (length [(''a'', ''A''), (''c'', ''C''), (''d'', ''D'')])
    [(''a'', ''A''), (''c'', ''C''), (''d'', ''D'')]) ''c'' = Inr (Some ''C'')"
  using binary_search_is_lookup [of "[(''a'', ''A''), (''c'', ''C''), (''d'', ''D'')]" "''c''"]
  by (simp add: sorted_names_def)

text \<open>A search, whatever the order of the names: it ends, and what it finds has the name.\<close>

lemma search_loop_ends:
  assumes "n \<le> 2 ^ 30" and "n \<le> length (query_keys t)" and "n \<le> length (query_values t)"
    and "\<forall>i < n. query_keys t ! i \<noteq> None"
  shows "0 \<le> b \<Longrightarrow> top' < int n \<Longrightarrow>
    \<exists>r. search_loop t key b top' = Inr r \<and>
      (r = None \<or> (\<exists>i < n. \<exists>k. query_keys t ! i = Some k \<and> strcmp k key = 0 \<and> query_values t ! i = r))"
proof (induction "nat (top' - b + 1)" arbitrary: b top' rule: less_induct)
  case less
  show ?case
  proof (cases "b \<le> top'")
    case False
    then show ?thesis by (simp add: search_loop.simps)
  next
    case True
    define mid where "mid = (b + top') div 2"
    have mid: "b \<le> mid" "mid \<le> top'" using True by (simp_all add: mid_def)
    then have i: "nat mid < n" "0 \<le> mid" using less.prems by (simp_all add: nat_less_iff)
    then obtain k where k: "query_keys t ! nat mid = Some k" using assms(4) by blast
    have sum: "add_int b top' = Inr (b + top')"
      using less.prems True assms(1) by (simp add: add_int_def)
    have unfold: "search_loop t key b top' =
      (if strcmp k key = 0 then Inr (query_values t ! nat mid)
       else if strcmp k key > 0 then search_loop t key b (mid - 1)
       else search_loop t key (mid + 1) top')"
      using True sum i k assms(2,3) less.prems(1)
      by (subst search_loop.simps) (simp add: strcmp_ptr_def arr_get_def mid_def [symmetric])
    consider "strcmp k key = 0" | "strcmp k key > 0" | "strcmp k key < 0" by linarith
    then show ?thesis
    proof cases
      case 1
      then show ?thesis using unfold i(1) k by auto
    next
      case 2
      then show ?thesis using unfold less.hyps [of "mid - 1" b] less.prems mid by simp
    next
      case 3
      then show ?thesis using unfold less.hyps [of top' "mid + 1"] less.prems mid by simp
    qed
  qed
qed

text \<open>
  C22. The search ends on every table of at most \<open>2 ^ 30\<close> names whose cells up to the count are not NULL,
  in whatever order its names are, without reading outside of the arrays and without an overflow of its index; a query it
  returns is one of the table, with the name that was looked for.
\<close>

theorem search_always_ends:
  assumes "query_count t = int n" and "n \<le> 2 ^ 30"
    and "n \<le> length (query_keys t)" and "n \<le> length (query_values t)"
    and "\<forall>i < n. query_keys t ! i \<noteq> None"
  shows "\<exists>r. get_query_by_name t key = Inr r \<and>
    (r = None \<or> (\<exists>i < n. \<exists>k. query_keys t ! i = Some k \<and> strcmp k key = 0 \<and> query_values t ! i = r))"
  using search_loop_ends [OF assms(2-5), of 0 "int n - 1" key] assms(1)
  by (simp add: get_query_by_name_def)

theorem search_always_ends_witness:
  "\<exists>r. get_query_by_name \<lparr>query_keys = [Some ''z'', Some ''a''], query_values = [Some ''Z'', Some ''A''],
    query_count = 2\<rparr> ''a'' = Inr r"
  using search_always_ends [of "\<lparr>query_keys = [Some ''z'', Some ''a''],
      query_values = [Some ''Z'', Some ''A''], query_count = 2\<rparr>" 2 "''a''"]
  by (fastforce simp: less_2_cases_iff)

end
