(* ===== verification/Items.thy ===== *)
theory Items
  imports Refine QueryTable
begin

text \<open>
  What the item functions share: the part of the key they read a field name from, the texts made
  from templates, and the plans that specify the items: which texts and parameters are sent, and
  what becomes of the result.
\<close>

section \<open>Field names\<close>

text \<open>
  \<open>&request->key[n]\<close>: the address of the terminating NUL is still inside of the key, one further is
  not.
\<close>

definition key_from :: "agent_request \<Rightarrow> nat \<Rightarrow> fault + string" where
  "key_from request n =
     (if n \<le> length (req_key request) then Inr (drop n (req_key request)) else Inl Out_of_bounds)"

text \<open>The version of the server, in the \<open>int\<close> variable of the callers.\<close>

definition int_version :: "env \<Rightarrow> agent_request \<Rightarrow> result_ptr \<Rightarrow> int mcmd" where
  "int_version E request result =
     bind_c (pg_version E request result) (\<lambda>v. return_c (to_int32 v))"

text \<open>\<open>return set_err_result(...)\<close>, and the equivalent jump to the end of the function.\<close>

definition reject :: "env \<Rightarrow> result_ptr \<Rightarrow> string \<Rightarrow> farg list \<Rightarrow> sysinfo_ret mcmd" where
  "reject E result format args =
     seq_c (set_err_result E result format args) (return_c SYSINFO_RET_FAIL)"

section \<open>Templates\<close>

text \<open>A template is a text with holes \<open>%s\<close>; filling it is total.\<close>

fun fill :: "string \<Rightarrow> string list \<Rightarrow> string" where
  "fill [] args = []"
| "fill [c] args = [c]"
| "fill (c # d # f) args =
     (if c = CHR ''%'' then
        (case args of [] \<Rightarrow> c # d # f | a # rest \<Rightarrow> a @ fill f rest)
      else c # fill (d # f) args)"

text \<open>The number of holes of a text without any other directive.\<close>

fun holes :: "string \<Rightarrow> nat option" where
  "holes [] = Some 0"
| "holes [c] = (if c = CHR ''%'' then None else Some 0)"
| "holes (c # d # f) =
     (if c = CHR ''%'' then (if d = CHR ''s'' then map_option Suc (holes f) else None)
      else holes (d # f))"

abbreviation str_args :: "string list \<Rightarrow> farg list" where
  "str_args \<equiv> map (\<lambda>a. AStr (Some a))"

lemma c_format_fill:
  "holes fmt = Some (length args) \<Longrightarrow> c_format fmt (str_args args) = Inr (fill fmt args)"
  by (induction fmt args rule: fill.induct) (auto split: if_splits list.splits)

lemma length_fill:
  "length (fill fmt args) \<le> length fmt + sum_list (map length args)"
  by (induction fmt args rule: fill.induct) (auto split: list.splits simp: add.commute le_SucI)

text \<open>A text that fits into its buffer is written in full.\<close>

lemma snprintf_fill:
  assumes "zabbix_ok E" and "holes fmt = Some (length args)"
    and "length fmt + sum_list (map length args) < n"
  shows "snprintf E n fmt (str_args args) = Inr (fill fmt args)"
proof -
  have "length (fill fmt args) < n" using length_fill [of fmt args] assms(3) by simp
  then show ?thesis
    using assms(1) c_format_fill [OF assms(2)] by (simp add: snprintf_def zabbix_ok_def)
qed

lemma snprintf_fill1:
  "zabbix_ok E \<Longrightarrow> holes fmt = Some 1 \<Longrightarrow> length fmt + length a < n \<Longrightarrow>
    snprintf E n fmt [AStr (Some a)] = Inr (fill fmt [a])"
  using snprintf_fill [of E fmt "[a]" n] by simp

section \<open>Local arrays\<close>

text \<open>
  An array of \<open>n\<close> bytes that holds a text and is zero behind it, and a write of a further text at
  its end.
\<close>

definition array_text :: "nat \<Rightarrow> string \<Rightarrow> char list" where
  "array_text n t = t @ NUL # replicate (n - Suc (length t)) NUL"

lemma put_array:
  assumes "cstring u" and "length (t @ u) < n"
  shows "copy_chars (array_text n t) (length t) u = Inr (array_text n (t @ u), length (t @ u))"
  using copy_chars_run [OF assms(1), of "NUL # replicate (n - Suc (length t)) NUL" t] assms(2)
  by (simp add: array_text_def)

lemma c_str_array: "cstring t \<Longrightarrow> c_str (array_text n t) 0 = Inr t"
  using c_str_run [of t "[]"] by (simp add: array_text_def)

lemma c_str_array_end: "cstring u \<Longrightarrow> c_str (array_text n (t @ u)) (length t) = Inr u"
  using c_str_run [of u t] by (simp add: array_text_def)

section \<open>Plans\<close>

text \<open>
  The specification of an item: refuse the request with a message; answer at once; report whether
  the server can be reached; ask for a value, for rows in one or in all databases, or for a row that
  is used in a way of its own; or decide after asking for the version of the server.
\<close>

datatype plan =
    Refuse string
  | Answer "agent_result \<Rightarrow> agent_result"
  | Probe
  | Value ar_type string "string list"
  | Rows string "string list"
  | Rows_everywhere string
  | Session string "string list" "result_ptr \<Rightarrow> pgresult \<Rightarrow> (view, sysinfo_ret) cmd"
  | By_version "int \<Rightarrow> plan"

primrec run_plan :: "env \<Rightarrow> agent_request \<Rightarrow> result_ptr \<Rightarrow> plan \<Rightarrow> (view, sysinfo_ret) cmd" where
  "run_plan E request result (Refuse msg) = sp_reject E result msg"
| "run_plan E request result (Answer f) = seq_c (sp_answer f) (return_c SYSINFO_RET_OK)"
| "run_plan E request result Probe =
     bind_c (sp_connect E (request_connstring request) NULL_RESULT) (\<lambda>conn.
     seq_c (sp_answer (\<lambda>a. a\<lparr>res_ui64 := Some (if conn = None then 0 else 1)\<rparr>))
     (seq_c (sp_emit (if conn = None then [] else [EFinish]))
     (return_c SYSINFO_RET_OK)))"
| "run_plan E request result (Value type query xs) = sp_value E request result type query xs"
| "run_plan E request result (Rows query xs) = sp_discovery E request result query xs"
| "run_plan E request result (Rows_everywhere query) = sp_discovery_wide E request result query"
| "run_plan E request result (Session query xs body) =
     sp_session E (request_connstring request) result query xs SYSINFO_RET_FAIL (body result)"
| "run_plan E request result (By_version f) =
     bind_c (sp_version E request result) (\<lambda>v.
     if to_int32 v = 0 then return_c SYSINFO_RET_FAIL
     else run_plan E request result (f (to_int32 v)))"

lemma reject_refines:
  assumes "call_ok E request s" and "c_format format args = Inr msg"
  shows "refines {} id (reject E result format args) (run_plan E request result (Refuse msg)) s"
  unfolding reject_def run_plan.simps sp_reject_def
  by (rule reject_refines_body [OF _ assms(2)]) (use call_okD [OF assms(1)] in auto)

lemma by_version_refines:
  assumes ok: "call_ok E request s"
    and f: "\<And>v t. call_ok E request t \<Longrightarrow> framed {} s t \<Longrightarrow> v \<noteq> 0 \<Longrightarrow>
      refines F id (m v) (run_plan E request result (f v)) t"
  shows "refines F id
    (bind_c (int_version E request result) (\<lambda>version.
      if version = 0 then return_c SYSINFO_RET_FAIL else m version))
    (run_plan E request result (By_version f)) s"
proof -
  have "refines F id (bind_c (pg_version E request result) (\<lambda>v.
      if to_int32 v = 0 then return_c SYSINFO_RET_FAIL else m (to_int32 v)))
    (run_plan E request result (By_version f)) s"
    unfolding run_plan.simps
    by (rule refines_bind_untouched [OF version_refines [OF ok]])
      (use f in \<open>auto intro: refines_return framed_fresh call_ok_framed [OF ok]\<close>)
  then show ?thesis by (simp add: int_version_def bind_c_assoc cmd_simps)
qed

text \<open>The discovery items with a search mode.\<close>

definition mode_plan :: "string option \<Rightarrow> string \<Rightarrow> plan" where
  "mode_plan mode query =
     (if strisnull mode \<or> the mode = ''deep'' then Rows_everywhere query
      else if the mode = ''shallow'' then Rows query []
      else Refuse (''Invalid search mode parameter: '' @ the mode))"

lemma mode_refines:
  assumes ok: "call_ok E request s" and mode: "cstring_ptr mode"
  shows "refines {} id
    (if strisnull mode \<or> strcmp (the mode) ''deep'' = 0 then
       pg_get_discovery_wide E request result query None
     else if strcmp (the mode) ''shallow'' = 0 then
       pg_get_discovery E request result query None
     else reject E result ''Invalid search mode parameter: %s'' [AStr mode])
    (run_plan E request result (mode_plan mode query)) s"
proof -
  have cs: "cstring ''deep''" "cstring ''shallow''" by (simp_all add: cstring_def)
  show ?thesis
  proof (cases mode)
    case None
    then show ?thesis using wide_refines [OF ok] by (simp add: mode_plan_def)
  next
    case (Some m)
    then have "cstring m" using mode by (simp add: cstring_ptr_def)
    then have "strcmp m ''deep'' = 0 \<longleftrightarrow> m = ''deep''" "strcmp m ''shallow'' = 0 \<longleftrightarrow> m = ''shallow''"
      using strcmp_eq_0_iff cs by blast+
    moreover have "refines {} id (reject E result ''Invalid search mode parameter: %s'' [AStr (Some m)])
        (run_plan E request result (Refuse (''Invalid search mode parameter: '' @ m))) s"
      by (rule reject_refines [OF ok]) simp
    ultimately show ?thesis
      using Some wide_refines [OF ok] discovery_refines [OF ok] by (simp add: mode_plan_def)
  qed
qed

lemma request_param: "call_ok E request s \<Longrightarrow> cstring_ptr (get_rparam request i)"
  by (simp add: call_ok_def request_ok_def)

text \<open>A quotient of two columns.\<close>

definition percentage_text :: "string \<Rightarrow> string \<Rightarrow> string \<Rightarrow> string option \<Rightarrow> string" where
  "percentage_text table col1 col2 filter_column =
     ''SELECT CASE WHEN ('' @ col2 @ '') = 0 THEN 1 ELSE ('' @ col1 @ '')::float / ('' @ col2 @
     '') END FROM '' @ table @
     (case filter_column of None \<Rightarrow> [] | Some c \<Rightarrow> '' WHERE '' @ c @ '' = $1'')"

lemma percentage_query_text:
  assumes E: "zabbix_ok E" and f: "filter_column \<noteq> Some []"
    and len: "length table + length col1 + 2 * length col2 + length (str0 filter_column) < 400"
  shows "percentage_query E table col1 col2 filter_column = Inr (percentage_text table col1 col2 filter_column)"
proof -
  let ?q = "percentage_text table col1 col2 None"
  have q: "c_format ''SELECT CASE WHEN (%s) = 0 THEN 1 ELSE (%s)::float / (%s) END FROM %s''
      [AStr (Some col2), AStr (Some col1), AStr (Some col2), AStr (Some table)] = Inr ?q"
    by (simp add: percentage_text_def)
  have short: "length ?q < 600" using len by (simp add: percentage_text_def)
  then have sn: "snprintf E (MAX_STRING_LEN E)
      ''SELECT CASE WHEN (%s) = 0 THEN 1 ELSE (%s)::float / (%s) END FROM %s''
      [AStr (Some col2), AStr (Some col1), AStr (Some col2), AStr (Some table)] = Inr ?q"
    unfolding snprintf_def q using E by (simp add: zabbix_ok_def)
  show ?thesis
  proof (cases filter_column)
    case None
    then show ?thesis unfolding percentage_query_def sn by simp
  next
    case (Some c)
    have "snprintf E (MAX_STRING_LEN E - length ?q) '' WHERE %s = $1'' [AStr (Some c)]
        = Inr ('' WHERE '' @ c @ '' = $1'')"
      using E short len Some by (simp add: snprintf_def zabbix_ok_def str0_def)
    then show ?thesis
      using Some f unfolding percentage_query_def sn
      by (simp add: Let_def percentage_text_def)
  qed
qed

lemma percentage_refines:
  assumes ok: "call_ok E request s" and E: "zabbix_ok E" and f: "filter_column \<noteq> Some []"
    and len: "length table + length col1 + 2 * length col2 + length (str0 filter_column) < 400"
  shows "refines {} id (pg_get_percentage E request result table col1 col2 filter_column v)
    (run_plan E request result (Value AR_DOUBLE (percentage_text table col1 col2 filter_column) (given v))) s"
  unfolding pg_get_percentage_def percentage_query_text [OF E f len] bind_c_lift
  by (rule refines_traced, simp) (simp add: value_param_refines ok)

section \<open>Shapes of plans\<close>

text \<open>What \<open>get_query_by_name\<close> finds in the table of a state.\<close>

definition table_ok :: "(string \<Rightarrow> string option) \<Rightarrow> cstate \<Rightarrow> bool" where
  "table_ok named s \<longleftrightarrow> (\<forall>k. cstring k \<longrightarrow> get_query_by_name (queries s) k = Inr (named k))"

text \<open>An item function implements a plan, where the named queries are those of \<open>named\<close>.\<close>

definition implements ::
  "(string \<Rightarrow> string option) \<Rightarrow> (env \<Rightarrow> agent_request \<Rightarrow> result_ptr \<Rightarrow> sysinfo_ret mcmd)
     \<Rightarrow> env \<Rightarrow> agent_request \<Rightarrow> plan \<Rightarrow> bool" where
  "implements named item E request p \<longleftrightarrow>
     (\<forall>s result. call_ok E request s \<longrightarrow> table_ok named s \<longrightarrow>
        refines {} id (item E request result) (run_plan E request result p) s)"

lemma table_ok_noted [simp]: "table_ok named (noted E ms s) = table_ok named s"
  by (simp add: table_ok_def)

lemma implementsI:
  "(\<And>s result. call_ok E request s \<Longrightarrow> table_ok named s \<Longrightarrow>
      refines {} id (item E request result) (run_plan E request result p) s) \<Longrightarrow>
    implements named item E request p"
  by (simp add: implements_def)

text \<open>The item functions trace their entry and exit; an item is shown to implement a plan by its body.\<close>

lemma implements_traced:
  assumes "\<And>result. item E request result = traced E ''%s()'' [AStr (Some f)] (body result)"
    and "\<And>s result. call_ok E request s \<Longrightarrow> table_ok named s \<Longrightarrow>
      refines {} id (body result) (run_plan E request result p) s"
  shows "implements named item E request p"
proof (rule implementsI)
  fix s result
  assume "call_ok E request s" and "table_ok named s"
  then show "refines {} id (item E request result) (run_plan E request result p) s"
    unfolding assms(1) by (intro refines_traced assms(2)) simp_all
qed

text \<open>One text for all objects, another one with a parameter for a named object.\<close>

definition value_plan :: "ar_type \<Rightarrow> string option \<Rightarrow> string \<Rightarrow> string \<Rightarrow> plan" where
  "value_plan type v all one =
     (if strisnull v then Value type all [] else Value type one [the v])"

definition needed_plan :: "string option \<Rightarrow> string \<Rightarrow> (string \<Rightarrow> plan) \<Rightarrow> plan" where
  "needed_plan v msg p = (if strisnull v then Refuse msg else p (the v))"

lemma given_cases: "given v = (if strisnull v then [] else [the v])"
  by (simp add: given_def)

lemma value_plan_refines:
  assumes "call_ok E request s" and "plain_type type"
  shows "refines {} id (bind_c (param_new v)
      (pg_get_result E request result type (if strisnull v then all else one)))
    (run_plan E request result (value_plan type v all one)) s"
  using value_param_refines [OF assms, of v result]
  by (cases "strisnull v") (simp_all add: value_plan_def given_cases)

lemma value_plan_split_refines:
  assumes "call_ok E request s" and "plain_type type"
  shows "refines {} id
      (if strisnull v then pg_get_result E request result type all None
       else bind_c (param_new v) (pg_get_result E request result type one))
    (run_plan E request result (value_plan type v all one)) s"
  using value_param_refines [OF assms, of v result] value_refines [OF assms]
  by (cases "strisnull v") (simp_all add: value_plan_def given_cases)

lemma needed_plan_refines:
  assumes ok: "call_ok E request s" and fmt: "c_format msg [] = Inr msg"
    and m: "\<not> strisnull v \<Longrightarrow> refines {} id m (run_plan E request result (p (the v))) s"
  shows "refines {} id (if strisnull v then reject E result msg [] else m)
    (run_plan E request result (needed_plan v msg p)) s"
  using m reject_refines [OF ok fmt] by (simp add: needed_plan_def)

lemma param_none [simp]: "param_new (if strisnull v then None else v) = param_new v"
  by (auto simp: param_new_def param_append_def strisnull_def split: option.splits)

text \<open>A key from which a field name can be read.\<close>

definition key_ok :: "agent_request \<Rightarrow> nat \<Rightarrow> bool" where
  "key_ok request n \<longleftrightarrow> n \<le> length (req_key request) \<and> length (req_key request) < 100"

lemma key_from_run: "key_ok request n \<Longrightarrow> key_from request n = Inr (drop n (req_key request))"
  by (simp add: key_ok_def key_from_def)

lemma field_text:
  assumes "zabbix_ok E" and "key_ok request n" and "holes fmt = Some 1" and "length fmt < 1000"
  shows "snprintf E (MAX_STRING_LEN E) fmt [AStr (Some (drop n (req_key request)))]
    = Inr (fill fmt [drop n (req_key request)])"
  using assms by (intro snprintf_fill1) (auto simp: key_ok_def zabbix_ok_def)

lemma field_prefix:
  "request_ok request \<Longrightarrow> cstring p \<Longrightarrow>
    strncmp (drop n (req_key request)) p k = 0 \<longleftrightarrow> take k (drop n (req_key request)) = take k p"
  by (rule strncmp_eq_0_iff) (auto simp: request_ok_def cstring_def dest: in_set_dropD)

text \<open>A quotient, of all objects or of a named one.\<close>

definition ratio_plan ::
  "string option \<Rightarrow> string \<Rightarrow> string \<Rightarrow> string \<Rightarrow> string \<Rightarrow> string \<Rightarrow> string \<Rightarrow> plan" where
  "ratio_plan v table sum1 sum2 col1 col2 name_column =
     value_plan AR_DOUBLE v (percentage_text table sum1 sum2 None)
       (percentage_text table col1 col2 (Some name_column))"

lemma ratio_refines:
  assumes ok: "call_ok E request s" and E: "zabbix_ok E" and f: "name_column \<noteq> []"
    and len: "length table + length sum1 + 2 * length sum2 < 400"
      "length table + length col1 + 2 * length col2 + length name_column < 400"
  shows "refines {} id
    (if strisnull v then pg_get_percentage E request result table sum1 sum2 None None
     else pg_get_percentage E request result table col1 col2 (Some name_column) v)
    (run_plan E request result (ratio_plan v table sum1 sum2 col1 col2 name_column)) s"
  using percentage_refines [OF ok E, of None table sum1 sum2 result None]
    percentage_refines [OF ok E, of "Some name_column" table col1 col2 result v] f len
  by (cases "strisnull v") (simp_all add: ratio_plan_def value_plan_def given_cases str0_def)

end
