(* ===== verification/Server.thy ===== *)
theory Server
  imports Items
begin

text \<open>
  Items of the server as a whole (\<open>pg_server.c\<close>) and the version of the module (\<open>MODVER\<close> of
  \<open>libzbxpgsql.c\<close>).
\<close>

definition PGSQL_GET_VERSION :: string where
  [sql_texts]: "PGSQL_GET_VERSION =
     ''SELECT version();''"

definition PGSQL_GET_STARTTIME :: string where
  [sql_texts]: "PGSQL_GET_STARTTIME =
     ''SELECT pg_postmaster_start_time();''"

definition PGSQL_GET_UPTIME :: string where
  [sql_texts]: "PGSQL_GET_UPTIME =
     ''SELECT EXTRACT(EPOCH FROM NOW()) - EXTRACT(EPOCH FROM pg_postmaster_start_time());''"

text \<open>\<open>PACKAGE_STRING\<close>, as \<open>configure.ac\<close> defines it.\<close>

definition PACKAGE_STRING :: string where
  "PACKAGE_STRING = ''libzbxpgsql 1.1.0''"

definition MODVER :: "env \<Rightarrow> agent_request \<Rightarrow> result_ptr \<Rightarrow> sysinfo_ret mcmd" where
  "MODVER E request result =
     traced E ''%s'' [AStr (Some ''MODVER'')]
       (bind_c (lift_c (snprintf E (MAX_STRING_LEN E) ''%s, compiled for Zabbix %s''
                 [AStr (Some PACKAGE_STRING), AStr (Some (ZABBIX_VERSION E))])) (\<lambda>buffer.
       seq_c (SET_STR_RESULT buffer) (return_c SYSINFO_RET_OK)))"

text \<open>\<open>pg.connect\<close> reports a refused connection as the value 0, without a message.\<close>

definition PG_CONNECT :: "env \<Rightarrow> agent_request \<Rightarrow> result_ptr \<Rightarrow> sysinfo_ret mcmd" where
  "PG_CONNECT E request result =
     traced E ''%s()'' [AStr (Some ''PG_CONNECT'')]
       (bind_c (pg_connect_request E request NULL_RESULT) (\<lambda>conn.
       seq_c
         (case conn of
            None \<Rightarrow> SET_UI64_RESULT 0
          | Some a \<Rightarrow>
              bind_c (fetch_conn a) (\<lambda>c.
              if PQstatus c = CONNECTION_OK then
                seq_c (SET_UI64_RESULT 1) (PQfinish conn)
              else SET_UI64_RESULT 0))
       (return_c SYSINFO_RET_OK)))"

definition PG_VERSION :: "env \<Rightarrow> agent_request \<Rightarrow> result_ptr \<Rightarrow> sysinfo_ret mcmd" where
  "PG_VERSION E request result =
     traced E ''%s()'' [AStr (Some ''PG_VERSION'')]
       (pg_get_string E request result PGSQL_GET_VERSION None)"

definition PG_STARTTIME :: "env \<Rightarrow> agent_request \<Rightarrow> result_ptr \<Rightarrow> sysinfo_ret mcmd" where
  "PG_STARTTIME E request result =
     traced E ''%s()'' [AStr (Some ''PG_STARTTIME'')]
       (pg_get_string E request result PGSQL_GET_STARTTIME None)"

definition PG_UPTIME :: "env \<Rightarrow> agent_request \<Rightarrow> result_ptr \<Rightarrow> sysinfo_ret mcmd" where
  "PG_UPTIME E request result =
     traced E ''%s()'' [AStr (Some ''PG_UPTIME'')]
       (pg_get_int E request result PGSQL_GET_UPTIME None)"

definition XACTS_COUNT :: string where
  [sql_texts]: "XACTS_COUNT = ''SELECT COUNT (transaction) FROM pg_prepared_xacts;''"

definition XACTS_COUNT_DB :: string where
  [sql_texts]: "XACTS_COUNT_DB =
     ''SELECT COUNT (transaction) FROM pg_prepared_xacts WHERE database = $1;''"

definition PG_PREPARED_XACTS_COUNT :: "env \<Rightarrow> agent_request \<Rightarrow> result_ptr \<Rightarrow> sysinfo_ret mcmd" where
  "PG_PREPARED_XACTS_COUNT E request result =
     traced E ''%s()'' [AStr (Some ''PG_PREPARED_XACTS_COUNT'')]
       (let datname = get_rparam request PARAM_FIRST in
        if strisnull datname then pg_get_int E request result XACTS_COUNT None
        else
          bind_c (param_new datname) (\<lambda>params.
          pg_get_int E request result XACTS_COUNT_DB params))"

definition XACTS_RATIO :: string where
  [sql_texts]: "XACTS_RATIO =
     ''SELECT '' @
     ''  CASE '' @
     ''    WHEN setting::integer = 0 THEN 0.00 '' @
     ''    ELSE ((SELECT COUNT (transaction) FROM pg_prepared_xacts)::float / setting::integer) '' @
     ''  END '' @
     ''FROM pg_settings '' @
     ''WHERE name = 'max_prepared_transactions';''"

definition PG_PREPARED_XACTS_RATIO :: "env \<Rightarrow> agent_request \<Rightarrow> result_ptr \<Rightarrow> sysinfo_ret mcmd" where
  "PG_PREPARED_XACTS_RATIO E request result =
     traced E ''%s()'' [AStr (Some ''PG_PREPARED_XACTS_RATIO'')]
       (pg_get_dbl E request result XACTS_RATIO None)"

definition XACTS_AGE :: string where
  [sql_texts]: "XACTS_AGE =
     ''SELECT '' @
     ''  COALESCE(MAX((EXTRACT(EPOCH FROM NOW()) - EXTRACT(EPOCH FROM prepared))::integer), 0) '' @
     ''FROM pg_prepared_xacts;''"

definition XACTS_AGE_DB :: string where
  [sql_texts]: "XACTS_AGE_DB =
     ''SELECT '' @
     ''  COALESCE(MAX((EXTRACT(EPOCH FROM NOW()) - EXTRACT(EPOCH FROM prepared))::integer), 0) '' @
     ''FROM pg_prepared_xacts '' @
     ''WHERE database = $1;''"

definition PG_PREPARED_XACTS_AGE :: "env \<Rightarrow> agent_request \<Rightarrow> result_ptr \<Rightarrow> sysinfo_ret mcmd" where
  "PG_PREPARED_XACTS_AGE E request result =
     traced E ''%s()'' [AStr (Some ''PG_PREPARED_XACTS_AGE'')]
       (let datname = get_rparam request PARAM_FIRST in
        if strisnull datname then pg_get_int E request result XACTS_AGE None
        else
          bind_c (param_new datname) (\<lambda>params.
          pg_get_int E request result XACTS_AGE_DB params))"

section \<open>Plans\<close>

lemma MODVER_implements:
  assumes "zabbix_ok E" and "length (ZABBIX_VERSION E) < 1000"
  shows "implements named MODVER E request
    (Answer (\<lambda>a. a\<lparr>res_str := Some (PACKAGE_STRING @ '', compiled for Zabbix '' @ ZABBIX_VERSION E)\<rparr>))"
proof (rule implementsI)
  fix s result
  assume ok: "call_ok E request s"
  have "snprintf E (MAX_STRING_LEN E) ''%s, compiled for Zabbix %s''
      [AStr (Some PACKAGE_STRING), AStr (Some (ZABBIX_VERSION E))]
    = Inr (PACKAGE_STRING @ '', compiled for Zabbix '' @ ZABBIX_VERSION E)"
    using assms by (simp add: snprintf_def zabbix_ok_def PACKAGE_STRING_def)
  then show "refines {} id (MODVER E request result) (run_plan E request result
      (Answer (\<lambda>a. a\<lparr>res_str := Some (PACKAGE_STRING @ '', compiled for Zabbix '' @ ZABBIX_VERSION E)\<rparr>))) s"
    unfolding MODVER_def using call_okD [OF ok]
    by (intro refines_traced)
      (simp_all add: SET_STR_RESULT_def refines_def sp_runs view_of_def framed_def fresh_ok_def)
qed

text \<open>\<open>pg.connect\<close> never fails and reports no message.\<close>

lemma PG_CONNECT_implements: "implements named PG_CONNECT E request Probe"
proof (rule implements_traced [OF PG_CONNECT_def], goal_cases)
  case (1 s result)
  let ?cs = "request_connstring request" and ?conn = "PQconnectdb E (trace s) (request_connstring request)"
  have fresh: "fresh_ok s" and req: "request_ok request" using call_okD [OF 1(1)] by auto
  show ?case (is "refines {} id ?body _ s")
  proof (cases "PQstatus ?conn = CONNECTION_OK")
    case True
    have "?body s = Inr (SYSINFO_RET_OK, noted E (connect_notes ?cs)
        (s\<lparr>store := (store s)(Suc (next_id s) := None), next_id := Suc (Suc (next_id s)),
          trace := trace s @ [EConnect ?cs, EFinish], answer := (answer s)\<lparr>res_ui64 := Some 1\<rparr>\<rparr>))"
      using True pg_connect_request_accepted [OF fresh req True]
      by (simp add: SET_UI64_RESULT_def PQfinish_def fetch_conn_def
          fetch_def release_def log_event_def bind_c_run seq_c_run cmd_simps)
    then show ?thesis
      using True fresh by (intro refines_Inr)
        (auto simp: sp_connect_def Let_def sp_runs view_of_def framed_def fresh_ok_def)
  next
    case False
    show ?thesis
    proof (cases "c_format (PQerrorMessage ?conn) []")
      case (Inl e)
      then have "?body s = Inl e"
        using pg_connect_request_fault [OF req False] by (simp add: bind_c_run)
      then show ?thesis using False Inl
        by (intro refines_Inl) (simp_all add: sp_connect_def Let_def sp_runs view_of_def)
    next
      case (Inr msg)
      then have "?body s = Inr (SYSINFO_RET_OK, noted E (connect_notes ?cs)
          (s\<lparr>next_id := Suc (Suc (next_id s)),
            trace := trace s @ EConnect ?cs # err_log E msg @ [EFinish],
            answer := (answer s)\<lparr>res_ui64 := Some 0\<rparr>\<rparr>))"
        using pg_connect_request_refused [OF fresh req False]
        by (simp add: SET_UI64_RESULT_def set_msg_def bind_c_run seq_c_run cmd_simps)
      then show ?thesis
        using False Inr fresh by (intro refines_Inr)
          (auto simp: sp_connect_def Let_def sp_runs view_of_def framed_def fresh_ok_def set_msg_def)
    qed
  qed
qed

lemma PG_VERSION_implements:
  "implements named PG_VERSION E request
    (Value AR_STRING PGSQL_GET_VERSION [])"
  by (rule implements_traced [OF PG_VERSION_def]) (simp add: value_refines)

lemma PG_STARTTIME_implements:
  "implements named PG_STARTTIME E request
    (Value AR_STRING PGSQL_GET_STARTTIME [])"
  by (rule implements_traced [OF PG_STARTTIME_def]) (simp add: value_refines)

lemma PG_UPTIME_implements:
  "implements named PG_UPTIME E request
    (Value AR_UINT64 PGSQL_GET_UPTIME [])"
  by (rule implements_traced [OF PG_UPTIME_def]) (simp add: value_refines)

lemma PG_PREPARED_XACTS_RATIO_implements:
  "implements named PG_PREPARED_XACTS_RATIO E request
    (Value AR_DOUBLE XACTS_RATIO [])"
  by (rule implements_traced [OF PG_PREPARED_XACTS_RATIO_def]) (simp add: value_refines)

lemma PG_PREPARED_XACTS_COUNT_implements:
  "implements named PG_PREPARED_XACTS_COUNT E request
    (value_plan AR_UINT64 (get_rparam request PARAM_FIRST) XACTS_COUNT XACTS_COUNT_DB)"
  by (rule implements_traced [OF PG_PREPARED_XACTS_COUNT_def]) (simp add: Let_def value_plan_split_refines)

lemma PG_PREPARED_XACTS_AGE_implements:
  "implements named PG_PREPARED_XACTS_AGE E request
    (value_plan AR_UINT64 (get_rparam request PARAM_FIRST) XACTS_AGE XACTS_AGE_DB)"
  by (rule implements_traced [OF PG_PREPARED_XACTS_AGE_def]) (simp add: Let_def value_plan_split_refines)

end
