(* ===== verification/Bgwriter.thy ===== *)
theory Bgwriter
  imports Items
begin

text \<open>
  Items of the background writer and of checkpoints (\<open>pg_bgwriter.c\<close>).
\<close>


definition BGWRITER_STAT :: string where
  [sql_texts]: "BGWRITER_STAT = ''SELECT %s FROM pg_stat_bgwriter;''"

definition PG_STAT_BGWRITER :: "env \<Rightarrow> agent_request \<Rightarrow> result_ptr \<Rightarrow> sysinfo_ret mcmd" where
  "PG_STAT_BGWRITER E request result =
     traced E ''%s()'' [AStr (Some ''PG_STAT_BGWRITER'')]
       (bind_c (lift_c (key_from request 3)) (\<lambda>field.
       bind_c (lift_c (snprintf E (MAX_STRING_LEN E) BGWRITER_STAT [AStr (Some field)])) (\<lambda>query.
       if strncmp field ''checkpoint_'' 11 = 0 then pg_get_dbl E request result query None
       else if strncmp field ''stats_reset'' 11 = 0 then pg_get_string E request result query None
       else pg_get_int E request result query None)))"

definition STATS_RESET_INTERVAL :: string where
  [sql_texts]: "STATS_RESET_INTERVAL =
     ''SELECT EXTRACT(EPOCH FROM NOW() - stats_reset) from pg_stat_bgwriter;''"

definition PG_BG_STATS_RESET_INTERVAL :: "env \<Rightarrow> agent_request \<Rightarrow> result_ptr \<Rightarrow> sysinfo_ret mcmd" where
  "PG_BG_STATS_RESET_INTERVAL E request result =
     traced E ''%s()'' [AStr (Some ''PG_BG_STATS_RESET_INTERVAL'')]
       (pg_get_int E request result STATS_RESET_INTERVAL None)"

definition BG_AVG_INTERVAL :: string where
  [sql_texts]: "BG_AVG_INTERVAL =
     ''SELECT '' @
     ''    CASE checkpoints_timed + checkpoints_req '' @
     ''        WHEN 0 THEN 0 '' @
     ''        ELSE EXTRACT(EPOCH FROM (NOW() - stats_reset)) / (checkpoints_timed + checkpoints_req) '' @
     ''    END '' @
     ''FROM pg_stat_bgwriter;''"

definition PG_BG_AVG_INTERVAL :: "env \<Rightarrow> agent_request \<Rightarrow> result_ptr \<Rightarrow> sysinfo_ret mcmd" where
  "PG_BG_AVG_INTERVAL E request result =
     traced E ''%s()'' [AStr (Some ''PG_BG_AVG_INTERVAL'')]
       (pg_get_dbl E request result BG_AVG_INTERVAL None)"

definition BG_TIME_RATIO :: string where
  [sql_texts]: "BG_TIME_RATIO =
     ''SELECT '' @
     ''    (%s / 1000) / EXTRACT(EPOCH FROM NOW() - stats_reset) '' @
     ''FROM pg_stat_bgwriter;''"

text \<open>The column a value of the action parameter stands for.\<close>

definition bg_time_field :: "string option \<Rightarrow> string option" where
  "bg_time_field action =
     (if strisnull action \<or> strcmp (the action) ''all'' = 0
      then Some ''(checkpoint_write_time + checkpoint_sync_time)''
      else if strcmp (the action) ''write'' = 0 then Some ''checkpoint_write_time''
      else if strcmp (the action) ''sync'' = 0 then Some ''checkpoint_sync_time''
      else None)"

text \<open>The refusal of a value returns at once, before the message of the exit.\<close>

definition PG_BG_TIME_RATIO :: "env \<Rightarrow> agent_request \<Rightarrow> result_ptr \<Rightarrow> sysinfo_ret mcmd" where
  "PG_BG_TIME_RATIO E request result =
     seq_c (zabbix_log E LOG_LEVEL_DEBUG ''In %s()'' [AStr (Some ''PG_BG_TIME_RATIO'')])
     (let action = get_rparam request PARAM_FIRST in
      case bg_time_field action of
        None \<Rightarrow> reject E result ''Invalid action parameter: %s'' [AStr action]
      | Some field \<Rightarrow>
          bind_c (lift_c (snprintf E (MAX_STRING_LEN E) BG_TIME_RATIO [AStr (Some field)])) (\<lambda>query.
          bind_c (pg_get_dbl E request result query None) (\<lambda>ret.
          seq_c (zabbix_log E LOG_LEVEL_DEBUG ''End of %s()'' [AStr (Some ''PG_BG_TIME_RATIO'')])
          (return_c ret))))"

section \<open>Plans\<close>

text \<open>The type of a column of \<open>pg_stat_bgwriter\<close>.\<close>

definition bgwriter_type :: "string \<Rightarrow> ar_type" where
  "bgwriter_type field =
     (if take 11 field = ''checkpoint_'' then AR_DOUBLE
      else if take 11 field = ''stats_reset'' then AR_STRING else AR_UINT64)"

lemma PG_STAT_BGWRITER_implements:
  assumes "zabbix_ok E" and "key_ok request 3"
  shows "implements named PG_STAT_BGWRITER E request
    (let field = drop 3 (req_key request) in
      Value (bgwriter_type field) (fill BGWRITER_STAT [field]) [])"
proof (rule implements_traced [OF PG_STAT_BGWRITER_def], goal_cases)
  case (1 s result)
  note ok = 1(1)
  let ?f = "drop 3 (req_key request)"
  have req: "request_ok request" using call_okD [OF ok] by simp
  have q: "snprintf E (MAX_STRING_LEN E) BGWRITER_STAT [AStr (Some ?f)] = Inr (fill BGWRITER_STAT [?f])"
    by (rule field_text [OF assms]) (simp_all add: BGWRITER_STAT_def)
  have pre: "strncmp ?f ''checkpoint_'' 11 = 0 \<longleftrightarrow> take 11 ?f = ''checkpoint_''"
    "strncmp ?f ''stats_reset'' 11 = 0 \<longleftrightarrow> take 11 ?f = ''stats_reset''"
    by (subst field_prefix [OF req]; simp add: cstring_def)+
  show ?case
    unfolding key_from_run [OF assms(2)] bind_c_lift q pre Let_def
    by (simp add: bgwriter_type_def value_refines [OF ok])
qed

lemma PG_BG_STATS_RESET_INTERVAL_implements:
  "implements named PG_BG_STATS_RESET_INTERVAL E request
    (Value AR_UINT64 STATS_RESET_INTERVAL [])"
  by (rule implements_traced [OF PG_BG_STATS_RESET_INTERVAL_def]) (simp add: value_refines)

lemma PG_BG_AVG_INTERVAL_implements:
  "implements named PG_BG_AVG_INTERVAL E request
    (Value AR_DOUBLE BG_AVG_INTERVAL [])"
  by (rule implements_traced [OF PG_BG_AVG_INTERVAL_def]) (simp add: value_refines)

definition bg_time_plan :: "string option \<Rightarrow> plan" where
  "bg_time_plan action =
     (if strisnull action \<or> the action = ''all'' then
        Value AR_DOUBLE (fill BG_TIME_RATIO [''(checkpoint_write_time + checkpoint_sync_time)'']) []
      else if the action = ''write'' then Value AR_DOUBLE (fill BG_TIME_RATIO [''checkpoint_write_time'']) []
      else if the action = ''sync'' then Value AR_DOUBLE (fill BG_TIME_RATIO [''checkpoint_sync_time'']) []
      else Refuse (''Invalid action parameter: '' @ the action))"

lemma bg_time_field_plan:
  assumes "cstring_ptr action"
  shows "bg_time_plan action =
    (case bg_time_field action of
       None \<Rightarrow> Refuse (''Invalid action parameter: '' @ the action)
     | Some field \<Rightarrow> Value AR_DOUBLE (fill BG_TIME_RATIO [field]) [])"
    and "bg_time_field action = None \<Longrightarrow> \<not> strisnull action"
    and "bg_time_field action = Some field \<Longrightarrow> length field < 100"
proof -
  have cs: "cstring ''all''" "cstring ''write''" "cstring ''sync''" by (simp_all add: cstring_def)
  have "strcmp (the action) ''all'' = 0 \<longleftrightarrow> the action = ''all''"
    "strcmp (the action) ''write'' = 0 \<longleftrightarrow> the action = ''write''"
    "strcmp (the action) ''sync'' = 0 \<longleftrightarrow> the action = ''sync''" if "\<not> strisnull action"
    using that assms strcmp_eq_0_iff cs by (auto simp: cstring_ptr_def not_strisnull)
  then show "bg_time_plan action =
    (case bg_time_field action of
       None \<Rightarrow> Refuse (''Invalid action parameter: '' @ the action)
     | Some field \<Rightarrow> Value AR_DOUBLE (fill BG_TIME_RATIO [field]) [])"
    by (auto simp: bg_time_plan_def bg_time_field_def)
  show "bg_time_field action = None \<Longrightarrow> \<not> strisnull action"
    by (auto simp: bg_time_field_def)
  show "bg_time_field action = Some field \<Longrightarrow> length field < 100"
    by (auto simp: bg_time_field_def split: if_splits)
qed

lemma PG_BG_TIME_RATIO_implements:
  assumes "zabbix_ok E"
  shows "implements named PG_BG_TIME_RATIO E request
    (bg_time_plan (get_rparam request PARAM_FIRST))"
proof (rule implementsI)
  fix s result
  assume ok: "call_ok E request s"
  let ?a = "get_rparam request PARAM_FIRST"
  let ?s = "noted E [''In PG_BG_TIME_RATIO()''] s"
  have ok': "call_ok E request ?s" using ok by simp
  note f = bg_time_field_plan [OF request_param [OF ok, of PARAM_FIRST]]
  show "refines {} id (PG_BG_TIME_RATIO E request result) (run_plan E request result (bg_time_plan ?a)) s"
  proof (cases "bg_time_field ?a")
    case None
    then obtain a where "?a = Some a" using f(2) by (auto simp: not_strisnull)
    then show ?thesis
      using None f(1) reject_refines [OF ok', of "''Invalid action parameter: %s''" "[AStr (Some a)]"]
      by (simp add: PG_BG_TIME_RATIO_def refines_debug)
  next
    case (Some field)
    have "snprintf E (MAX_STRING_LEN E) BG_TIME_RATIO [AStr (Some field)] = Inr (fill BG_TIME_RATIO [field])"
      using assms f(3) [OF Some] by (intro snprintf_fill1) (simp_all add: BG_TIME_RATIO_def zabbix_ok_def)
    then have "PG_BG_TIME_RATIO E request result = traced E ''%s()'' [AStr (Some ''PG_BG_TIME_RATIO'')]
        (pg_get_dbl E request result (fill BG_TIME_RATIO [field]) None)"
      using Some by (simp add: PG_BG_TIME_RATIO_def traced_def cmd_simps)
    then show ?thesis
      using Some f(1) ok by (simp add: refines_traced value_refines)
  qed
qed

end
