(* ===== verification/Setting.thy ===== *)
theory Setting
  imports Items
begin

text \<open>
  Items of the configuration of the server (\<open>pg_setting.c\<close>).
\<close>

definition PGSQL_DISCOVER_SETTINGS :: string where
  [sql_texts]: "PGSQL_DISCOVER_SETTINGS =
     ''SELECT '' @
     ''    name AS setting'' @
     ''    , unit AS unit '' @
     ''    , category AS category '' @
     ''    , short_desc AS description '' @
     ''    , context AS context '' @
     ''    , vartype AS vartype '' @
     ''FROM pg_settings;''"

definition PGSQL_GET_SETTING :: string where
  [sql_texts]: "PGSQL_GET_SETTING =
     ''SELECT setting,vartype FROM pg_settings WHERE name=$1;''"

definition PG_SETTING_DISCOVERY :: "env \<Rightarrow> agent_request \<Rightarrow> result_ptr \<Rightarrow> sysinfo_ret mcmd" where
  "PG_SETTING_DISCOVERY E request result =
     traced E ''%s()'' [AStr (Some ''PG_SETTING_DISCOVERY'')]
       (pg_get_discovery E request result PGSQL_DISCOVER_SETTINGS None)"

text \<open>\<open>SET_STR_RESULT\<close> of a copy the function made itself: the agent owns the string afterwards.\<close>

definition give_string :: "nat \<Rightarrow> unit mcmd" where
  "give_string a = bind_c (fetch_str a) (\<lambda>v. seq_c (SET_STR_RESULT v) (release a))"

definition setting_result :: "env \<Rightarrow> nat \<Rightarrow> nat \<Rightarrow> unit mcmd" where
  "setting_result E value type =
     bind_c (fetch_str value) (\<lambda>v.
     bind_c (fetch_str type) (\<lambda>t.
     if strncmp ''integer'' t 7 = 0 then SET_UI64_RESULT (strtoull v)
     else if strncmp ''real'' t 4 = 0 then SET_DBL_RESULT (text_to_double E v)
     else give_string value))"

definition PG_SETTING :: "env \<Rightarrow> agent_request \<Rightarrow> result_ptr \<Rightarrow> sysinfo_ret mcmd" where
  "PG_SETTING E request result =
     seq_c (zabbix_log E LOG_LEVEL_DEBUG ''In %s()'' [AStr (Some ''PG_SETTING'')])
     (bind_c
       (let setting = get_rparam request PARAM_FIRST in
        if strisnull setting then reject E result ''No setting name specified'' []
        else
          bind_c (pg_connect_request E request result) (\<lambda>conn.
          case conn of
            None \<Rightarrow> return_c SYSINFO_RET_FAIL
          | Some c \<Rightarrow>
              bind_c (param_new setting) (\<lambda>params.
              bind_c (pg_exec E c PGSQL_GET_SETTING params) (\<lambda>res.
              bind_c (view_result res) (\<lambda>r.
              bind_c
                (if PQresultStatus r \<noteq> PGRES_TUPLES_OK then
                   reject E result ''PostgreSQL query error: %s''
                     [AStr (Some (PQresultErrorMessage r))]
                 else if PQntuples r = 0 then
                   seq_c (zabbix_log E LOG_LEVEL_DEBUG
                            (''No results returned for query '' @ [CHR 0x22] @ ''%s'' @ [CHR 0x22] @
                             '' in %s()'')
                            [AStr (Some PGSQL_GET_SETTING), AStr (Some ''PG_SETTING'')])
                   (return_c SYSINFO_RET_FAIL)
                 else
                   bind_c (lift_c (non_null (PQgetvalue r 0 0))) (\<lambda>v.
                   bind_c (strdup v) (\<lambda>value.
                   bind_c (lift_c (non_null (PQgetvalue r 0 1))) (\<lambda>t.
                   bind_c (strdup t) (\<lambda>type.
                   seq_c (setting_result E value type)
                   (return_c SYSINFO_RET_OK)))))) (\<lambda>ret.
              seq_c (PQclear res)
              (seq_c (PQfinish conn)
              (return_c ret))))))))
     (\<lambda>ret.
     seq_c (zabbix_log E LOG_LEVEL_DEBUG ''End of %s(%s)''
              [AStr (Some ''PG_SETTING''), AStr (Some (req_key request))])
     (return_c ret)))"

section \<open>Plans\<close>

lemma PG_SETTING_DISCOVERY_implements:
  "implements named PG_SETTING_DISCOVERY E request
    (Rows PGSQL_DISCOVER_SETTINGS [])"
  by (rule implements_traced [OF PG_SETTING_DISCOVERY_def]) (simp add: discovery_refines)

text \<open>The value of a setting in the type the server reports for it.\<close>

definition setting_answer :: "env \<Rightarrow> string \<Rightarrow> string \<Rightarrow> agent_result \<Rightarrow> agent_result" where
  "setting_answer E v t a =
     (if take 7 t = ''integer'' then a\<lparr>res_ui64 := Some (strtoull v)\<rparr>
      else if take 4 t = ''real'' then a\<lparr>res_dbl := Some (text_to_double E v)\<rparr>
      else a\<lparr>res_str := Some v\<rparr>)"

definition sp_setting :: "env \<Rightarrow> result_ptr \<Rightarrow> pgresult \<Rightarrow> (view, sysinfo_ret) cmd" where
  "sp_setting E result r =
     (if PQresultStatus r \<noteq> PGRES_TUPLES_OK then
        seq_c (sp_error E result (query_error r)) (return_c SYSINFO_RET_FAIL)
      else if PQntuples r = 0 then return_c SYSINFO_RET_FAIL
      else
        bind_c (lift_c (non_null (PQgetvalue r 0 0))) (\<lambda>v.
        bind_c (lift_c (non_null (PQgetvalue r 0 1))) (\<lambda>t.
        seq_c (sp_answer (setting_answer E v t)) (return_c SYSINFO_RET_OK))))"

definition setting_body :: "env \<Rightarrow> result_ptr \<Rightarrow> pgresult \<Rightarrow> sysinfo_ret mcmd" where
  "setting_body E result r =
     (if PQresultStatus r \<noteq> PGRES_TUPLES_OK then
        reject E result ''PostgreSQL query error: %s'' [AStr (Some (PQresultErrorMessage r))]
      else if PQntuples r = 0 then
        seq_c (zabbix_log E LOG_LEVEL_DEBUG
                 (''No results returned for query '' @ [CHR 0x22] @ ''%s'' @ [CHR 0x22] @ '' in %s()'')
                 [AStr (Some PGSQL_GET_SETTING), AStr (Some ''PG_SETTING'')])
        (return_c SYSINFO_RET_FAIL)
      else
        bind_c (lift_c (non_null (PQgetvalue r 0 0))) (\<lambda>v.
        bind_c (strdup v) (\<lambda>value.
        bind_c (lift_c (non_null (PQgetvalue r 0 1))) (\<lambda>t.
        bind_c (strdup t) (\<lambda>type.
        seq_c (setting_result E value type)
        (return_c SYSINFO_RET_OK))))))"

definition setting_call :: "env \<Rightarrow> agent_request \<Rightarrow> result_ptr \<Rightarrow> sysinfo_ret mcmd" where
  "setting_call E request result =
     (if strisnull (get_rparam request PARAM_FIRST) then reject E result ''No setting name specified'' []
      else session_new E request result PGSQL_GET_SETTING (get_rparam request PARAM_FIRST)
             SYSINFO_RET_FAIL (setting_body E result))"

lemma PG_SETTING_session:
  "PG_SETTING E request result =
     seq_c (zabbix_log E LOG_LEVEL_DEBUG ''In %s()'' [AStr (Some ''PG_SETTING'')])
     (bind_c (setting_call E request result) (\<lambda>ret.
     seq_c (zabbix_log E LOG_LEVEL_DEBUG ''End of %s(%s)''
              [AStr (Some ''PG_SETTING''), AStr (Some (req_key request))])
     (return_c ret)))"
  unfolding PG_SETTING_def setting_call_def session_new_def use_conn_def setting_body_def Let_def
  by (rule arg_cong [where f = "\<lambda>b. seq_c _ (bind_c b _)"],
      rule if_cong [OF refl refl], rule arg_cong [where f = "bind_c _"])
    (auto simp: fun_eq_iff split: option.split)

text \<open>What a setting leaves behind: the copy of the type, and of the value unless it was given away.\<close>

definition setting_left :: "env \<Rightarrow> string \<Rightarrow> string \<Rightarrow> cstate \<Rightarrow> cstate" where
  "setting_left E v t s =
     s\<lparr>store := (if take 7 t = ''integer'' \<or> take 4 t = ''real''
          then (store s)(next_id s \<mapsto> Str v, Suc (next_id s) \<mapsto> Str t)
          else (store s)(next_id s := None, Suc (next_id s) \<mapsto> Str t)),
       next_id := Suc (Suc (next_id s)), answer := setting_answer E v t (answer s)\<rparr>"

lemma setting_value_run:
  assumes "cstring t"
  shows "bind_c (strdup v) (\<lambda>value. bind_c (strdup t) (\<lambda>type.
      seq_c (setting_result E value type) (return_c SYSINFO_RET_OK))) s
    = Inr (SYSINFO_RET_OK, setting_left E v t s)"
proof -
  have "strncmp ''integer'' t 7 = 0 \<longleftrightarrow> take 7 t = ''integer''"
    "strncmp ''real'' t 4 = 0 \<longleftrightarrow> take 4 t = ''real''"
    using strncmp_eq_0_iff [of "''integer''" t 7] strncmp_eq_0_iff [of "''real''" t 4] assms
    by (auto simp: cstring_def)
  then show ?thesis
    by (auto simp: strdup_def alloc_def setting_result_def fetch_str_def fetch_def give_string_def
        release_def SET_STR_RESULT_def SET_UI64_RESULT_def SET_DBL_RESULT_def setting_left_def
        setting_answer_def bind_c_run seq_c_run cmd_simps fun_upd_twist)
qed

lemma setting_body_refines:
  assumes "fresh_ok s" and "good_result r"
  shows "refines {} id (setting_body E result r) (sp_setting E result r) s"
proof (cases "PQresultStatus r = PGRES_TUPLES_OK \<and> PQntuples r \<noteq> 0")
  case False
  then show ?thesis
    using reject_refines_body [OF assms(1) query_error_format, of id SYSINFO_RET_FAIL SYSINFO_RET_FAIL "{}" E result r]
      refines_return [of "noted E _ s" id SYSINFO_RET_FAIL] assms(1)
    by (auto simp: setting_body_def sp_setting_def reject_def intro!: refines_debug)
next
  case True
  show ?thesis
  proof (cases "PQgetvalue r 0 0")
    case None
    then show ?thesis using True
      by (intro refines_Inl) (simp_all add: setting_body_def sp_setting_def non_null_def bind_c_run cmd_simps)
  next
    case v: (Some v)
    show ?thesis
    proof (cases "PQgetvalue r 0 1")
      case None
      then show ?thesis using True v
        by (intro refines_Inl)
          (simp_all add: setting_body_def sp_setting_def non_null_def strdup_def alloc_def bind_c_run cmd_simps)
    next
      case t: (Some t)
      have "setting_body E result r = bind_c (strdup v) (\<lambda>value. bind_c (strdup t) (\<lambda>type.
          seq_c (setting_result E value type) (return_c SYSINFO_RET_OK)))"
        using True v t by (simp add: setting_body_def non_null_def cmd_simps)
      moreover have "cstring t" using assms(2) t by (auto simp: good_result_def)
      ultimately have "setting_body E result r s = Inr (SYSINFO_RET_OK, setting_left E v t s)"
        using setting_value_run by simp
      then show ?thesis
        using True v t assms(1)
        by (intro refines_Inr [where t = "setting_left E v t s"])
          (auto simp: sp_setting_def non_null_def sp_runs view_of_def setting_left_def framed_def
            fresh_ok_def)
    qed
  qed
qed

lemma PG_SETTING_implements:
  "implements named PG_SETTING E request
    (needed_plan (get_rparam request PARAM_FIRST) ''No setting name specified''
      (\<lambda>v. Session PGSQL_GET_SETTING [v] (sp_setting E)))"
proof (rule implementsI)
  fix s result
  assume ok: "call_ok E request s"
  let ?v = "get_rparam request PARAM_FIRST" and ?s = "noted E [''In PG_SETTING()''] s"
  let ?p = "needed_plan ?v ''No setting name specified'' (\<lambda>v. Session PGSQL_GET_SETTING [v] (sp_setting E))"
  have ok': "call_ok E request ?s" using ok by simp
  have "refines {} id (session_new E request result PGSQL_GET_SETTING ?v SYSINFO_RET_FAIL (setting_body E result))
      (sp_session E (request_connstring request) result PGSQL_GET_SETTING (given ?v) SYSINFO_RET_FAIL
        (sp_setting E result)) ?s"
    by (rule session_new_refines [OF ok' setting_body_refines]) simp_all
  then have call: "refines {} id (setting_call E request result) (run_plan E request result ?p) ?s"
    unfolding setting_call_def
    by (intro needed_plan_refines [OF ok']) (simp_all add: given_cases)
  have "PG_SETTING E request result s = (case setting_call E request result ?s of
      Inl e \<Rightarrow> Inl e
    | Inr (x, t) \<Rightarrow> Inr (x, noted E [''End of PG_SETTING('' @ req_key request @ '')''] t))"
    by (simp add: PG_SETTING_session seq_c_run bind_c_run cmd_simps split: sum.split)
  then show "refines {} id (PG_SETTING E request result) (run_plan E request result ?p) s"
    using call by (auto simp: refines_def split: sum.splits)
qed

end
