(* ===== verification/Namespace.thy ===== *)
theory Namespace
  imports Items
begin

text \<open>
  Items of schemas (\<open>pg_namespace.c\<close>).
\<close>

definition PGSQL_DISCOVER_NAMESPACES :: string where
  [sql_texts]: "PGSQL_DISCOVER_NAMESPACES =
     ''SELECT  '' @
     ''  n.oid AS oid, '' @
     ''  current_database() || '.' || n.nspname AS path, '' @
     ''  n.nspname AS schema, '' @
     ''  n.nspname AS namespace, '' @
     ''  current_database() AS database, '' @
     ''  pg_catalog.pg_get_userbyid(n.nspowner) AS owner, '' @
     ''  pg_catalog.obj_description(n.oid, 'pg_namespace') AS description '' @
     ''FROM pg_catalog.pg_namespace n '' @
     ''WHERE  '' @
     ''  n.nspname !~ '^pg_'  '' @
     ''  AND n.nspname <> 'information_schema' '' @
     ''ORDER BY namespace;''"

definition PGSQL_GET_NS_SIZE :: string where
  [sql_texts]: "PGSQL_GET_NS_SIZE =
     ''SELECT '' @
     ''  SUM(pg_relation_size(quote_ident(schemaname) || '.' || quote_ident(tablename))::bigint) '' @
     ''FROM pg_tables '' @
     ''WHERE schemaname = $1''"

definition PG_NAMESPACE_DISCOVERY :: "env \<Rightarrow> agent_request \<Rightarrow> result_ptr \<Rightarrow> sysinfo_ret mcmd" where
  "PG_NAMESPACE_DISCOVERY E request result =
     traced E ''%s()'' [AStr (Some ''PG_NAMESPACE_DISCOVERY'')]
       (let mode = get_rparam request PARAM_FIRST in
        if strisnull mode \<or> strcmp (the mode) ''deep'' = 0 then
          pg_get_discovery_wide E request result PGSQL_DISCOVER_NAMESPACES None
        else if strcmp (the mode) ''shallow'' = 0 then
          pg_get_discovery E request result PGSQL_DISCOVER_NAMESPACES None
        else reject E result ''Invalid search mode parameter: %s'' [AStr mode])"

definition PG_NAMESPACE_SIZE :: "env \<Rightarrow> agent_request \<Rightarrow> result_ptr \<Rightarrow> sysinfo_ret mcmd" where
  "PG_NAMESPACE_SIZE E request result =
     traced E ''%s()'' [AStr (Some ''PG_NAMESPACE_SIZE'')]
       (let schema = get_rparam request PARAM_FIRST in
        if strisnull schema then reject E result ''No schema name specified'' []
        else
          bind_c (param_new schema) (\<lambda>params.
          pg_get_int E request result PGSQL_GET_NS_SIZE params))"

section \<open>Plans\<close>

lemma PG_NAMESPACE_DISCOVERY_implements:
  "implements named PG_NAMESPACE_DISCOVERY E request
    (mode_plan (get_rparam request PARAM_FIRST) PGSQL_DISCOVER_NAMESPACES)"
  by (rule implements_traced [OF PG_NAMESPACE_DISCOVERY_def]) (simp add: Let_def mode_refines request_param)

lemma PG_NAMESPACE_SIZE_implements:
  "implements named PG_NAMESPACE_SIZE E request
    (needed_plan (get_rparam request PARAM_FIRST) ''No schema name specified''
      (\<lambda>v. Value AR_UINT64 PGSQL_GET_NS_SIZE [v]))"
proof (rule implements_traced [OF PG_NAMESPACE_SIZE_def], goal_cases)
  case (1 s result)
  note ok = 1(1)
  let ?v = "get_rparam request PARAM_FIRST"
  show ?case
    unfolding Let_def
    by (rule needed_plan_refines [OF ok])
      (use value_param_refines [OF ok, of AR_UINT64 ?v result PGSQL_GET_NS_SIZE] in \<open>simp_all add: given_cases\<close>)
qed

end
