(* ===== verification/Tablespace.thy ===== *)
theory Tablespace
  imports Items
begin

text \<open>
  Items of tablespaces (\<open>pg_tablespace.c\<close>).
\<close>

definition PGSQL_DISCOVER_TABLESPACES :: string where
  [sql_texts]: "PGSQL_DISCOVER_TABLESPACES =
     ''SELECT  '' @
     ''  t.oid AS oid '' @
     ''  , t.spcname AS tablespace '' @
     ''  , pg_catalog.pg_get_userbyid(spcowner) AS owner '' @
     ''  , pg_catalog.shobj_description(oid, 'pg_tablespace') AS description '' @
     ''FROM pg_catalog.pg_tablespace t '' @
     ''ORDER BY t.spcname;''"

definition PGSQL_DISCOVER_TABLESPACES_92 :: string where
  [sql_texts]: "PGSQL_DISCOVER_TABLESPACES_92 =
     ''SELECT  '' @
     ''  t.oid AS oid '' @
     ''  , t.spcname AS tablespace '' @
     ''  , pg_catalog.pg_get_userbyid(spcowner) AS owner '' @
     ''  , pg_catalog.pg_tablespace_location(oid) AS location '' @
     ''  , pg_catalog.shobj_description(oid, 'pg_tablespace') AS description '' @
     ''FROM pg_catalog.pg_tablespace t '' @
     ''ORDER BY t.spcname;''"

definition PGSQL_GET_TS_SIZE :: string where
  [sql_texts]: "PGSQL_GET_TS_SIZE =
     ''SELECT pg_tablespace_size($1)''"

definition PG_TABLESPACE_DISCOVERY :: "env \<Rightarrow> agent_request \<Rightarrow> result_ptr \<Rightarrow> sysinfo_ret mcmd" where
  "PG_TABLESPACE_DISCOVERY E request result =
     traced E ''%s()'' [AStr (Some ''PG_TABLESPACE_DISCOVERY'')]
       (bind_c (int_version E request result) (\<lambda>version.
       if version = 0 then return_c SYSINFO_RET_FAIL
       else if version \<ge> 90200 then
         pg_get_discovery E request result PGSQL_DISCOVER_TABLESPACES_92 None
       else pg_get_discovery E request result PGSQL_DISCOVER_TABLESPACES None))"

definition PG_TABLESPACE_SIZE :: "env \<Rightarrow> agent_request \<Rightarrow> result_ptr \<Rightarrow> sysinfo_ret mcmd" where
  "PG_TABLESPACE_SIZE E request result =
     traced E ''%s()'' [AStr (Some ''PG_TABLESPACE_SIZE'')]
       (let tablespace = get_rparam request PARAM_FIRST in
        if strisnull tablespace then reject E result ''No tablespace specified'' []
        else
          bind_c (param_new tablespace) (\<lambda>params.
          pg_get_int E request result PGSQL_GET_TS_SIZE params))"

section \<open>Plans\<close>

lemma PG_TABLESPACE_DISCOVERY_implements:
  "implements named PG_TABLESPACE_DISCOVERY E request
    (By_version (\<lambda>v.
      if v < 90200 then Rows PGSQL_DISCOVER_TABLESPACES [] else Rows PGSQL_DISCOVER_TABLESPACES_92 []))"
  by (rule implements_traced [OF PG_TABLESPACE_DISCOVERY_def], rule by_version_refines)
    (auto simp: discovery_refines)

lemma PG_TABLESPACE_SIZE_implements:
  "implements named PG_TABLESPACE_SIZE E request
    (needed_plan (get_rparam request PARAM_FIRST) ''No tablespace specified''
      (\<lambda>v. Value AR_UINT64 PGSQL_GET_TS_SIZE [v]))"
proof (rule implements_traced [OF PG_TABLESPACE_SIZE_def], goal_cases)
  case (1 s result)
  note ok = 1(1)
  let ?v = "get_rparam request PARAM_FIRST"
  show ?case
    unfolding Let_def
    by (rule needed_plan_refines [OF ok])
      (use value_param_refines [OF ok, of AR_UINT64 ?v result PGSQL_GET_TS_SIZE] in \<open>simp_all add: given_cases\<close>)
qed

end
