(* ===== verification/Database.thy ===== *)
theory Database
  imports Items
begin

text \<open>
  Items of databases (\<open>pg_database.c\<close>).
\<close>

definition PGSQL_DISCOVER_DBS :: string where
  [sql_texts]: "PGSQL_DISCOVER_DBS =
     ''SELECT '' @
     ''    d.oid as oid, '' @
     ''    d.datname as path, '' @
     ''    d.datname as database, '' @
     ''    pg_catalog.pg_encoding_to_char(d.encoding) as encoding, '' @
     ''    d.datcollate as lc_collate, '' @
     ''    d.datctype as lc_ctype, '' @
     ''    pg_catalog.pg_get_userbyid(d.datdba) as owner, '' @
     ''    t.spcname as tablespace, '' @
     ''    pg_catalog.shobj_description(d.oid, 'pg_database') as description '' @
     ''FROM pg_catalog.pg_database d '' @
     ''    JOIN pg_catalog.pg_tablespace t on d.dattablespace = t.oid '' @
     ''WHERE '' @
     ''    d.datallowconn = 't' '' @
     ''    AND d.datistemplate = 'n' '' @
     ''ORDER BY 1;''"

definition PGSQL_GET_DB_STAT :: string where
  [sql_texts]: "PGSQL_GET_DB_STAT =
     ''SELECT %s FROM pg_stat_database WHERE datname = $1''"

definition PGSQL_GET_DB_STAT_SUM :: string where
  [sql_texts]: "PGSQL_GET_DB_STAT_SUM =
     ''SELECT SUM(%s::bigint) FROM pg_stat_database''"

definition PGSQL_GET_DB_SIZE :: string where
  [sql_texts]: "PGSQL_GET_DB_SIZE =
     ''SELECT pg_catalog.pg_database_size(d.datname) FROM pg_catalog.pg_database d WHERE d.datname = $1''"

definition PGSQL_GET_DB_SIZE_SUM :: string where
  [sql_texts]: "PGSQL_GET_DB_SIZE_SUM =
     ''SELECT SUM(pg_catalog.pg_database_size(d.datname)::bigint) FROM pg_catalog.pg_database d''"

definition PG_DB_DISCOVERY :: "env \<Rightarrow> agent_request \<Rightarrow> result_ptr \<Rightarrow> sysinfo_ret mcmd" where
  "PG_DB_DISCOVERY E request result =
     traced E ''%s()'' [AStr (Some ''PG_DB_DISCOVERY'')]
       (pg_get_discovery E request result PGSQL_DISCOVER_DBS None)"

text \<open>The variable \<open>datname\<close> is set to NULL when it is empty.\<close>

definition PG_STAT_DATABASE :: "env \<Rightarrow> agent_request \<Rightarrow> result_ptr \<Rightarrow> sysinfo_ret mcmd" where
  "PG_STAT_DATABASE E request result =
     traced E ''%s()'' [AStr (Some ''PG_STAT_DATABASE'')]
       (bind_c (lift_c (key_from request 6)) (\<lambda>field.
       let datname0 = get_rparam request PARAM_FIRST;
           format = (if strisnull datname0 then PGSQL_GET_DB_STAT_SUM else PGSQL_GET_DB_STAT);
           datname = (if strisnull datname0 then None else datname0) in
       bind_c (lift_c (snprintf E (MAX_STRING_LEN E) format [AStr (Some field)])) (\<lambda>query.
       if strncmp field ''stats_reset'' 11 = 0 then
         (if strisnull datname then reject E result ''No database specified'' []
          else bind_c (param_new datname) (pg_get_string E request result query))
       else if strncmp field ''blk_'' 4 = 0 then
         bind_c (param_new datname) (pg_get_dbl E request result query)
       else bind_c (param_new datname) (pg_get_int E request result query))))"

definition PG_DB_BLKS_RATIO :: "env \<Rightarrow> agent_request \<Rightarrow> result_ptr \<Rightarrow> sysinfo_ret mcmd" where
  "PG_DB_BLKS_RATIO E request result =
     traced E ''%s()'' [AStr (Some ''PG_DB_BLKS_RATIO'')]
       (let dbname = get_rparam request PARAM_FIRST in
        if strisnull dbname then
          pg_get_percentage E request result ''pg_stat_database''
            ''sum(blks_hit)'' ''sum(blks_hit) + sum(blks_read)'' None None
        else
          pg_get_percentage E request result ''pg_stat_database''
            ''blks_hit'' ''blks_hit + blks_read'' (Some ''datname'') dbname)"

definition PG_DB_SIZE :: "env \<Rightarrow> agent_request \<Rightarrow> result_ptr \<Rightarrow> sysinfo_ret mcmd" where
  "PG_DB_SIZE E request result =
     traced E ''%s()'' [AStr (Some ''PG_DB_SIZE'')]
       (let datname0 = get_rparam request PARAM_FIRST;
            query = (if strisnull datname0 then PGSQL_GET_DB_SIZE_SUM else PGSQL_GET_DB_SIZE);
            datname = (if strisnull datname0 then None else datname0) in
        bind_c (param_new datname) (\<lambda>params.
        pg_get_int E request result query params))"

definition XID_AGE_MAX :: string where
  [sql_texts]: "XID_AGE_MAX = ''SELECT MAX(AGE(datfrozenxid)) FROM pg_database;''"

definition XID_AGE :: string where
  [sql_texts]: "XID_AGE = ''SELECT AGE(datfrozenxid) FROM pg_database WHERE datname = $1;''"

definition PG_DB_XID_AGE :: "env \<Rightarrow> agent_request \<Rightarrow> result_ptr \<Rightarrow> sysinfo_ret mcmd" where
  "PG_DB_XID_AGE E request result =
     traced E ''%s()'' [AStr (Some ''PG_DB_XID_AGE'')]
       (let datname0 = get_rparam request PARAM_FIRST;
            query = (if strisnull datname0 then XID_AGE_MAX else XID_AGE);
            datname = (if strisnull datname0 then None else datname0) in
        bind_c (param_new datname) (\<lambda>params.
        pg_get_int E request result query params))"

section \<open>Plans\<close>

lemma PG_DB_DISCOVERY_implements:
  "implements named PG_DB_DISCOVERY E request
    (Rows PGSQL_DISCOVER_DBS [])"
  by (rule implements_traced [OF PG_DB_DISCOVERY_def]) (simp add: discovery_refines)

text \<open>A column of \<open>pg_stat_database\<close>; a time stamp has no sum.\<close>

definition database_stat_plan :: "string \<Rightarrow> string option \<Rightarrow> plan" where
  "database_stat_plan field v =
     (if take 11 field = ''stats_reset'' then
        needed_plan v ''No database specified'' (\<lambda>v. Value AR_STRING (fill PGSQL_GET_DB_STAT [field]) [v])
      else
        value_plan (if take 4 field = ''blk_'' then AR_DOUBLE else AR_UINT64) v
          (fill PGSQL_GET_DB_STAT_SUM [field]) (fill PGSQL_GET_DB_STAT [field]))"

lemma PG_STAT_DATABASE_implements:
  assumes "zabbix_ok E" and "key_ok request 6"
  shows "implements named PG_STAT_DATABASE E request
    (database_stat_plan (drop 6 (req_key request)) (get_rparam request PARAM_FIRST))"
proof (rule implements_traced [OF PG_STAT_DATABASE_def], goal_cases)
  case (1 s result)
  note ok = 1(1)
  let ?f = "drop 6 (req_key request)" and ?v = "get_rparam request PARAM_FIRST"
  let ?q = "fill (if strisnull ?v then PGSQL_GET_DB_STAT_SUM else PGSQL_GET_DB_STAT) [?f]"
  have req: "request_ok request" using call_okD [OF ok] by simp
  have q: "snprintf E (MAX_STRING_LEN E) (if strisnull ?v then PGSQL_GET_DB_STAT_SUM else PGSQL_GET_DB_STAT)
      [AStr (Some ?f)] = Inr ?q"
    by (rule field_text [OF assms]) (simp_all add: PGSQL_GET_DB_STAT_SUM_def PGSQL_GET_DB_STAT_def)
  have pre: "strncmp ?f ''stats_reset'' 11 = 0 \<longleftrightarrow> take 11 ?f = ''stats_reset''"
    "strncmp ?f ''blk_'' 4 = 0 \<longleftrightarrow> take 4 ?f = ''blk_''"
    by (subst field_prefix [OF req]; simp add: cstring_def)+
  have plain: "refines {} id (bind_c (param_new ?v) (pg_get_result E request result type ?q))
      (run_plan E request result (value_plan type ?v (fill PGSQL_GET_DB_STAT_SUM [?f]) (fill PGSQL_GET_DB_STAT [?f]))) s"
    if "plain_type type" for type
    using value_param_refines [OF ok that, of ?v result]
    by (cases "strisnull ?v") (simp_all add: value_plan_def given_cases)
  have reset: "refines {} id (if strisnull ?v then reject E result ''No database specified'' []
      else bind_c (param_new ?v) (pg_get_string E request result ?q))
    (run_plan E request result (needed_plan ?v ''No database specified''
      (\<lambda>v. Value AR_STRING (fill PGSQL_GET_DB_STAT [?f]) [v]))) s"
    using value_param_refines [OF ok, of AR_STRING ?v result]
    by (intro needed_plan_refines [OF ok]) (simp_all add: given_cases)
  show ?case
    unfolding key_from_run [OF assms(2)] bind_c_lift Let_def q pre param_none
    using plain reset by (cases "strisnull ?v") (simp_all add: database_stat_plan_def)
qed

lemma PG_DB_BLKS_RATIO_implements:
  assumes "zabbix_ok E"
  shows "implements named PG_DB_BLKS_RATIO E request
    (ratio_plan (get_rparam request PARAM_FIRST) ''pg_stat_database''
      ''sum(blks_hit)'' ''sum(blks_hit) + sum(blks_read)'' ''blks_hit'' ''blks_hit + blks_read'' ''datname'')"
  by (rule implements_traced [OF PG_DB_BLKS_RATIO_def]) (simp add: Let_def ratio_refines assms)

lemma PG_DB_SIZE_implements:
  "implements named PG_DB_SIZE E request
    (value_plan AR_UINT64 (get_rparam request PARAM_FIRST) PGSQL_GET_DB_SIZE_SUM PGSQL_GET_DB_SIZE)"
  by (rule implements_traced [OF PG_DB_SIZE_def]) (simp add: Let_def value_plan_refines)

lemma PG_DB_XID_AGE_implements:
  "implements named PG_DB_XID_AGE E request
    (value_plan AR_UINT64 (get_rparam request PARAM_FIRST) XID_AGE_MAX XID_AGE)"
  by (rule implements_traced [OF PG_DB_XID_AGE_def]) (simp add: Let_def value_plan_refines)

end
