(* ===== verification/Tables.thy ===== *)
theory Tables
  imports Items
begin

text \<open>
  Items of tables (\<open>pg_table.c\<close>).
\<close>

definition PGSQL_DISCOVER_TABLES :: string where
  [sql_texts]: "PGSQL_DISCOVER_TABLES =
     ''SELECT '' @
     ''    c.oid AS oid '' @
     ''    , current_database() || '.' || n.nspname || '.' || c.relname AS path'' @
     ''    , current_database() AS database '' @
     ''    , n.nspname AS schema '' @
     ''    , CASE c.reltablespace '' @
     ''        WHEN 0 THEN (SELECT ds.spcname FROM pg_tablespace ds JOIN pg_database d ON d.dattablespace = ds.oid WHERE d.datname = current_database()) '' @
     ''        ELSE (SELECT spcname FROM pg_tablespace WHERE oid = c.reltablespace) '' @
     ''        END AS tablespace '' @
     ''    , c.relname AS table '' @
     ''    ,t.typname AS type '' @
     ''    , pg_catalog.pg_get_userbyid(c.relowner) AS owner '' @
     ''    , (SELECT COUNT(inhparent) FROM pg_inherits WHERE inhrelid = c.oid) AS issubclass '' @
     ''    , pg_catalog.obj_description(c.oid, 'pg_class') as description '' @
     ''FROM pg_class c '' @
     ''JOIN pg_namespace n ON c.relnamespace = n.oid '' @
     ''JOIN pg_type t ON c.reltype = t.oid '' @
     ''WHERE '' @
     ''    c.relkind='r' '' @
     ''    AND n.nspname <> 'pg_catalog' '' @
     ''    AND n.nspname <> 'information_schema' '' @
     ''    AND n.nspname !~ '^pg_toast' '' @
     ''ORDER BY c.relname;''"

definition PGSQL_DISCOVER_TABLE_CHILDREN :: string where
  [sql_texts]: "PGSQL_DISCOVER_TABLE_CHILDREN =
     ''SELECT '' @
     ''    c.oid AS oid '' @
     ''    , current_database() || '.' || n.nspname || '.' || c.relname AS path '' @
     ''    , c.relname AS table '' @
     ''    , n.nspname AS schema '' @
     ''FROM pg_inherits i '' @
     ''JOIN pg_class c ON i.inhrelid = c.oid '' @
     ''JOIN pg_namespace n ON c.relnamespace = n.oid '' @
     ''WHERE i.inhparent = $1::regclass''"

definition PGSQL_GET_TABLE_STAT_SUM :: string where
  [sql_texts]: "PGSQL_GET_TABLE_STAT_SUM =
     ''SELECT SUM(%s::bigint) FROM pg_stat_all_tables '' @
     ''WHERE '' @
     ''    schemaname <> 'pg_catalog' '' @
     ''    AND schemaname <> 'information_schema' '' @
     ''    AND schemaname !~ '^pg_toast'' @ SQ"

definition PGSQL_GET_TABLE_STAT :: string where
  [sql_texts]: "PGSQL_GET_TABLE_STAT =
     ''SELECT %s FROM pg_stat_all_tables WHERE relname = $1''"

definition PGSQL_GET_TABLE_STATIO :: string where
  [sql_texts]: "PGSQL_GET_TABLE_STATIO =
     ''SELECT %s FROM pg_statio_all_tables WHERE relname = $1''"

definition PGSQL_GET_TABLE_STATIO_SUM :: string where
  [sql_texts]: "PGSQL_GET_TABLE_STATIO_SUM =
     ''SELECT SUM(%s::bigint) FROM pg_statio_all_tables '' @
     ''WHERE '' @
     ''    schemaname <> 'pg_catalog' '' @
     ''    AND schemaname <> 'information_schema' '' @
     ''    AND schemaname !~ '^pg_toast'' @ SQ"

definition PGSQL_GET_TABLE_SIZE :: string where
  [sql_texts]: "PGSQL_GET_TABLE_SIZE =
     ''SELECT '' @
     ''    relpages::bigint * 8192 '' @
     ''FROM pg_class '' @
     ''WHERE relkind='r' AND relname = $1''"

definition PGSQL_GET_TABLE_SIZE_SUM :: string where
  [sql_texts]: "PGSQL_GET_TABLE_SIZE_SUM =
     ''SELECT '' @
     ''    SUM(relpages::bigint) * 8192 '' @
     ''FROM pg_class t '' @
     ''JOIN pg_namespace n ON n.oid = t.relnamespace '' @
     ''WHERE '' @
     ''    t.relkind = 'r' '' @
     ''    AND n.nspname <> 'pg_catalog' '' @
     ''    AND n.nspname <> 'information_schema' '' @
     ''    AND n.nspname !~ '^pg_toast'' @ SQ"

definition PGSQL_GET_TABLE_ROWS_SUM :: string where
  [sql_texts]: "PGSQL_GET_TABLE_ROWS_SUM =
     ''SELECT '' @
     ''    SUM(reltuples::bigint) '' @
     ''FROM pg_class t '' @
     ''JOIN pg_namespace n ON n.oid = t.relnamespace '' @
     ''WHERE '' @
     ''    t.relkind = 'r' '' @
     ''    AND n.nspname <> 'pg_catalog' '' @
     ''    AND n.nspname <> 'information_schema' '' @
     ''    AND n.nspname !~ '^pg_toast'' @ SQ"

definition PGSQL_GET_TABLE_ROWS :: string where
  [sql_texts]: "PGSQL_GET_TABLE_ROWS =
     ''SELECT reltuples '' @
     ''FROM pg_class '' @
     ''WHERE '' @
     ''    relkind='r' '' @
     ''    AND relname = $1''"

definition PGSQL_GET_TABLE_CHILD_COUNT :: string where
  [sql_texts]: "PGSQL_GET_TABLE_CHILD_COUNT =
     ''SELECT '' @
     ''    COUNT(i.inhrelid) '' @
     ''FROM pg_inherits i '' @
     ''WHERE i.inhparent = $1::regclass''"

definition PGSQL_GET_CHILDREN_SIZE :: string where
  [sql_texts]: "PGSQL_GET_CHILDREN_SIZE =
     ''SELECT '' @
     ''    SUM(c.relpages::bigint) * 8192 '' @
     ''FROM pg_inherits i '' @
     ''JOIN pg_class c ON inhrelid = c.oid '' @
     ''WHERE i.inhparent = $1::regclass''"

definition PGSQL_GET_CHILDREN_ROWS :: string where
  [sql_texts]: "PGSQL_GET_CHILDREN_ROWS =
     ''SELECT '' @
     ''    SUM(c.reltuples::bigint) '' @
     ''FROM pg_inherits i '' @
     ''JOIN pg_class c ON inhrelid = c.oid '' @
     ''WHERE i.inhparent = $1::regclass''"

definition PG_TABLE_DISCOVERY :: "env \<Rightarrow> agent_request \<Rightarrow> result_ptr \<Rightarrow> sysinfo_ret mcmd" where
  "PG_TABLE_DISCOVERY E request result =
     traced E ''%s()'' [AStr (Some ''PG_TABLE_DISCOVERY'')]
       (let param_mode = get_rparam request PARAM_FIRST in
        if strisnull param_mode \<or> strcmp (the param_mode) ''deep'' = 0 then
          pg_get_discovery_wide E request result PGSQL_DISCOVER_TABLES None
        else if strcmp (the param_mode) ''shallow'' = 0 then
          pg_get_discovery E request result PGSQL_DISCOVER_TABLES None
        else reject E result ''Invalid search mode parameter: %s'' [AStr param_mode])"

definition PG_TABLE_CHILDREN_DISCOVERY :: "env \<Rightarrow> agent_request \<Rightarrow> result_ptr \<Rightarrow> sysinfo_ret mcmd" where
  "PG_TABLE_CHILDREN_DISCOVERY E request result =
     traced E ''%s()'' [AStr (Some ''PG_TABLE_CHILDREN_DISCOVERY'')]
       (let tablename = get_rparam request PARAM_FIRST in
        if strisnull tablename then
          reject E result ''No table name specified'' []
        else
          bind_c (param_new tablename) (\<lambda>params.
          pg_get_discovery E request result PGSQL_DISCOVER_TABLE_CHILDREN params))"

definition PG_STAT_ALL_TABLES :: "env \<Rightarrow> agent_request \<Rightarrow> result_ptr \<Rightarrow> sysinfo_ret mcmd" where
  "PG_STAT_ALL_TABLES E request result =
     traced E ''%s()'' [AStr (Some ''PG_STAT_ALL_TABLES'')]
       (bind_c (lift_c (key_from request 9)) (\<lambda>field.
       let tablename = get_rparam request PARAM_FIRST;
           format = (if strisnull tablename then PGSQL_GET_TABLE_STAT_SUM else PGSQL_GET_TABLE_STAT) in
       bind_c (lift_c (snprintf E (MAX_STRING_LEN E) format [AStr (Some field)])) (\<lambda>query.
       if strncmp field ''last_'' 5 = 0 then
         (if strisnull tablename then reject E result ''No table name specified'' []
          else bind_c (param_new tablename) (pg_get_string E request result query))
       else bind_c (param_new tablename) (pg_get_int E request result query))))"

definition PG_TABLE_IDX_SCAN_RATIO :: "env \<Rightarrow> agent_request \<Rightarrow> result_ptr \<Rightarrow> sysinfo_ret mcmd" where
  "PG_TABLE_IDX_SCAN_RATIO E request result =
     traced E ''%s()'' [AStr (Some ''PG_TABLE_IDX_SCAN_RATIO'')]
       (let tablename = get_rparam request PARAM_FIRST in
        if strisnull tablename then
          pg_get_percentage E request result ''pg_stat_all_tables''
            ''sum(idx_scan)'' ''sum(seq_scan) + sum(idx_scan)'' None None
        else
          pg_get_percentage E request result ''pg_stat_all_tables''
            ''idx_scan'' ''seq_scan + idx_scan'' (Some ''relname'') tablename)"

definition PG_STATIO_ALL_TABLES :: "env \<Rightarrow> agent_request \<Rightarrow> result_ptr \<Rightarrow> sysinfo_ret mcmd" where
  "PG_STATIO_ALL_TABLES E request result =
     traced E ''%s()'' [AStr (Some ''PG_STATIO_ALL_TABLES'')]
       (bind_c (lift_c (key_from request 9)) (\<lambda>field.
       let tablename = get_rparam request PARAM_FIRST;
           format = (if strisnull tablename then PGSQL_GET_TABLE_STATIO_SUM
                     else PGSQL_GET_TABLE_STATIO) in
       bind_c (lift_c (snprintf E (MAX_STRING_LEN E) format [AStr (Some field)])) (\<lambda>query.
       bind_c (param_new tablename) (\<lambda>params.
       pg_get_int E request result query params))))"

definition PG_TABLE_HEAP_BLKS_RATIO :: "env \<Rightarrow> agent_request \<Rightarrow> result_ptr \<Rightarrow> sysinfo_ret mcmd" where
  "PG_TABLE_HEAP_BLKS_RATIO E request result =
     traced E ''%s()'' [AStr (Some ''PG_TABLE_HEAP_BLKS_RATIO'')]
       (let tablename = get_rparam request PARAM_FIRST in
        if strisnull tablename then
          pg_get_percentage E request result ''pg_statio_all_tables''
            ''sum(heap_blks_hit)'' ''sum(heap_blks_hit) + sum(heap_blks_read)'' None None
        else
          pg_get_percentage E request result ''pg_statio_all_tables''
            ''heap_blks_hit'' ''heap_blks_hit + heap_blks_read'' (Some ''relname'') tablename)"

definition PG_TABLE_IDX_BLKS_RATIO :: "env \<Rightarrow> agent_request \<Rightarrow> result_ptr \<Rightarrow> sysinfo_ret mcmd" where
  "PG_TABLE_IDX_BLKS_RATIO E request result =
     traced E ''%s()'' [AStr (Some ''PG_TABLE_IDX_BLKS_RATIO'')]
       (let tablename = get_rparam request PARAM_FIRST in
        if strisnull tablename then
          pg_get_percentage E request result ''pg_statio_all_tables''
            ''sum(idx_blks_hit)'' ''sum(idx_blks_hit) + sum(idx_blks_read)'' None None
        else
          pg_get_percentage E request result ''pg_statio_all_tables''
            ''idx_blks_hit'' ''idx_blks_hit + idx_blks_read'' (Some ''relname'') tablename)"

definition PG_TABLE_TOAST_BLKS_RATIO :: "env \<Rightarrow> agent_request \<Rightarrow> result_ptr \<Rightarrow> sysinfo_ret mcmd" where
  "PG_TABLE_TOAST_BLKS_RATIO E request result =
     traced E ''%s()'' [AStr (Some ''PG_TABLE_TOAST_BLKS_RATIO'')]
       (let tablename = get_rparam request PARAM_FIRST in
        if strisnull tablename then
          pg_get_percentage E request result ''pg_statio_all_tables''
            ''sum(toast_blks_hit)'' ''sum(toast_blks_hit) + sum(toast_blks_read)'' None None
        else
          pg_get_percentage E request result ''pg_statio_all_tables''
            ''toast_blks_hit'' ''toast_blks_hit + toast_blks_read'' (Some ''relname'') tablename)"

definition PG_TABLE_TIDX_BLKS_RATIO :: "env \<Rightarrow> agent_request \<Rightarrow> result_ptr \<Rightarrow> sysinfo_ret mcmd" where
  "PG_TABLE_TIDX_BLKS_RATIO E request result =
     traced E ''%s()'' [AStr (Some ''PG_TABLE_TIDX_BLKS_RATIO'')]
       (let tablename = get_rparam request PARAM_FIRST in
        if strisnull tablename then
          pg_get_percentage E request result ''pg_statio_all_tables''
            ''sum(tidx_blks_hit)'' ''sum(tidx_blks_hit) + sum(tidx_blks_read)'' None None
        else
          pg_get_percentage E request result ''pg_statio_all_tables''
            ''tidx_blks_hit'' ''tidx_blks_hit + tidx_blks_read'' (Some ''relname'') tablename)"

definition PG_TABLE_SIZE :: "env \<Rightarrow> agent_request \<Rightarrow> result_ptr \<Rightarrow> sysinfo_ret mcmd" where
  "PG_TABLE_SIZE E request result =
     traced E ''%s()'' [AStr (Some ''PG_TABLE_SIZE'')]
       (let tablename = get_rparam request PARAM_FIRST;
            query = (if strisnull tablename then PGSQL_GET_TABLE_SIZE_SUM else PGSQL_GET_TABLE_SIZE) in
        bind_c (param_new tablename) (\<lambda>params.
        pg_get_int E request result query params))"

definition PG_TABLE_ROWS :: "env \<Rightarrow> agent_request \<Rightarrow> result_ptr \<Rightarrow> sysinfo_ret mcmd" where
  "PG_TABLE_ROWS E request result =
     traced E ''%s()'' [AStr (Some ''PG_TABLE_ROWS'')]
       (let tablename = get_rparam request PARAM_FIRST;
            query = (if strisnull tablename then PGSQL_GET_TABLE_ROWS_SUM else PGSQL_GET_TABLE_ROWS) in
        bind_c (param_new tablename) (\<lambda>params.
        pg_get_int E request result query params))"

definition PG_TABLE_CHILDREN :: "env \<Rightarrow> agent_request \<Rightarrow> result_ptr \<Rightarrow> sysinfo_ret mcmd" where
  "PG_TABLE_CHILDREN E request result =
     traced E ''%s()'' [AStr (Some ''PG_TABLE_CHILDREN'')]
       (let tablename = get_rparam request PARAM_FIRST in
        if strisnull tablename then
          reject E result ''Invalid parameter count. Please specify a table name.'' []
        else
          bind_c (param_new tablename) (\<lambda>params.
          pg_get_int E request result PGSQL_GET_TABLE_CHILD_COUNT params))"

definition PG_TABLE_CHILDREN_SIZE :: "env \<Rightarrow> agent_request \<Rightarrow> result_ptr \<Rightarrow> sysinfo_ret mcmd" where
  "PG_TABLE_CHILDREN_SIZE E request result =
     traced E ''%s()'' [AStr (Some ''PG_TABLE_CHILDREN_SIZE'')]
       (let tablename = get_rparam request PARAM_FIRST in
        if strisnull tablename then
          reject E result ''Invalid parameter count. Please specify a table name.'' []
        else
          bind_c (param_new tablename) (\<lambda>params.
          pg_get_int E request result PGSQL_GET_CHILDREN_SIZE params))"

definition PG_TABLE_CHILDREN_ROWS :: "env \<Rightarrow> agent_request \<Rightarrow> result_ptr \<Rightarrow> sysinfo_ret mcmd" where
  "PG_TABLE_CHILDREN_ROWS E request result =
     traced E ''%s()'' [AStr (Some ''PG_TABLE_CHILDREN_TUPLES'')]
       (let tablename = get_rparam request PARAM_FIRST in
        if strisnull tablename then
          reject E result ''Invalid parameter count. Please specify a table name.'' []
        else
          bind_c (param_new tablename) (\<lambda>params.
          pg_get_int E request result PGSQL_GET_CHILDREN_ROWS params))"

section \<open>Plans\<close>

lemma PG_TABLE_DISCOVERY_implements:
  "implements named PG_TABLE_DISCOVERY E request
    (mode_plan (get_rparam request PARAM_FIRST) PGSQL_DISCOVER_TABLES)"
  by (rule implements_traced [OF PG_TABLE_DISCOVERY_def]) (simp add: Let_def mode_refines request_param)

lemma PG_TABLE_CHILDREN_DISCOVERY_implements:
  "implements named PG_TABLE_CHILDREN_DISCOVERY E request
    (needed_plan (get_rparam request PARAM_FIRST) ''No table name specified''
      (\<lambda>v. Rows PGSQL_DISCOVER_TABLE_CHILDREN [v]))"
proof (rule implements_traced [OF PG_TABLE_CHILDREN_DISCOVERY_def], goal_cases)
  case (1 s result)
  note ok = 1(1)
  let ?v = "get_rparam request PARAM_FIRST"
  show ?case
    unfolding Let_def
    by (rule needed_plan_refines [OF ok])
      (use discovery_param_refines [OF ok, of ?v result PGSQL_DISCOVER_TABLE_CHILDREN] in \<open>simp_all add: given_cases\<close>)
qed

text \<open>A column of \<open>pg_stat_all_tables\<close>; the time stamps have no sum.\<close>

definition table_stat_plan :: "string \<Rightarrow> string option \<Rightarrow> plan" where
  "table_stat_plan field v =
     (if take 5 field = ''last_'' then
        needed_plan v ''No table name specified'' (\<lambda>v. Value AR_STRING (fill PGSQL_GET_TABLE_STAT [field]) [v])
      else
        value_plan AR_UINT64 v (fill PGSQL_GET_TABLE_STAT_SUM [field]) (fill PGSQL_GET_TABLE_STAT [field]))"

lemma PG_STAT_ALL_TABLES_implements:
  assumes "zabbix_ok E" and "key_ok request 9"
  shows "implements named PG_STAT_ALL_TABLES E request
    (table_stat_plan (drop 9 (req_key request)) (get_rparam request PARAM_FIRST))"
proof (rule implements_traced [OF PG_STAT_ALL_TABLES_def], goal_cases)
  case (1 s result)
  note ok = 1(1)
  let ?f = "drop 9 (req_key request)" and ?v = "get_rparam request PARAM_FIRST"
  let ?q = "fill (if strisnull ?v then PGSQL_GET_TABLE_STAT_SUM else PGSQL_GET_TABLE_STAT) [?f]"
  have req: "request_ok request" using call_okD [OF ok] by simp
  have q: "snprintf E (MAX_STRING_LEN E) (if strisnull ?v then PGSQL_GET_TABLE_STAT_SUM else PGSQL_GET_TABLE_STAT)
      [AStr (Some ?f)] = Inr ?q"
    by (rule field_text [OF assms]) (simp_all add: PGSQL_GET_TABLE_STAT_SUM_def PGSQL_GET_TABLE_STAT_def)
  have pre: "strncmp ?f ''last_'' 5 = 0 \<longleftrightarrow> take 5 ?f = ''last_''"
    by (subst field_prefix [OF req]) (simp_all add: cstring_def)
  have plain: "refines {} id (bind_c (param_new ?v) (pg_get_int E request result ?q))
      (run_plan E request result (value_plan AR_UINT64 ?v (fill PGSQL_GET_TABLE_STAT_SUM [?f]) (fill PGSQL_GET_TABLE_STAT [?f]))) s"
    using value_param_refines [OF ok, of AR_UINT64 ?v result]
    by (cases "strisnull ?v") (simp_all add: value_plan_def given_cases)
  have stamp: "refines {} id (if strisnull ?v then reject E result ''No table name specified'' []
      else bind_c (param_new ?v) (pg_get_string E request result ?q))
    (run_plan E request result (needed_plan ?v ''No table name specified''
      (\<lambda>v. Value AR_STRING (fill PGSQL_GET_TABLE_STAT [?f]) [v]))) s"
    using value_param_refines [OF ok, of AR_STRING ?v result]
    by (intro needed_plan_refines [OF ok]) (simp_all add: given_cases)
  show ?case
    unfolding key_from_run [OF assms(2)] bind_c_lift Let_def q pre
    using plain stamp by (cases "strisnull ?v") (simp_all add: table_stat_plan_def)
qed

lemma PG_TABLE_IDX_SCAN_RATIO_implements:
  assumes "zabbix_ok E"
  shows "implements named PG_TABLE_IDX_SCAN_RATIO E request
    (ratio_plan (get_rparam request PARAM_FIRST) ''pg_stat_all_tables''
      ''sum(idx_scan)'' ''sum(seq_scan) + sum(idx_scan)'' ''idx_scan'' ''seq_scan + idx_scan'' ''relname'')"
  by (rule implements_traced [OF PG_TABLE_IDX_SCAN_RATIO_def]) (simp add: Let_def ratio_refines assms)

lemma PG_STATIO_ALL_TABLES_implements:
  assumes "zabbix_ok E" and "key_ok request 9"
  shows "implements named PG_STATIO_ALL_TABLES E request
    (let field = drop 9 (req_key request) in
      value_plan AR_UINT64 (get_rparam request PARAM_FIRST) (fill PGSQL_GET_TABLE_STATIO_SUM [field]) (fill PGSQL_GET_TABLE_STATIO [field]))"
proof (rule implements_traced [OF PG_STATIO_ALL_TABLES_def], goal_cases)
  case (1 s result)
  note ok = 1(1)
  let ?f = "drop 9 (req_key request)" and ?v = "get_rparam request PARAM_FIRST"
  let ?q = "fill (if strisnull ?v then PGSQL_GET_TABLE_STATIO_SUM else PGSQL_GET_TABLE_STATIO) [?f]"
  have q: "snprintf E (MAX_STRING_LEN E) (if strisnull ?v then PGSQL_GET_TABLE_STATIO_SUM else PGSQL_GET_TABLE_STATIO)
      [AStr (Some ?f)] = Inr ?q"
    by (rule field_text [OF assms]) (simp_all add: PGSQL_GET_TABLE_STATIO_SUM_def PGSQL_GET_TABLE_STATIO_def)
  have "refines {} id (bind_c (param_new ?v) (pg_get_int E request result ?q))
      (run_plan E request result (value_plan AR_UINT64 ?v (fill PGSQL_GET_TABLE_STATIO_SUM [?f]) (fill PGSQL_GET_TABLE_STATIO [?f]))) s"
    using value_param_refines [OF ok, of AR_UINT64 ?v result]
    by (cases "strisnull ?v") (simp_all add: value_plan_def given_cases)
  then show ?case
    unfolding key_from_run [OF assms(2)] bind_c_lift q Let_def .
qed

lemma PG_TABLE_HEAP_BLKS_RATIO_implements:
  assumes "zabbix_ok E"
  shows "implements named PG_TABLE_HEAP_BLKS_RATIO E request
    (ratio_plan (get_rparam request PARAM_FIRST) ''pg_statio_all_tables''
      ''sum(heap_blks_hit)'' ''sum(heap_blks_hit) + sum(heap_blks_read)'' ''heap_blks_hit'' ''heap_blks_hit + heap_blks_read'' ''relname'')"
  by (rule implements_traced [OF PG_TABLE_HEAP_BLKS_RATIO_def]) (simp add: Let_def ratio_refines assms)

lemma PG_TABLE_IDX_BLKS_RATIO_implements:
  assumes "zabbix_ok E"
  shows "implements named PG_TABLE_IDX_BLKS_RATIO E request
    (ratio_plan (get_rparam request PARAM_FIRST) ''pg_statio_all_tables''
      ''sum(idx_blks_hit)'' ''sum(idx_blks_hit) + sum(idx_blks_read)'' ''idx_blks_hit'' ''idx_blks_hit + idx_blks_read'' ''relname'')"
  by (rule implements_traced [OF PG_TABLE_IDX_BLKS_RATIO_def]) (simp add: Let_def ratio_refines assms)

lemma PG_TABLE_TOAST_BLKS_RATIO_implements:
  assumes "zabbix_ok E"
  shows "implements named PG_TABLE_TOAST_BLKS_RATIO E request
    (ratio_plan (get_rparam request PARAM_FIRST) ''pg_statio_all_tables''
      ''sum(toast_blks_hit)'' ''sum(toast_blks_hit) + sum(toast_blks_read)'' ''toast_blks_hit'' ''toast_blks_hit + toast_blks_read'' ''relname'')"
  by (rule implements_traced [OF PG_TABLE_TOAST_BLKS_RATIO_def]) (simp add: Let_def ratio_refines assms)

lemma PG_TABLE_TIDX_BLKS_RATIO_implements:
  assumes "zabbix_ok E"
  shows "implements named PG_TABLE_TIDX_BLKS_RATIO E request
    (ratio_plan (get_rparam request PARAM_FIRST) ''pg_statio_all_tables''
      ''sum(tidx_blks_hit)'' ''sum(tidx_blks_hit) + sum(tidx_blks_read)'' ''tidx_blks_hit'' ''tidx_blks_hit + tidx_blks_read'' ''relname'')"
  by (rule implements_traced [OF PG_TABLE_TIDX_BLKS_RATIO_def]) (simp add: Let_def ratio_refines assms)

lemma PG_TABLE_SIZE_implements:
  "implements named PG_TABLE_SIZE E request
    (value_plan AR_UINT64 (get_rparam request PARAM_FIRST) PGSQL_GET_TABLE_SIZE_SUM PGSQL_GET_TABLE_SIZE)"
  by (rule implements_traced [OF PG_TABLE_SIZE_def]) (simp add: Let_def value_plan_refines)

lemma PG_TABLE_ROWS_implements:
  "implements named PG_TABLE_ROWS E request
    (value_plan AR_UINT64 (get_rparam request PARAM_FIRST) PGSQL_GET_TABLE_ROWS_SUM PGSQL_GET_TABLE_ROWS)"
  by (rule implements_traced [OF PG_TABLE_ROWS_def]) (simp add: Let_def value_plan_refines)

lemma PG_TABLE_CHILDREN_implements:
  "implements named PG_TABLE_CHILDREN E request
    (needed_plan (get_rparam request PARAM_FIRST) ''Invalid parameter count. Please specify a table name.''
      (\<lambda>v. Value AR_UINT64 PGSQL_GET_TABLE_CHILD_COUNT [v]))"
proof (rule implements_traced [OF PG_TABLE_CHILDREN_def], goal_cases)
  case (1 s result)
  note ok = 1(1)
  let ?v = "get_rparam request PARAM_FIRST"
  show ?case
    unfolding Let_def
    by (rule needed_plan_refines [OF ok])
      (use value_param_refines [OF ok, of AR_UINT64 ?v result PGSQL_GET_TABLE_CHILD_COUNT] in \<open>simp_all add: given_cases\<close>)
qed

lemma PG_TABLE_CHILDREN_SIZE_implements:
  "implements named PG_TABLE_CHILDREN_SIZE E request
    (needed_plan (get_rparam request PARAM_FIRST) ''Invalid parameter count. Please specify a table name.''
      (\<lambda>v. Value AR_UINT64 PGSQL_GET_CHILDREN_SIZE [v]))"
proof (rule implements_traced [OF PG_TABLE_CHILDREN_SIZE_def], goal_cases)
  case (1 s result)
  note ok = 1(1)
  let ?v = "get_rparam request PARAM_FIRST"
  show ?case
    unfolding Let_def
    by (rule needed_plan_refines [OF ok])
      (use value_param_refines [OF ok, of AR_UINT64 ?v result PGSQL_GET_CHILDREN_SIZE] in \<open>simp_all add: given_cases\<close>)
qed

lemma PG_TABLE_CHILDREN_ROWS_implements:
  "implements named PG_TABLE_CHILDREN_ROWS E request
    (needed_plan (get_rparam request PARAM_FIRST) ''Invalid parameter count. Please specify a table name.''
      (\<lambda>v. Value AR_UINT64 PGSQL_GET_CHILDREN_ROWS [v]))"
proof (rule implements_traced [OF PG_TABLE_CHILDREN_ROWS_def], goal_cases)
  case (1 s result)
  note ok = 1(1)
  let ?v = "get_rparam request PARAM_FIRST"
  show ?case
    unfolding Let_def
    by (rule needed_plan_refines [OF ok])
      (use value_param_refines [OF ok, of AR_UINT64 ?v result PGSQL_GET_CHILDREN_ROWS] in \<open>simp_all add: given_cases\<close>)
qed

end
