(* ===== verification/Indexes.thy ===== *)
theory Indexes
  imports Items
begin

text \<open>
  Items of indexes (\<open>pg_index.c\<close>).
\<close>

definition PGSQL_DISCOVER_INDEXES :: string where
  [sql_texts]: "PGSQL_DISCOVER_INDEXES =
     ''SELECT '' @
     ''    ic.oid AS oid '' @
     ''    , current_database() || '.' || n.nspname || '.' || t.relname || '.' || ic.relname AS path '' @
     ''    , ic.relname AS index '' @
     ''    , current_database() AS database '' @
     ''    , n.nspname AS schema '' @
     ''    , t.relname AS table '' @
     ''    , a.rolname AS owner '' @
     ''    , m.amname AS access '' @
     ''FROM pg_index i '' @
     ''JOIN pg_class ic ON ic.oid = i.indexrelid '' @
     ''JOIN pg_namespace n ON n.oid = ic.relnamespace '' @
     ''JOIN pg_roles a ON a.oid = ic.relowner '' @
     ''JOIN pg_class t ON t.oid = i.indrelid '' @
     ''JOIN pg_am m ON m.oid = ic.relam '' @
     ''WHERE '' @
     ''    n.nspname <> 'pg_catalog' '' @
     ''    AND n.nspname <> 'information_schema' '' @
     ''    AND n.nspname !~ '^pg_toast'' @ SQ"

definition PGSQL_GET_INDEX_STATIO_SUM :: string where
  [sql_texts]: "PGSQL_GET_INDEX_STATIO_SUM =
     ''SELECT SUM(%s::bigint) FROM pg_statio_all_indexes '' @
     ''WHERE '' @
     ''    schemaname !~ '^pg_toast' '' @
     ''    AND schemaname <> 'pg_catalog' '' @
     ''    AND schemaname <> 'information_schema'' @ SQ"

definition PGSQL_GET_INDEX_SIZE :: string where
  [sql_texts]: "PGSQL_GET_INDEX_SIZE =
     ''SELECT '' @
     ''    relpages::bigint * 8192 '' @
     ''FROM pg_class '' @
     ''WHERE '' @
     ''    relkind='i' '' @
     ''    AND relname = $1''"

definition PGSQL_GET_INDEX_SIZE_SUM :: string where
  [sql_texts]: "PGSQL_GET_INDEX_SIZE_SUM =
     ''SELECT '' @
     ''    SUM(relpages::bigint * 8192) '' @
     ''FROM pg_class WHERE relkind='i'' @ SQ"

definition PGSQL_GET_INDEX_ROWS :: string where
  [sql_texts]: "PGSQL_GET_INDEX_ROWS =
     ''SELECT '' @
     ''    reltuples '' @
     ''FROM pg_class '' @
     ''WHERE '' @
     ''    relkind='i' '' @
     ''    AND relname = $1''"

definition PGSQL_GET_INDEX_ROWS_SUM :: string where
  [sql_texts]: "PGSQL_GET_INDEX_ROWS_SUM =
     ''SELECT '' @
     ''    SUM(reltuples::bigint) '' @
     ''FROM pg_class '' @
     ''WHERE relkind='i'' @ SQ"

text \<open>
  \<open>PG_INDEX_DISCOVERY\<close> builds its query in a local array of \<open>MAX_STRING_LEN\<close> bytes: \<open>zbx_strlcpy\<close>
  writes the text and its NUL, and \<open>strcat2\<close> appends each filter without a bound. The bytes after
  the text are indeterminate and are not read; they are zero here.
\<close>

definition local_array :: "nat \<Rightarrow> string \<Rightarrow> fault + char list" where
  "local_array n t = bind_f (copy_chars (replicate n NUL) 0 t) (\<lambda>(b, _). Inr b)"

definition append_filter ::
  "env \<Rightarrow> string \<Rightarrow> string option \<Rightarrow> char list \<times> nat option \<Rightarrow> fault + char list \<times> nat option" where
  "append_filter E format param = (\<lambda>(query, c).
     if \<not> strisnull param then
       bind_f (snprintf E (MAX_STRING_LEN E) format [AStr param]) (\<lambda>buffer.
       strcat2 query c (Some buffer))
     else Inr (query, c))"

definition index_discovery_query :: "env \<Rightarrow> agent_request \<Rightarrow> fault + string" where
  "index_discovery_query E request =
     bind_f (local_array (MAX_STRING_LEN E) (zbx_strlcpy E (MAX_STRING_LEN E) PGSQL_DISCOVER_INDEXES))
       (\<lambda>query.
     bind_f (append_filter E ('' AND n.nspname = '' @ SQ @ ''%s'' @ SQ)
               (get_rparam request (PARAM_FIRST + 1)) (query, Some 0)) (\<lambda>(query, c).
     bind_f (append_filter E ('' AND t.relname = '' @ SQ @ ''%s'' @ SQ)
               (get_rparam request (PARAM_FIRST + 2)) (query, c)) (\<lambda>(query, c).
     c_str query 0)))"

definition PG_INDEX_DISCOVERY :: "env \<Rightarrow> agent_request \<Rightarrow> result_ptr \<Rightarrow> sysinfo_ret mcmd" where
  "PG_INDEX_DISCOVERY E request result =
     traced E ''%s()'' [AStr (Some ''PG_DB_DISCOVERY'')]
       (bind_c (lift_c (index_discovery_query E request)) (\<lambda>query.
       let param_mode = get_rparam request PARAM_FIRST in
       if strisnull param_mode \<or> strcmp (the param_mode) ''deep'' = 0 then
         pg_get_discovery_wide E request result query None
       else if strcmp (the param_mode) ''shallow'' = 0 then
         pg_get_discovery E request result query None
       else reject E result ''Invalid search mode parameter: %s'' [AStr param_mode]))"

definition INDEX_STAT_SUM :: string where
  [sql_texts]: "INDEX_STAT_SUM = ''SELECT SUM(%s) FROM pg_stat_all_indexes''"

definition INDEX_STAT :: string where
  [sql_texts]: "INDEX_STAT = ''SELECT %s FROM pg_stat_all_indexes WHERE indexrelname = $1''"

text \<open>
  The value is read with \<open>atoi\<close> from a copy of the cell that is not released, and the \<open>int\<close> is
  converted to the unsigned type of the result.
\<close>

definition PG_STAT_ALL_INDEXES :: "env \<Rightarrow> agent_request \<Rightarrow> result_ptr \<Rightarrow> sysinfo_ret mcmd" where
  "PG_STAT_ALL_INDEXES E request result =
     traced E ''%s()'' [AStr (Some ''PG_STAT_ALL_INDEXES'')]
       (bind_c (lift_c (key_from request 9)) (\<lambda>field.
       let index = get_rparam request PARAM_FIRST;
           format = (if strisnull index then INDEX_STAT_SUM else INDEX_STAT) in
       bind_c (lift_c (snprintf E (MAX_STRING_LEN E) format [AStr (Some field)])) (\<lambda>query.
       bind_c (pg_connect_request E request result) (\<lambda>conn.
       case conn of
         None \<Rightarrow> return_c SYSINFO_RET_FAIL
       | Some c \<Rightarrow>
           bind_c (param_new index) (\<lambda>params.
           bind_c (pg_exec E c query params) (\<lambda>res.
           bind_c (view_result res) (\<lambda>r.
           bind_c
             (if PQresultStatus r \<noteq> PGRES_TUPLES_OK then
                reject E result ''PostgreSQL query error: %s''
                  [AStr (Some (PQresultErrorMessage r))]
              else if PQntuples r = 0 then
                reject E result ''No results returned for query: %s'' [AStr (Some query)]
              else
                bind_c (lift_c (non_null (PQgetvalue r 0 0))) (\<lambda>v.
                bind_c (strdup v) (\<lambda>buffer.
                bind_c (fetch_str buffer) (\<lambda>text.
                bind_c (lift_c (atoi text)) (\<lambda>n.
                seq_c (SET_UI64_RESULT (of_int n))
                (return_c SYSINFO_RET_OK)))))) (\<lambda>ret.
           seq_c (PQclear res)
           (seq_c (PQfinish (Some c))
           (return_c ret))))))))))"

definition INDEX_STATIO :: string where
  [sql_texts]: "INDEX_STATIO = ''SELECT %s FROM pg_statio_all_indexes WHERE indexrelname = $1''"

definition PG_STATIO_ALL_INDEXES :: "env \<Rightarrow> agent_request \<Rightarrow> result_ptr \<Rightarrow> sysinfo_ret mcmd" where
  "PG_STATIO_ALL_INDEXES E request result =
     traced E ''%s()'' [AStr (Some ''PG_STAT_ALL_INDEXES'')]
       (bind_c (lift_c (key_from request 9)) (\<lambda>field.
       let index = get_rparam request PARAM_FIRST;
           format = (if strisnull index then PGSQL_GET_INDEX_STATIO_SUM else INDEX_STATIO) in
       bind_c (lift_c (snprintf E (MAX_STRING_LEN E) format [AStr (Some field)])) (\<lambda>query.
       bind_c (param_new index) (\<lambda>params.
       pg_get_int E request result query params))))"

definition PG_INDEX_IDX_BLKS_RATIO :: "env \<Rightarrow> agent_request \<Rightarrow> result_ptr \<Rightarrow> sysinfo_ret mcmd" where
  "PG_INDEX_IDX_BLKS_RATIO E request result =
     traced E ''%s()'' [AStr (Some ''PG_INDEX_IDX_BLKS_RATIO'')]
       (let index = get_rparam request PARAM_FIRST in
        if strisnull index then
          pg_get_percentage E request result ''pg_statio_all_indexes''
            ''sum(idx_blks_hit)'' ''sum(idx_blks_hit) + sum(idx_blks_read)'' None None
        else
          pg_get_percentage E request result ''pg_statio_all_indexes''
            ''idx_blks_hit'' ''idx_blks_hit + idx_blks_read'' (Some ''indexrelname'') index)"

definition PG_INDEX_SIZE :: "env \<Rightarrow> agent_request \<Rightarrow> result_ptr \<Rightarrow> sysinfo_ret mcmd" where
  "PG_INDEX_SIZE E request result =
     traced E ''%s()'' [AStr (Some ''PG_INDEX_SIZE'')]
       (let index = get_rparam request PARAM_FIRST in
        if strisnull index then pg_get_int E request result PGSQL_GET_INDEX_SIZE_SUM None
        else
          bind_c (param_new index) (\<lambda>params.
          pg_get_int E request result PGSQL_GET_INDEX_SIZE params))"

definition PG_INDEX_ROWS :: "env \<Rightarrow> agent_request \<Rightarrow> result_ptr \<Rightarrow> sysinfo_ret mcmd" where
  "PG_INDEX_ROWS E request result =
     traced E ''%s()'' [AStr (Some ''PG_INDEX_ROWS'')]
       (let index = get_rparam request PARAM_FIRST;
            query = (if strisnull index then PGSQL_GET_INDEX_ROWS_SUM else PGSQL_GET_INDEX_ROWS) in
        bind_c (param_new index) (\<lambda>params.
        pg_get_int E request result query params))"

section \<open>The query of the index discovery\<close>

text \<open>
  The text the discovery query is meant to be: the filters are pasted between quotes as they are.
\<close>

definition name_filter :: "string \<Rightarrow> string option \<Rightarrow> string" where
  "name_filter column v =
     (if strisnull v then [] else '' AND '' @ column @ '' = '' @ SQ @ the v @ SQ)"

definition index_text :: "agent_request \<Rightarrow> string" where
  "index_text request =
     PGSQL_DISCOVER_INDEXES @ name_filter ''n.nspname'' (get_rparam request (PARAM_FIRST + 1)) @
     name_filter ''t.relname'' (get_rparam request (PARAM_FIRST + 2))"

lemma local_array_run:
  assumes "cstring t" and "length t < n"
  shows "local_array n t = Inr (array_text n t)"
  using copy_chars_run [of t "replicate n NUL" "[]"] assms
  by (simp add: local_array_def array_text_def)

lemma strcat2_array:
  assumes "cstring t" and "cstring u" and "c \<le> length t" and "length t < n"
  shows "strcat2 (array_text n t) (Some c) (Some u) =
    (if length (t @ u) < n then Inr (array_text n (t @ u), Some (length (t @ u))) else Inl Out_of_bounds)"
proof -
  have split: "array_text n t = take c t @ drop c t @ NUL # replicate (n - Suc (length t)) NUL"
    by (simp add: array_text_def)
  have cs: "cstring (drop c t)" using assms(1) by (auto simp: cstring_def dest: in_set_dropD)
  have len: "length (take c t) = c" using assms(3) by simp
  show ?thesis
  proof (cases "length (t @ u) < n")
    case True
    then have "length u \<le> length (replicate (n - Suc (length t)) NUL)" by simp
    from strcat2_run [OF cs assms(2) this, of "take c t"] show ?thesis
      using True len assms(3) unfolding split by (simp add: array_text_def)
  next
    case False
    then have "length (replicate (n - Suc (length t)) NUL) < length u" using assms(4) by simp
    from strcat2_overflow [OF cs assms(2) this, of "take c t"] show ?thesis
      using False len unfolding split by simp
  qed
qed

lemma append_filter_run:
  assumes E: "zabbix_ok E" and t: "cstring t" "length t < MAX_STRING_LEN E" "c \<le> length t" "t \<noteq> []"
    and v: "cstring_ptr v" and col: "cstring column" "CHR ''%'' \<notin> set column"
  shows "append_filter E ('' AND '' @ column @ '' = '' @ SQ @ ''%s'' @ SQ) v
      (array_text (MAX_STRING_LEN E) t, Some c) =
    (if length (t @ name_filter column v) < MAX_STRING_LEN E then
       Inr (array_text (MAX_STRING_LEN E) (t @ name_filter column v),
         Some (if strisnull v then c else length (t @ name_filter column v)))
     else Inl Out_of_bounds)"
proof (cases "strisnull v")
  case True
  then show ?thesis using t by (simp add: append_filter_def name_filter_def)
next
  case False
  then obtain x where x: "v = Some x" "x \<noteq> []" by (auto simp: not_strisnull)
  let ?u = "name_filter column v"
  have u: "?u = '' AND '' @ column @ '' = '' @ SQ @ x @ SQ" using x by (simp add: name_filter_def)
  have csu: "cstring ?u" unfolding u using v x col(1) by (auto simp: cstring_def cstring_ptr_def)
  have "c_format (('' AND '' @ column @ '' = '' @ SQ) @ ''%s'' @ SQ) [AStr v] = Inr ?u"
    unfolding u using col(2) by (subst c_format_append) (auto simp: x)
  then have sn: "snprintf E (MAX_STRING_LEN E) ('' AND '' @ column @ '' = '' @ SQ @ ''%s'' @ SQ) [AStr v]
      = Inr (take (MAX_STRING_LEN E - 1) ?u)"
    using E by (simp add: snprintf_def zabbix_ok_def)
  have cst: "cstring (take (MAX_STRING_LEN E - 1) ?u)"
    using csu by (auto simp: cstring_def dest: in_set_takeD)
  have "length (t @ take (MAX_STRING_LEN E - 1) ?u) < MAX_STRING_LEN E \<longleftrightarrow>
      length (t @ ?u) < MAX_STRING_LEN E"
    using t(4) by (cases t) (auto simp: min_def)
  moreover have "take (MAX_STRING_LEN E - 1) ?u = ?u" if "length (t @ ?u) < MAX_STRING_LEN E"
    using that by simp
  ultimately show ?thesis
    using False sn strcat2_array [OF t(1) cst t(3,2)] by (simp add: append_filter_def)
qed

text \<open>The query fits into its array, or the array is overrun: there is no third case.\<close>

lemma cstring_discover_indexes: "cstring PGSQL_DISCOVER_INDEXES"
  by (simp add: cstring_def PGSQL_DISCOVER_INDEXES_def)

lemma length_discover_indexes: "length PGSQL_DISCOVER_INDEXES = 608"
  by (simp add: PGSQL_DISCOVER_INDEXES_def)

lemma index_discovery_query_run:
  assumes E: "zabbix_ok E" and req: "request_ok request"
  shows "index_discovery_query E request =
    (if length (index_text request) < MAX_STRING_LEN E then Inr (index_text request)
     else Inl Out_of_bounds)"
proof -
  let ?t = PGSQL_DISCOVER_INDEXES and ?n = "MAX_STRING_LEN E"
  let ?v = "get_rparam request (PARAM_FIRST + 1)" and ?w = "get_rparam request (PARAM_FIRST + 2)"
  let ?fv = "name_filter ''n.nspname'' ?v" and ?fw = "name_filter ''t.relname'' ?w"
  have n: "?n = 2048" using E by (simp add: zabbix_ok_def)
  have ptr: "cstring_ptr ?v" "cstring_ptr ?w" using req by (simp_all add: request_ok_def)
  have ne: "?t \<noteq> []" using length_discover_indexes by auto
  have "zbx_strlcpy E ?n ?t = ?t"
    using E length_discover_indexes by (simp add: zabbix_ok_def)
  moreover have "local_array ?n ?t = Inr (array_text ?n ?t)"
    by (rule local_array_run [OF cstring_discover_indexes]) (simp add: n length_discover_indexes)
  ultimately have start: "local_array ?n (zbx_strlcpy E ?n ?t) = Inr (array_text ?n ?t)" by simp
  have 1: "append_filter E ('' AND n.nspname = '' @ SQ @ ''%s'' @ SQ) ?v (array_text ?n ?t, Some 0) =
    (if length (?t @ ?fv) < ?n then Inr (array_text ?n (?t @ ?fv),
         Some (if strisnull ?v then 0 else length (?t @ ?fv)))
     else Inl Out_of_bounds)"
    using append_filter_run [OF E cstring_discover_indexes _ _ ne ptr(1), of 0 "''n.nspname''"]
    by (simp add: n length_discover_indexes cstring_def)
  show ?thesis
  proof (cases "length (?t @ ?fv) < ?n")
    case False
    then have "\<not> length (index_text request) < ?n" by (simp add: index_text_def)
    then show ?thesis unfolding index_discovery_query_def start bind_f_simps prod.case 1
      using False by simp
  next
    case True
    have cs: "cstring (?t @ ?fv)"
      using cstring_discover_indexes ptr(1)
      by (auto simp: cstring_def name_filter_def cstring_ptr_def strisnull_def split: option.splits)
    have 2: "append_filter E ('' AND t.relname = '' @ SQ @ ''%s'' @ SQ) ?w
        (array_text ?n (?t @ ?fv), Some (if strisnull ?v then 0 else length (?t @ ?fv))) =
      (if length ((?t @ ?fv) @ ?fw) < ?n then Inr (array_text ?n ((?t @ ?fv) @ ?fw),
           Some (if strisnull ?w then (if strisnull ?v then 0 else length (?t @ ?fv))
             else length ((?t @ ?fv) @ ?fw)))
       else Inl Out_of_bounds)"
      using append_filter_run [OF E cs True _ _ ptr(2), of "if strisnull ?v then 0 else length (?t @ ?fv)" "''t.relname''"] ne
      by (simp add: cstring_def)
    have csw: "cstring (index_text request)"
      using cs ptr(2) by (auto simp: cstring_def index_text_def name_filter_def cstring_ptr_def
          strisnull_def split: option.splits)
    have "c_str (array_text ?n (index_text request)) 0 = Inr (index_text request)"
      by (rule c_str_array [OF csw])
    moreover have "index_text request = (?t @ ?fv) @ ?fw" by (simp add: index_text_def)
    ultimately show ?thesis
      unfolding index_discovery_query_def start bind_f_simps prod.case 1
      using True 2 by simp
  qed
qed

section \<open>Plans\<close>

lemma PG_INDEX_DISCOVERY_implements:
  assumes "zabbix_ok E" and "length (index_text request) < MAX_STRING_LEN E"
  shows "implements named PG_INDEX_DISCOVERY E request
    (mode_plan (get_rparam request PARAM_FIRST) (index_text request))"
proof (rule implements_traced [OF PG_INDEX_DISCOVERY_def], goal_cases)
  case (1 s result)
  note ok = 1(1)
  have q: "index_discovery_query E request = Inr (index_text request)"
    using index_discovery_query_run [OF assms(1)] call_okD [OF ok] assms(2) by simp
  show ?case
    unfolding q bind_c_lift Let_def by (rule mode_refines [OF ok request_param [OF ok]])
qed

text \<open>A counter of \<open>pg_stat_all_indexes\<close>, read as an \<open>int\<close>.\<close>

definition sp_counter :: "env \<Rightarrow> string \<Rightarrow> result_ptr \<Rightarrow> pgresult \<Rightarrow> (view, sysinfo_ret) cmd" where
  "sp_counter E query result r =
     (if PQresultStatus r \<noteq> PGRES_TUPLES_OK then
        seq_c (sp_error E result (query_error r)) (return_c SYSINFO_RET_FAIL)
      else if PQntuples r = 0 then
        seq_c (sp_error E result (''No results returned for query: '' @ query)) (return_c SYSINFO_RET_FAIL)
      else
        bind_c (lift_c (bind_f (non_null (PQgetvalue r 0 0)) atoi)) (\<lambda>n.
        seq_c (sp_answer (\<lambda>a. a\<lparr>res_ui64 := Some (of_int n)\<rparr>)) (return_c SYSINFO_RET_OK)))"

definition counter_body :: "env \<Rightarrow> string \<Rightarrow> result_ptr \<Rightarrow> pgresult \<Rightarrow> sysinfo_ret mcmd" where
  "counter_body E query result r =
     (if PQresultStatus r \<noteq> PGRES_TUPLES_OK then
        reject E result ''PostgreSQL query error: %s'' [AStr (Some (PQresultErrorMessage r))]
      else if PQntuples r = 0 then
        reject E result ''No results returned for query: %s'' [AStr (Some query)]
      else
        bind_c (lift_c (non_null (PQgetvalue r 0 0))) (\<lambda>v.
        bind_c (strdup v) (\<lambda>buffer.
        bind_c (fetch_str buffer) (\<lambda>text.
        bind_c (lift_c (atoi text)) (\<lambda>n.
        seq_c (SET_UI64_RESULT (of_int n))
        (return_c SYSINFO_RET_OK))))))"

lemma counter_body_refines:
  assumes "fresh_ok s" and "good_result r"
  shows "refines {} id (counter_body E query result r) (sp_counter E query result r) s"
proof (cases "PQresultStatus r = PGRES_TUPLES_OK \<and> PQntuples r \<noteq> 0")
  case False
  have "c_format ''No results returned for query: %s'' [AStr (Some query)]
      = Inr (''No results returned for query: '' @ query)" by simp
  from reject_refines_body [OF assms(1) this, of id SYSINFO_RET_FAIL SYSINFO_RET_FAIL "{}" E result]
    reject_refines_body [OF assms(1) query_error_format, of id SYSINFO_RET_FAIL SYSINFO_RET_FAIL "{}" E result r]
  show ?thesis
    using False by (auto simp: counter_body_def sp_counter_def reject_def)
next
  case True
  show ?thesis
  proof (cases "PQgetvalue r 0 0")
    case None
    then show ?thesis using True
      by (intro refines_Inl) (simp_all add: counter_body_def sp_counter_def non_null_def bind_c_run cmd_simps)
  next
    case (Some v)
    then show ?thesis
      using True assms(1)
      by (cases "atoi v")
        (auto simp: counter_body_def sp_counter_def non_null_def strdup_def alloc_def fetch_str_def
          fetch_def SET_UI64_RESULT_def refines_def sp_runs view_of_def framed_def fresh_ok_def)
  qed
qed

lemma PG_STAT_ALL_INDEXES_session:
  "PG_STAT_ALL_INDEXES E request result =
     traced E ''%s()'' [AStr (Some ''PG_STAT_ALL_INDEXES'')]
       (bind_c (lift_c (key_from request 9)) (\<lambda>field.
       bind_c (lift_c (snprintf E (MAX_STRING_LEN E)
         (if strisnull (get_rparam request PARAM_FIRST) then INDEX_STAT_SUM else INDEX_STAT)
         [AStr (Some field)])) (\<lambda>query.
       session_new E request result query (get_rparam request PARAM_FIRST) SYSINFO_RET_FAIL
         (counter_body E query result))))"
  unfolding PG_STAT_ALL_INDEXES_def session_new_def use_conn_def counter_body_def Let_def
  by (rule refl)

lemma PG_STAT_ALL_INDEXES_implements:
  assumes "zabbix_ok E" and "key_ok request 9"
  shows "implements named PG_STAT_ALL_INDEXES E request
    (let field = drop 9 (req_key request);
         v = get_rparam request PARAM_FIRST;
         query = fill (if strisnull v then INDEX_STAT_SUM else INDEX_STAT) [field] in
     Session query (given v) (sp_counter E query))"
proof (rule implements_traced [OF PG_STAT_ALL_INDEXES_session], goal_cases)
  case (1 s result)
  note ok = 1(1)
  let ?f = "drop 9 (req_key request)" and ?v = "get_rparam request PARAM_FIRST"
  let ?q = "fill (if strisnull ?v then INDEX_STAT_SUM else INDEX_STAT) [?f]"
  have q: "snprintf E (MAX_STRING_LEN E) (if strisnull ?v then INDEX_STAT_SUM else INDEX_STAT)
      [AStr (Some ?f)] = Inr ?q"
    by (rule field_text [OF assms]) (simp_all add: INDEX_STAT_SUM_def INDEX_STAT_def)
  have "refines {} id (session_new E request result ?q ?v SYSINFO_RET_FAIL (counter_body E ?q result))
      (sp_session E (request_connstring request) result ?q (given ?v) SYSINFO_RET_FAIL (sp_counter E ?q result)) s"
    by (rule session_new_refines [OF ok counter_body_refines]) simp_all
  then show ?case
    unfolding key_from_run [OF assms(2)] bind_c_lift q Let_def run_plan.simps .
qed

lemma PG_STATIO_ALL_INDEXES_implements:
  assumes "zabbix_ok E" and "key_ok request 9"
  shows "implements named PG_STATIO_ALL_INDEXES E request
    (let field = drop 9 (req_key request) in
      value_plan AR_UINT64 (get_rparam request PARAM_FIRST) (fill PGSQL_GET_INDEX_STATIO_SUM [field]) (fill INDEX_STATIO [field]))"
proof (rule implements_traced [OF PG_STATIO_ALL_INDEXES_def], goal_cases)
  case (1 s result)
  note ok = 1(1)
  let ?f = "drop 9 (req_key request)" and ?v = "get_rparam request PARAM_FIRST"
  let ?q = "fill (if strisnull ?v then PGSQL_GET_INDEX_STATIO_SUM else INDEX_STATIO) [?f]"
  have q: "snprintf E (MAX_STRING_LEN E) (if strisnull ?v then PGSQL_GET_INDEX_STATIO_SUM else INDEX_STATIO)
      [AStr (Some ?f)] = Inr ?q"
    by (rule field_text [OF assms]) (simp_all add: PGSQL_GET_INDEX_STATIO_SUM_def INDEX_STATIO_def)
  have "refines {} id (bind_c (param_new ?v) (pg_get_int E request result ?q))
      (run_plan E request result (value_plan AR_UINT64 ?v (fill PGSQL_GET_INDEX_STATIO_SUM [?f]) (fill INDEX_STATIO [?f]))) s"
    using value_param_refines [OF ok, of AR_UINT64 ?v result]
    by (cases "strisnull ?v") (simp_all add: value_plan_def given_cases)
  then show ?case
    unfolding key_from_run [OF assms(2)] bind_c_lift q Let_def .
qed

lemma PG_INDEX_IDX_BLKS_RATIO_implements:
  assumes "zabbix_ok E"
  shows "implements named PG_INDEX_IDX_BLKS_RATIO E request
    (ratio_plan (get_rparam request PARAM_FIRST) ''pg_statio_all_indexes''
      ''sum(idx_blks_hit)'' ''sum(idx_blks_hit) + sum(idx_blks_read)'' ''idx_blks_hit'' ''idx_blks_hit + idx_blks_read'' ''indexrelname'')"
  by (rule implements_traced [OF PG_INDEX_IDX_BLKS_RATIO_def]) (simp add: Let_def ratio_refines assms)

lemma PG_INDEX_SIZE_implements:
  "implements named PG_INDEX_SIZE E request
    (value_plan AR_UINT64 (get_rparam request PARAM_FIRST) PGSQL_GET_INDEX_SIZE_SUM PGSQL_GET_INDEX_SIZE)"
  by (rule implements_traced [OF PG_INDEX_SIZE_def]) (simp add: Let_def value_plan_split_refines)

lemma PG_INDEX_ROWS_implements:
  "implements named PG_INDEX_ROWS E request
    (value_plan AR_UINT64 (get_rparam request PARAM_FIRST) PGSQL_GET_INDEX_ROWS_SUM PGSQL_GET_INDEX_ROWS)"
  by (rule implements_traced [OF PG_INDEX_ROWS_def]) (simp add: Let_def value_plan_refines)

end
