(* ===== verification/Backends.thy ===== *)
theory Backends
  imports Items
begin

text \<open>
  Items of the connections and queries of the server (\<open>pg_backends.c\<close>), with the filter clause
  \<open>build_activity_clause\<close> makes of the parameters, and the two tests \<open>is_oid\<close> and \<open>is_valid_ip\<close> of
  \<open>libzbxpgsql.c\<close> it uses.
\<close>

definition PGSQL_GET_BACKENDS :: string where
  [sql_texts]: "PGSQL_GET_BACKENDS =
     ''SELECT COUNT(datid) FROM pg_stat_activity WHERE %s != pg_backend_pid()%s;''"

definition PGSQL_GET_LONGEST_QUERY_92 :: string where
  [sql_texts]: "PGSQL_GET_LONGEST_QUERY_92 =
     ''SELECT '' @
     ''  COALESCE( '' @
     ''    (SELECT '' @
     ''      EXTRACT(EPOCH FROM NOW()) - EXTRACT(EPOCH FROM query_start) AS duration '' @
     ''    FROM pg_stat_activity '' @
     ''    WHERE '' @
     ''      state = 'active' '' @
     ''      AND pid != pg_backend_pid() %s'' @
     ''    ORDER BY duration DESC '' @
     ''    LIMIT 1), 0);''"

definition PGSQL_GET_LONGEST_QUERY :: string where
  [sql_texts]: "PGSQL_GET_LONGEST_QUERY =
     ''SELECT '' @
     ''  COALESCE( '' @
     ''    (SELECT '' @
     ''      EXTRACT(EPOCH FROM NOW()) - EXTRACT(EPOCH FROM query_start) AS duration '' @
     ''    FROM pg_stat_activity '' @
     ''    WHERE '' @
     ''      current_query NOT IN ('' @ SQ @ SQ @ '', '<IDLE>', '<insufficient privilege>') '' @
     ''      AND procpid != pg_backend_pid() %s'' @
     ''    ORDER BY duration DESC '' @
     ''    LIMIT 1), 0);''"

section \<open>Tests\<close>

text \<open>The loop of \<open>is_oid\<close>, with the value of \<open>res\<close>.\<close>

fun is_oid_loop :: "int \<Rightarrow> string \<Rightarrow> int" where
  "is_oid_loop res [] = res"
| "is_oid_loop res (p # str) = (if \<not> isdigit p then 0 else is_oid_loop 1 str)"

definition is_oid :: "string \<Rightarrow> int" where
  "is_oid str = is_oid_loop 0 str"

definition is_valid_ip :: "env \<Rightarrow> string \<Rightarrow> int" where
  "is_valid_ip E str =
     (let res = 0;
          res = (if inet_pton4 E str then 1 else res) in
      if inet_pton6 E str then 1 else res)"

section \<open>The filter clause\<close>

definition MAX_QUERY_LEN :: nat where "MAX_QUERY_LEN = 4096"
definition MAX_CLAUSE_LEN :: nat where "MAX_CLAUSE_LEN = 4096"
definition PG_WHERE :: string where "PG_WHERE = ''WHERE''"
definition PG_AND :: string where "PG_AND = ''AND''"

text \<open>
  The variables of the loop: the array, the offset of \<open>buf\<close> in it, the conjunction, the number of
  the last placeholder, and the parameter vector. \<open>zbx_snprintf\<close> is told the size of the whole array
  at every offset; a write beyond its end is a fault.
\<close>

record clause_state =
  cl_array :: "char list"
  cl_buf :: nat
  cl_clause :: string
  cl_pgi :: int
  cl_params :: "nat option"

text \<open>A call of \<open>zbx_snprintf\<close> at \<open>buf\<close>, and \<open>buf += strlen(buf); clause = PG_AND\<close> after it.\<close>

definition put_clause :: "env \<Rightarrow> string \<Rightarrow> farg list \<Rightarrow> clause_state \<Rightarrow> fault + clause_state" where
  "put_clause E fmt args v =
     bind_f (snprintf E MAX_CLAUSE_LEN fmt (AStr (Some (cl_clause v)) # args)) (\<lambda>t.
     bind_f (copy_chars (cl_array v) (cl_buf v) t) (\<lambda>(b, _).
     bind_f (c_str b (cl_buf v)) (\<lambda>written.
     Inr (v\<lparr>cl_array := b, cl_buf := cl_buf v + length written, cl_clause := PG_AND\<rparr>))))"

text \<open>A comparison of a column with the next placeholder.\<close>

definition put_column :: "env \<Rightarrow> string \<Rightarrow> string \<Rightarrow> clause_state \<Rightarrow> clause_state mcmd" where
  "put_column E fmt param v =
     bind_c (param_append (cl_params v) (Some param)) (\<lambda>params.
     lift_c (put_clause E fmt [AInt (cl_pgi v + 1)] (v\<lparr>cl_params := params, cl_pgi := cl_pgi v + 1\<rparr>)))"

text \<open>The body of the loop; the flag is False at the early return.\<close>

definition activity_step ::
  "env \<Rightarrow> agent_request \<Rightarrow> result_ptr \<Rightarrow> nat \<Rightarrow> clause_state \<Rightarrow> (bool \<times> clause_state) mcmd" where
  "activity_step E request result i v =
     (case get_rparam request (PARAM_FIRST + i) of
        None \<Rightarrow> return_c (True, v)
      | Some param \<Rightarrow>
          if strisnull (Some param) then return_c (True, v)
          else if i = 0 then
            bind_c (put_column E (if is_oid param \<noteq> 0 then '' %s datid = $%i'' else '' %s datname = $%i'')
                      param v) (\<lambda>v. return_c (True, v))
          else if i = 1 then
            bind_c (put_column E (if is_oid param \<noteq> 0 then '' %s usesysid = $%i'' else '' %s usename = $%i'')
                      param v) (\<lambda>v. return_c (True, v))
          else if i = 2 then
            bind_c (put_column E (if is_valid_ip E param \<noteq> 0 then '' %s client_addr = $%i::inet''
                      else '' %s client_hostname = $%i'') param v) (\<lambda>v. return_c (True, v))
          else if strncmp ''true'' param 5 = 0 then
            bind_c (lift_c (put_clause E '' %s waiting = TRUE'' [] v)) (\<lambda>v. return_c (True, v))
          else if strncmp ''false'' param 6 = 0 then
            bind_c (lift_c (put_clause E '' %s waiting = FALSE'' [] v)) (\<lambda>v. return_c (True, v))
          else
            seq_c (set_err_result E result
                     (''Unsupported parameter value: '' @ [CHR 0x22] @ ''%s'' @ [CHR 0x22] @ '' in %s'')
                     [AStr (Some param), AStr (Some (req_key request))])
              (return_c (False, v)))"

fun activity_loop ::
  "env \<Rightarrow> agent_request \<Rightarrow> result_ptr \<Rightarrow> nat list \<Rightarrow> clause_state \<Rightarrow> (bool \<times> clause_state) mcmd" where
  "activity_loop E request result [] v = return_c (True, v)"
| "activity_loop E request result (i # is) v =
     bind_c (activity_step E request result i v) (\<lambda>(ok, v).
     if ok then activity_loop E request result is v else return_c (False, v))"

text \<open>An unsupported filter returns from inside of the loop, before the message of the exit.\<close>

definition build_activity_clause ::
  "env \<Rightarrow> agent_request \<Rightarrow> result_ptr \<Rightarrow> char list \<Rightarrow> nat option \<Rightarrow> int
     \<Rightarrow> (bool \<times> clause_state) mcmd" where
  "build_activity_clause E request result buf params has_clause =
     seq_c (zabbix_log E LOG_LEVEL_DEBUG ''In %s()'' [AStr (Some ''build_activity_clause'')])
     (bind_c (activity_loop E request result [0, 1, 2, 3]
       \<lparr>cl_array = buf, cl_buf = 0, cl_clause = (if 0 < has_clause then PG_AND else PG_WHERE),
        cl_pgi = 0, cl_params = params\<rparr>) (\<lambda>(ok, v).
     if \<not> ok then return_c (False, v)
     else
       seq_c (zabbix_log E LOG_LEVEL_DEBUG ''End of %s()'' [AStr (Some ''build_activity_clause'')])
       (return_c (True, v))))"

section \<open>Items\<close>

definition PG_BACKENDS_COUNT :: "env \<Rightarrow> agent_request \<Rightarrow> result_ptr \<Rightarrow> sysinfo_ret mcmd" where
  "PG_BACKENDS_COUNT E request result =
     traced E ''%s()'' [AStr (Some ''PG_BACKENDS_COUNT'')]
       (bind_c (int_version E request result) (\<lambda>version.
       if version = 0 then return_c SYSINFO_RET_FAIL
       else
         (let pid = (if version < 90200 then ''procpid'' else ''pid'') in
          bind_c (build_activity_clause E request result (replicate MAX_CLAUSE_LEN NUL) None 1) (\<lambda>(ok, v).
          if \<not> ok then return_c SYSINFO_RET_FAIL
          else
            bind_c (lift_c (c_str (cl_array v) 0)) (\<lambda>clause.
            bind_c (lift_c (snprintf E MAX_QUERY_LEN PGSQL_GET_BACKENDS
                      [AStr (Some pid), AStr (Some clause)])) (\<lambda>query.
            pg_get_int E request result query (cl_params v)))))))"

definition BACKENDS_RATIO :: string where
  [sql_texts]: "BACKENDS_RATIO =
     ''SELECT '' @
     ''  CASE '' @
     ''    WHEN COUNT(datid) = 0 THEN 0.00 '' @
     ''    ELSE (COUNT(datid)::float / current_setting('max_connections')::integer) '' @
     ''  END '' @
     ''FROM pg_stat_activity '' @
     ''WHERE %s != pg_backend_pid();''"

definition PG_BACKENDS_RATIO :: "env \<Rightarrow> agent_request \<Rightarrow> result_ptr \<Rightarrow> sysinfo_ret mcmd" where
  "PG_BACKENDS_RATIO E request result =
     traced E ''%s()'' [AStr (Some ''PG_BACKENDS_RATIO'')]
       (bind_c (int_version E request result) (\<lambda>version.
       if version = 0 then return_c SYSINFO_RET_FAIL
       else
         (let pid = (if version < 90200 then ''procpid'' else ''pid'') in
          bind_c (lift_c (snprintf E MAX_QUERY_LEN BACKENDS_RATIO [AStr (Some pid)])) (\<lambda>query.
          pg_get_dbl E request result query None))))"

definition BACKENDS_FREE :: string where
  [sql_texts]: "BACKENDS_FREE =
     ''SELECT '' @
     ''  current_setting('max_connections')::integer - COUNT(datid) '' @
     ''FROM pg_stat_activity;''"

definition PG_BACKENDS_FREE :: "env \<Rightarrow> agent_request \<Rightarrow> result_ptr \<Rightarrow> sysinfo_ret mcmd" where
  "PG_BACKENDS_FREE E request result =
     traced E ''%s()'' [AStr (Some ''PG_BACKENDS_FREE'')]
       (pg_get_dbl E request result BACKENDS_FREE None)"

definition PG_QUERIES_LONGEST :: "env \<Rightarrow> agent_request \<Rightarrow> result_ptr \<Rightarrow> sysinfo_ret mcmd" where
  "PG_QUERIES_LONGEST E request result =
     traced E ''%s()'' [AStr (Some ''PG_QUERIES_LONGEST'')]
       (bind_c (build_activity_clause E request result (replicate MAX_CLAUSE_LEN NUL) None 1) (\<lambda>(ok, v).
       if \<not> ok then return_c SYSINFO_RET_FAIL
       else
         bind_c (int_version E request result) (\<lambda>version.
         if version = 0 then return_c SYSINFO_RET_FAIL
         else
           bind_c (lift_c (c_str (cl_array v) 0)) (\<lambda>clause.
           bind_c (lift_c (snprintf E MAX_QUERY_LEN
                     (if version < 90200 then PGSQL_GET_LONGEST_QUERY else PGSQL_GET_LONGEST_QUERY_92)
                     [AStr (Some clause)])) (\<lambda>query.
           pg_get_dbl E request result query (cl_params v))))))"

section \<open>The clause the filters are meant to give\<close>

lemma is_oid_loop_1: "is_oid_loop 1 x = (if list_all isdigit x then 1 else 0)"
  by (induction x) simp_all

lemma is_oid_iff: "is_oid x \<noteq> 0 \<longleftrightarrow> x \<noteq> [] \<and> list_all isdigit x"
  by (cases x) (simp_all add: is_oid_def is_oid_loop_1)

lemma is_valid_ip_iff: "is_valid_ip E x \<noteq> 0 \<longleftrightarrow> inet_pton4 E x \<or> inet_pton6 E x"
  by (simp add: is_valid_ip_def)

text \<open>The filters of a request: the positions and values of the parameters that are given.\<close>

definition filters :: "agent_request \<Rightarrow> nat list \<Rightarrow> (nat \<times> string) list" where
  "filters request is =
     concat (map (\<lambda>i. map (Pair i) (given (get_rparam request (PARAM_FIRST + i)))) is)"

text \<open>The column a filter compares, and the cast of its placeholder.\<close>

definition compared :: "env \<Rightarrow> nat \<Rightarrow> string \<Rightarrow> string \<times> string" where
  "compared E i x =
     (if i = 0 then (if list_all isdigit x then ''datid'' else ''datname'', [])
      else if i = 1 then (if list_all isdigit x then ''usesysid'' else ''usename'', [])
      else if inet_pton4 E x \<or> inet_pton6 E x then (''client_addr'', ''::inet'')
      else (''client_hostname'', []))"

definition condition :: "env \<Rightarrow> nat \<Rightarrow> nat \<Rightarrow> string \<Rightarrow> string" where
  "condition E n i x =
     (if i < 3 then
        (let (column, cast) = compared E i x in column @ '' = $'' @ show_int (int n) @ cast)
      else if x = ''true'' then ''waiting = TRUE'' else ''waiting = FALSE'')"

text \<open>The conjunction of the filters; \<open>n\<close> placeholders precede.\<close>

fun clause_text :: "env \<Rightarrow> string \<Rightarrow> nat \<Rightarrow> (nat \<times> string) list \<Rightarrow> string" where
  "clause_text E cj n [] = []"
| "clause_text E cj n ((i, x) # fs) =
     '' '' @ cj @ '' '' @ condition E (Suc n) i x @
     clause_text E PG_AND (if i < 3 then Suc n else n) fs"

definition bound_values :: "(nat \<times> string) list \<Rightarrow> string list" where
  "bound_values fs = map snd (filter (\<lambda>(i, x). i < 3) fs)"

fun bad_filter :: "(nat \<times> string) list \<Rightarrow> string option" where
  "bad_filter [] = None"
| "bad_filter ((i, x) # fs) =
     (if i < 3 \<or> x = ''true'' \<or> x = ''false'' then bad_filter fs else Some x)"

lemma filters_simps [simp]:
  "filters request [] = []"
  "filters request (i # is) =
     map (Pair i) (given (get_rparam request (PARAM_FIRST + i))) @ filters request is"
  by (simp_all add: filters_def)

lemma bound_values_simps [simp]:
  "bound_values [] = []"
  "bound_values ((i, x) # fs) = (if i < 3 then x # bound_values fs else bound_values fs)"
  by (simp_all add: bound_values_def)

section \<open>The loop builds the clause\<close>

text \<open>The state of the loop: the text so far, the conjunction to come and the values bound so far.\<close>

definition clause_inv ::
  "clause_state \<Rightarrow> cstate \<Rightarrow> string \<Rightarrow> string \<Rightarrow> string list \<Rightarrow> nat set \<Rightarrow> bool" where
  "clause_inv v s t cj xs F \<longleftrightarrow>
     cl_array v = array_text MAX_CLAUSE_LEN t \<and> cl_buf v = length t \<and> cl_clause v = cj \<and>
     cl_pgi v = int (length xs) \<and> params_at s (cl_params v) xs F \<and> fresh_ok s \<and>
     cstring t \<and> cstring cj \<and> length cj \<le> 5"

lemma put_clause_run:
  assumes "zabbix_ok E" and "clause_inv v s t cj xs F"
    and "c_format fmt (AStr (Some cj) # args) = Inr u" and "cstring u"
    and "length t + length u < MAX_CLAUSE_LEN"
  shows "put_clause E fmt args v = Inr (v\<lparr>cl_array := array_text MAX_CLAUSE_LEN (t @ u),
    cl_buf := length (t @ u), cl_clause := PG_AND\<rparr>)"
proof -
  have "snprintf E MAX_CLAUSE_LEN fmt (AStr (Some (cl_clause v)) # args) = Inr u"
    using assms by (simp add: snprintf_def zabbix_ok_def clause_inv_def)
  then show ?thesis
    using assms put_array [OF assms(4), of t MAX_CLAUSE_LEN] c_str_array_end [OF assms(4)]
    by (simp add: put_clause_def clause_inv_def)
qed

text \<open>The format of a comparison.\<close>

definition comparison_format :: "env \<Rightarrow> nat \<Rightarrow> string \<Rightarrow> string" where
  "comparison_format E i x =
     (if i = 0 then (if is_oid x \<noteq> 0 then '' %s datid = $%i'' else '' %s datname = $%i'')
      else if i = 1 then (if is_oid x \<noteq> 0 then '' %s usesysid = $%i'' else '' %s usename = $%i'')
      else (if is_valid_ip E x \<noteq> 0 then '' %s client_addr = $%i::inet''
            else '' %s client_hostname = $%i''))"

lemma comparison_format_run:
  assumes "x \<noteq> []" and "i < 3"
  shows "c_format (comparison_format E i x) [AStr (Some cj), AInt (int n)]
    = Inr ('' '' @ cj @ '' '' @ condition E n i x)"
  using assms
  by (simp add: comparison_format_def condition_def compared_def is_oid_iff is_valid_ip_iff)

lemma show_int_digit: "n < 10 \<Longrightarrow> show_int (int n) = [digit_char n]"
  by (simp add: show_int_def show_nat.simps)

lemma cstring_digit: "n < 10 \<Longrightarrow> digit_char n \<noteq> NUL"
  using digit_char_facts(1) [of n] by (auto simp: isdigit_def code_def)

lemma condition_facts:
  assumes "n < 10"
  shows "cstring (condition E n i x)" and "length (condition E n i x) \<le> 30"
  using cstring_digit [OF assms]
  by (simp_all add: condition_def compared_def show_int_digit [OF assms])

lemma activity_step_given:
  assumes "i < 3" and "get_rparam request (PARAM_FIRST + i) = Some x" and "x \<noteq> []"
  shows "activity_step E request result i v =
    bind_c (put_column E (comparison_format E i x) x v) (\<lambda>v. return_c (True, v))"
  using assms by (auto simp: activity_step_def comparison_format_def numeral_3_eq_3 less_Suc_eq)

lemma activity_step_column:
  assumes E: "zabbix_ok E" and inv: "clause_inv v s t cj xs F"
    and i: "i < 3" and x: "get_rparam request (PARAM_FIRST + i) = Some x" "x \<noteq> []"
    and room: "length t + 40 < MAX_CLAUSE_LEN" "length xs < 9"
  shows "\<exists>v' s' F'. activity_step E request result i v s = Inr ((True, v'), s') \<and>
    clause_inv v' s' (t @ '' '' @ cj @ '' '' @ condition E (Suc (length xs)) i x) PG_AND (xs @ [x]) F' \<and>
    only_store F s F' s'"
proof -
  let ?u = "'' '' @ cj @ '' '' @ condition E (Suc (length xs)) i x"
  from inv have at: "params_at s (cl_params v) xs F" and fresh: "fresh_ok s"
    and pgi: "cl_pgi v + 1 = int (Suc (length xs))" by (simp_all add: clause_inv_def)
  obtain p s' F' where p: "param_append (cl_params v) (Some x) s = Inr (p, s')"
    "params_at s' p (xs @ given (Some x)) F'" "only_store F s F' s'"
    using param_append_run [OF fresh at] by blast
  have g: "given (Some x) = [x]" using x(2) by (simp add: given_def)
  have fresh': "fresh_ok s'" using p(3) by (simp add: only_store_def)
  let ?w = "v\<lparr>cl_params := p, cl_pgi := cl_pgi v + 1\<rparr>"
  have inv': "clause_inv (v\<lparr>cl_params := p, cl_pgi := cl_pgi v + 1\<rparr>) s' t cj (xs @ [x]) F'"
    using inv p(2) fresh' by (simp add: clause_inv_def g)
  have n: "Suc (length xs) < 10" using room by simp
  have u: "cstring ?u" "length ?u \<le> 40"
    using condition_facts [OF n, of E i x] inv by (simp_all add: clause_inv_def)
  have put: "put_clause E (comparison_format E i x) [AInt (cl_pgi v + 1)] ?w
      = Inr (?w\<lparr>cl_array := array_text MAX_CLAUSE_LEN (t @ ?u), cl_buf := length (t @ ?u),
        cl_clause := PG_AND\<rparr>)"
    unfolding pgi by (rule put_clause_run [OF E inv'[unfolded pgi] comparison_format_run [OF x(2) i] u(1)])
      (use u room in simp)
  then have "activity_step E request result i v s = Inr ((True,
      ?w\<lparr>cl_array := array_text MAX_CLAUSE_LEN (t @ ?u), cl_buf := length (t @ ?u),
        cl_clause := PG_AND\<rparr>), s')"
    by (simp add: activity_step_given [OF i x] put_column_def bind_c_run p(1) cmd_simps)
  moreover have "clause_inv (?w\<lparr>cl_array := array_text MAX_CLAUSE_LEN (t @ ?u),
      cl_buf := length (t @ ?u), cl_clause := PG_AND\<rparr>) s' (t @ ?u) PG_AND (xs @ [x]) F'"
    using inv' inv u(1) by (simp add: clause_inv_def PG_AND_def)
  ultimately show ?thesis using p(3) by blast
qed

text \<open>The filter of the waiting backends is not a comparison: it has two texts and no other one.\<close>

lemma waiting_tests:
  assumes "cstring x"
  shows "strncmp ''true'' x 5 = 0 \<longleftrightarrow> x = ''true''" and "strncmp ''false'' x 6 = 0 \<longleftrightarrow> x = ''false''"
proof -
  have "cstring ''true''" "cstring ''false''" by simp_all
  note iff = strncmp_eq_0_iff [OF this(1) assms, of 5] strncmp_eq_0_iff [OF this(2) assms, of 6]
  have whole: "w = take n x \<longleftrightarrow> x = w" if "length w < n" for w n
    using that by (cases "length x < n") auto
  have "take 5 ''true'' = take 5 x \<longleftrightarrow> x = ''true''" "take 6 ''false'' = take 6 x \<longleftrightarrow> x = ''false''"
    using whole [of "''true''" 5] whole [of "''false''" 6] by simp_all
  then show "strncmp ''true'' x 5 = 0 \<longleftrightarrow> x = ''true''"
    and "strncmp ''false'' x 6 = 0 \<longleftrightarrow> x = ''false''" by (simp_all only: iff)
qed

abbreviation unsupported_format :: string where
  "unsupported_format \<equiv>
    ''Unsupported parameter value: '' @ [CHR 0x22] @ ''%s'' @ [CHR 0x22] @ '' in %s''"

lemma activity_step_waiting:
  assumes E: "zabbix_ok E" and inv: "clause_inv v s t cj xs F"
    and i: "\<not> i < 3" and x: "get_rparam request (PARAM_FIRST + i) = Some x" "x \<noteq> []" "cstring x"
    and room: "length t + 40 < MAX_CLAUSE_LEN"
  shows "if x = ''true'' \<or> x = ''false'' then
      \<exists>v'. activity_step E request result i v s = Inr ((True, v'), s) \<and>
        clause_inv v' s (t @ '' '' @ cj @ '' '' @ condition E n i x) PG_AND xs F
    else activity_step E request result i v s =
      seq_c (set_err_result E result unsupported_format [AStr (Some x), AStr (Some (req_key request))])
        (return_c (False, v)) s"
proof -
  let ?u = "'' '' @ cj @ '' '' @ condition E n i x"
    and ?fmt = "if x = ''true'' then '' %s waiting = TRUE'' else '' %s waiting = FALSE''"
  let ?v = "v\<lparr>cl_array := array_text MAX_CLAUSE_LEN (t @ ?u), cl_buf := length (t @ ?u),
      cl_clause := PG_AND\<rparr>"
  have step: "activity_step E request result i v =
      (if x = ''true'' \<or> x = ''false'' then bind_c (lift_c (put_clause E ?fmt [] v)) (\<lambda>v. return_c (True, v))
       else seq_c (set_err_result E result unsupported_format [AStr (Some x), AStr (Some (req_key request))])
        (return_c (False, v)))"
    using i x by (auto simp: activity_step_def waiting_tests)
  have c: "cstring cj" "length cj \<le> 5" "cstring t" using inv by (simp_all add: clause_inv_def)
  have fmt: "c_format ?fmt [AStr (Some cj)] = Inr ?u" using i by (simp add: condition_def)
  have u: "cstring ?u" "length ?u \<le> 40" using i c by (simp_all add: condition_def)
  have put: "put_clause E ?fmt [] v = Inr ?v"
    by (rule put_clause_run [OF E inv fmt u(1)]) (use u(2) room in simp)
  have "clause_inv ?v s (t @ ?u) PG_AND xs F"
    using inv u(1) by (simp add: clause_inv_def PG_AND_def)
  then show ?thesis
    by (simp add: step put bind_c_run cmd_simps del: append.simps append_assoc)
qed

lemma activity_step_absent:
  "strisnull (get_rparam request (PARAM_FIRST + i)) \<Longrightarrow>
    activity_step E request result i v s = Inr ((True, v), s)"
  by (cases "get_rparam request (PARAM_FIRST + i)") (simp_all add: activity_step_def cmd_simps)

text \<open>
  The loop: it ends with the whole clause and the values of its placeholders, or reports the first
  filter that is not supported. The array is never overrun: a round adds at most 40 bytes.
\<close>

lemma activity_loop_run:
  assumes E: "zabbix_ok E" and req: "request_ok request"
  shows "clause_inv v s t cj xs F \<Longrightarrow> length t + 40 * length is < MAX_CLAUSE_LEN \<Longrightarrow>
    length xs + length is < 10 \<Longrightarrow>
    (case bad_filter (filters request is) of
       None \<Rightarrow> \<exists>v' s' F' c'. activity_loop E request result is v s = Inr ((True, v'), s') \<and>
         clause_inv v' s' (t @ clause_text E cj (length xs) (filters request is)) c'
           (xs @ bound_values (filters request is)) F' \<and> only_store F s F' s'
     | Some x \<Rightarrow> \<exists>v' s' F'. activity_loop E request result is v s =
         seq_c (set_err_result E result unsupported_format [AStr (Some x), AStr (Some (req_key request))])
           (return_c (False, v')) s' \<and> only_store F s F' s')"
proof (induction "is" arbitrary: v s t cj xs F)
  case Nil
  then show ?case using only_store_refl [of s F] by (force simp: cmd_simps clause_inv_def)
next
  case (Cons i "is")
  let ?p = "get_rparam request (PARAM_FIRST + i)"
  have fresh: "fresh_ok s" using Cons.prems(1) by (simp add: clause_inv_def)
  have tail: ?case
    if step: "activity_step E request result i v s = Inr ((True, v1), s1)"
      and inv: "clause_inv v1 s1 (t @ u) cj1 (xs @ ys) F1" and only: "only_store F s F1 s1"
      and u: "length u \<le> 40" and ys: "length ys \<le> 1"
      and fs: "clause_text E cj (length xs) (filters request (i # is))
        = u @ clause_text E cj1 (length (xs @ ys)) (filters request is)"
        "bound_values (filters request (i # is)) = ys @ bound_values (filters request is)"
        "bad_filter (filters request (i # is)) = bad_filter (filters request is)"
    for v1 s1 u cj1 ys F1
  proof -
    have room: "length (t @ u) + 40 * length is < MAX_CLAUSE_LEN" "length (xs @ ys) + length is < 10"
      using Cons.prems(2,3) u ys by simp_all
    have loop: "activity_loop E request result (i # is) v s = activity_loop E request result is v1 s1"
      by (simp add: bind_c_run step)
    from Cons.IH [OF inv room] show ?thesis
      unfolding fs loop by (fastforce split: option.splits intro: only_store_trans [OF only])
  qed
  show ?case
  proof (cases "strisnull ?p")
    case True
    from tail [OF activity_step_absent [OF True], of "[]" cj "[]" F] show ?thesis
      using Cons.prems(1) only_store_refl [OF fresh] True by (simp add: given_def)
  next
    case False
    then obtain x where x: "?p = Some x" "x \<noteq> []" by (auto simp: not_strisnull)
    then have g: "given ?p = [x]" by (simp add: given_def)
    have cx: "cstring x" using req x by (auto simp: request_ok_def cstring_ptr_def split: option.splits dest: spec)
    have cj: "length cj \<le> 5" using Cons.prems(1) by (simp add: clause_inv_def)
    have room: "length t + 40 < MAX_CLAUSE_LEN" "length xs < 9" using Cons.prems by auto
    have n: "Suc (length xs) < 10" using room by simp
    let ?u = "'' '' @ cj @ '' '' @ condition E (Suc (length xs)) i x"
    have u: "length ?u \<le> 40" using condition_facts(2) [OF n, of E i x] cj by simp
    show ?thesis
    proof (cases "i < 3")
      case True
      obtain v1 s1 F1 where "activity_step E request result i v s = Inr ((True, v1), s1)"
        "clause_inv v1 s1 (t @ ?u) PG_AND (xs @ [x]) F1" "only_store F s F1 s1"
        using activity_step_column [OF E Cons.prems(1) True x room] by blast
      from tail [OF this u] show ?thesis using True g by simp
    next
      case no: False
      note step = activity_step_waiting [OF E Cons.prems(1) no x cx room(1), of result "Suc (length xs)"]
      show ?thesis
      proof (cases "x = ''true'' \<or> x = ''false''")
        case True
        then obtain v1 where "activity_step E request result i v s = Inr ((True, v1), s)"
          "clause_inv v1 s (t @ ?u) PG_AND (xs @ []) F"
          using step by auto
        from tail [OF this only_store_refl [OF fresh] u] show ?thesis using True no g by simp
      next
        case False
        then have "activity_loop E request result (i # is) v s =
          seq_c (set_err_result E result unsupported_format [AStr (Some x), AStr (Some (req_key request))])
            (return_c (False, v)) s"
          using step by (simp add: bind_c_def seq_c_def return_c_def split: sum.split)
        then show ?thesis
          using False no g only_store_refl [OF fresh] by auto
      qed
    qed
  qed
qed

section \<open>Plans\<close>

definition activity_filters :: "agent_request \<Rightarrow> (nat \<times> string) list" where
  "activity_filters request = filters request [0, 1, 2, 3]"

definition activity_clause :: "env \<Rightarrow> agent_request \<Rightarrow> string" where
  "activity_clause E request = clause_text E PG_AND 0 (activity_filters request)"

text \<open>A plan that goes on with the clause and its values, unless a filter is not supported.\<close>

definition activity_plan :: "env \<Rightarrow> agent_request \<Rightarrow> (string \<Rightarrow> string list \<Rightarrow> plan) \<Rightarrow> plan" where
  "activity_plan E request p =
     (case bad_filter (activity_filters request) of
        None \<Rightarrow> p (activity_clause E request) (bound_values (activity_filters request))
      | Some x \<Rightarrow> Refuse (''Unsupported parameter value: '' @ [CHR 0x22] @ x @ [CHR 0x22] @
          '' in '' @ req_key request))"

lemma clause_start: "replicate MAX_CLAUSE_LEN NUL = array_text MAX_CLAUSE_LEN []"
  by (simp add: array_text_def MAX_CLAUSE_LEN_def eval_nat_numeral)

lemma clause_length:
  "n + length fs < 10 \<Longrightarrow> length cj \<le> 5 \<Longrightarrow> length (clause_text E cj n fs) \<le> 40 * length fs"
proof (induction fs arbitrary: cj n)
  case (Cons f fs)
  obtain i x where f: "f = (i, x)" by (cases f)
  have "length (clause_text E PG_AND (if i < 3 then Suc n else n) fs) \<le> 40 * length fs"
    by (rule Cons.IH) (use Cons.prems in \<open>simp_all add: PG_AND_def\<close>)
  then show ?case using Cons.prems condition_facts(2) [of "Suc n" E i x] by (simp add: f)
qed simp

lemma length_given: "length (given v) \<le> 1"
  by (simp add: given_def)

lemma activity_clause_length: "length (activity_clause E request) \<le> 160"
proof -
  have "length (activity_filters request) \<le> 4"
    using length_given [of "get_rparam request (PARAM_FIRST + 0)"]
      length_given [of "get_rparam request (PARAM_FIRST + 1)"]
      length_given [of "get_rparam request (PARAM_FIRST + 2)"]
      length_given [of "get_rparam request (PARAM_FIRST + 3)"]
    by (simp add: activity_filters_def)
  then show ?thesis
    using clause_length [of 0 "activity_filters request" PG_AND E]
    by (simp add: activity_clause_def PG_AND_def)
qed

lemma refines_built_noted:
  assumes only: "only_store {} (noted E ms s) F s'" and run: "m s = Inr (p, noted E ns s')"
    and f: "refines ({} \<union> F) k (f p) sp (noted E ns s')"
  shows "refines {} k (bind_c m f) sp s"
proof -
  have eq: "s' = noted E ms s\<lparr>store := store s', next_id := next_id s'\<rparr>"
    and n: "next_id s \<le> next_id s'"
    and F: "F \<subseteq> {next_id s..}" and st: "store s' |` (- F) = store s |` (- {})"
    using only by (auto simp: only_store_def)
  have view: "view_of s' = view_of s" "queries s' = queries s"
    by (subst eq, simp add: view_of_def)+
  have "store s' a = store s a" if "a \<notin> F" for a using fun_cong [OF st, of a] that by simp
  moreover have "a \<notin> F" if "a < next_id s" for a using F that by auto
  ultimately have "framed {} s t" if "framed F s' t" for t
    using that view n by (auto simp: framed_def)
  then show ?thesis
    using f run view by (auto simp: refines_def bind_c_run split: sum.splits)
qed

lemma activity_refines:
  assumes E: "zabbix_ok E" and ok: "call_ok E request s"
    and m: "\<And>v t F. call_ok E request t \<Longrightarrow>
      params_at t (cl_params v) (bound_values (activity_filters request)) F \<Longrightarrow>
      c_str (cl_array v) 0 = Inr (activity_clause E request) \<Longrightarrow>
      refines F id (m v) (run_plan E request result
        (p (activity_clause E request) (bound_values (activity_filters request)))) t"
  shows "refines {} id
    (bind_c (build_activity_clause E request result (replicate MAX_CLAUSE_LEN NUL) None 1) (\<lambda>(ok, v).
      if \<not> ok then return_c SYSINFO_RET_FAIL else m v))
    (run_plan E request result (activity_plan E request p)) s"
    (is "refines {} id (bind_c ?b ?f) _ s")
proof -
  let ?s = "noted E [''In build_activity_clause()''] s" and ?exit = "[''End of build_activity_clause()'']"
  have req: "request_ok request" and fresh: "fresh_ok ?s" using call_okD [OF ok] by auto
  let ?v = "\<lparr>cl_array = replicate MAX_CLAUSE_LEN NUL, cl_buf = 0, cl_clause = PG_AND,
    cl_pgi = 0, cl_params = None\<rparr>" and ?fs = "activity_filters request"
  let ?l = "activity_loop E request result [0, 1, 2, 3] ?v"
  have inv: "clause_inv ?v ?s [] PG_AND [] {}"
    using fresh by (simp add: clause_inv_def clause_start params_at_None PG_AND_def)
  note loop = activity_loop_run [OF E req inv, of "[0, 1, 2, 3]" result,
      folded activity_filters_def]
  have room: "length [] + 40 * length [0, 1, 2, 3 :: nat] < MAX_CLAUSE_LEN"
    by (simp add: MAX_CLAUSE_LEN_def)
  have b: "?b s = (case ?l ?s of
      Inl e \<Rightarrow> Inl e
    | Inr ((ok, v), t) \<Rightarrow> Inr ((ok, v), if ok then noted E ?exit t else t))"
    by (simp add: build_activity_clause_def seq_c_run bind_c_run cmd_simps
        split: sum.split)
  show ?thesis
  proof (cases "bad_filter ?fs")
    case None
    then obtain v' s' F' c' where run: "?l ?s = Inr ((True, v'), s')"
      and inv': "clause_inv v' s' (activity_clause E request) c' (bound_values ?fs) F'"
      and only: "only_store {} ?s F' s'"
      using loop room by (auto simp: activity_clause_def)
    let ?t = "noted E ?exit s'"
    have ok': "call_ok E request ?t" using ok only by (simp add: call_ok_def only_store_def)
    have "c_str (cl_array v') 0 = Inr (activity_clause E request)"
      "params_at ?t (cl_params v') (bound_values ?fs) F'"
      using inv' c_str_array by (simp_all add: clause_inv_def)
    then have "refines ({} \<union> F') id (?f (True, v')) (run_plan E request result
        (p (activity_clause E request) (bound_values ?fs))) ?t"
      using m [OF ok'] by simp
    moreover have "?b s = Inr ((True, v'), ?t)" unfolding b run by simp
    ultimately show ?thesis
      using refines_built_noted [OF only, where f = ?f and m = ?b and p = "(True, v')" and k = id]
      by (simp add: activity_plan_def None)
  next
    case (Some x)
    let ?fmt = unsupported_format and ?args = "[AStr (Some x), AStr (Some (req_key request))]"
    obtain v' s' F' where run: "?l ?s = seq_c (set_err_result E result ?fmt ?args) (return_c (False, v')) s'"
      and only: "only_store {} ?s F' s'"
      using loop room by (auto simp: Some)
    have ok': "call_ok E request s'" using ok only by (simp add: call_ok_def only_store_def)
    have fmt: "c_format ?fmt ?args = Inr (''Unsupported parameter value: '' @ [CHR 0x22] @ x @
        [CHR 0x22] @ '' in '' @ req_key request)" by simp
    let ?m = "\<lambda>s. Inr ((), noted E [] s') :: fault + unit \<times> cstate"
    have code: "bind_c ?b ?f s = bind_c ?m (\<lambda>_. reject E result ?fmt ?args) s"
      unfolding bind_c_def [of ?b] b run
      by (simp add: bind_c_def reject_def seq_c_def return_c_def split: sum.split)
    have "refines ({} \<union> F') id (reject E result ?fmt ?args)
        (run_plan E request result (activity_plan E request p)) s'"
      using reject_refines [OF ok' fmt, of result]
      by (auto simp: activity_plan_def Some intro: refines_mono)
    from refines_built_noted [OF only, where m = ?m and p = "()" and k = id and
        f = "\<lambda>_. reject E result ?fmt ?args" and ns = "[]", OF refl] this
    show ?thesis using code by (simp add: refines_def)
  qed
qed

definition pid_column :: "int \<Rightarrow> string" where
  "pid_column version = (if version < 90200 then ''procpid'' else ''pid'')"

lemma PG_BACKENDS_COUNT_implements:
  assumes E: "zabbix_ok E"
  shows "implements named PG_BACKENDS_COUNT E request
    (By_version (\<lambda>version. activity_plan E request (\<lambda>clause xs.
      Value AR_UINT64 (fill PGSQL_GET_BACKENDS [pid_column version, clause]) xs)))"
proof (rule implements_traced [OF PG_BACKENDS_COUNT_def], goal_cases)
  case (1 s result)
  note ok = 1(1)
  have query: "snprintf E MAX_QUERY_LEN PGSQL_GET_BACKENDS [AStr (Some pid), AStr (Some clause)]
      = Inr (fill PGSQL_GET_BACKENDS [pid, clause])"
    if "clause = activity_clause E request" and "length pid \<le> 8" for pid clause
    using snprintf_fill [OF E, of PGSQL_GET_BACKENDS "[pid, clause]" MAX_QUERY_LEN]
      activity_clause_length [of E request] that
    by (simp add: PGSQL_GET_BACKENDS_def MAX_QUERY_LEN_def del: fill.simps)
  have pid: "length (pid_column version) \<le> 8" for version by (simp add: pid_column_def)
  show ?case
    unfolding Let_def pid_column_def [symmetric]
  proof (rule by_version_refines [OF ok], rule activity_refines [OF E])
    fix version v F and t t' :: cstate
    assume ok': "call_ok E request t'"
      and at: "params_at t' (cl_params v) (bound_values (activity_filters request)) F"
      and arr: "c_str (cl_array v) 0 = Inr (activity_clause E request)"
    show "refines F id
      (bind_c (lift_c (c_str (cl_array v) 0)) (\<lambda>clause.
        bind_c (lift_c (snprintf E MAX_QUERY_LEN PGSQL_GET_BACKENDS
          [AStr (Some (pid_column version)), AStr (Some clause)])) (\<lambda>query.
        pg_get_int E request result query (cl_params v))))
      (run_plan E request result (Value AR_UINT64
        (fill PGSQL_GET_BACKENDS [pid_column version, activity_clause E request])
        (bound_values (activity_filters request)))) t'"
      using call_okD [OF ok'] at
      by (simp add: arr query [OF refl pid] cmd_simps pg_get_result_refines del: fill.simps)
  qed
qed

lemma PG_BACKENDS_RATIO_implements:
  assumes E: "zabbix_ok E"
  shows "implements named PG_BACKENDS_RATIO E request
    (By_version (\<lambda>version. Value AR_DOUBLE (fill BACKENDS_RATIO [pid_column version]) []))"
proof (rule implements_traced [OF PG_BACKENDS_RATIO_def], goal_cases)
  case (1 s result)
  note ok = 1(1)
  have query: "snprintf E MAX_QUERY_LEN BACKENDS_RATIO [AStr (Some (pid_column version))]
      = Inr (fill BACKENDS_RATIO [pid_column version])" for version
    by (rule snprintf_fill1 [OF E]) (simp_all add: BACKENDS_RATIO_def MAX_QUERY_LEN_def pid_column_def)
  show ?case
    unfolding Let_def pid_column_def [symmetric]
    by (rule by_version_refines [OF ok]) (simp add: query cmd_simps value_refines del: fill.simps)
qed

lemma PG_BACKENDS_FREE_implements:
  "implements named PG_BACKENDS_FREE E request (Value AR_DOUBLE BACKENDS_FREE [])"
  by (rule implements_traced [OF PG_BACKENDS_FREE_def]) (simp add: value_refines)

definition longest_query :: "int \<Rightarrow> string" where
  "longest_query version =
     (if version < 90200 then PGSQL_GET_LONGEST_QUERY else PGSQL_GET_LONGEST_QUERY_92)"

lemma PG_QUERIES_LONGEST_implements:
  assumes E: "zabbix_ok E"
  shows "implements named PG_QUERIES_LONGEST E request
    (activity_plan E request (\<lambda>clause xs. By_version (\<lambda>version.
      Value AR_DOUBLE (fill (longest_query version) [clause]) xs)))"
proof (rule implements_traced [OF PG_QUERIES_LONGEST_def], goal_cases)
  case (1 s result)
  note ok = 1(1)
  have query: "snprintf E MAX_QUERY_LEN (longest_query version) [AStr (Some (activity_clause E request))]
      = Inr (fill (longest_query version) [activity_clause E request])" for version
    using activity_clause_length [of E request]
    by (intro snprintf_fill1 [OF E])
      (simp_all add: longest_query_def PGSQL_GET_LONGEST_QUERY_def PGSQL_GET_LONGEST_QUERY_92_def MAX_QUERY_LEN_def)
  show ?case
    unfolding longest_query_def [symmetric]
  proof (rule activity_refines [OF E ok])
    fix v t F
    assume ok': "call_ok E request t"
      and at: "params_at t (cl_params v) (bound_values (activity_filters request)) F"
      and arr: "c_str (cl_array v) 0 = Inr (activity_clause E request)"
    show "refines F id
      (bind_c (int_version E request result) (\<lambda>version.
        if version = 0 then return_c SYSINFO_RET_FAIL
        else bind_c (lift_c (c_str (cl_array v) 0)) (\<lambda>clause.
          bind_c (lift_c (snprintf E MAX_QUERY_LEN (longest_query version) [AStr (Some clause)]))
            (\<lambda>query. pg_get_dbl E request result query (cl_params v)))))
      (run_plan E request result (By_version (\<lambda>version. Value AR_DOUBLE
        (fill (longest_query version) [activity_clause E request])
        (bound_values (activity_filters request))))) t"
    proof (rule by_version_refines [OF ok'])
      fix version u
      assume u: "call_ok E request u" "framed {} t u"
      have "params_at u (cl_params v) (bound_values (activity_filters request)) F"
        using params_at_framed [OF at _ u(2)] call_okD [OF ok'] by simp
      then show "refines F id
        (bind_c (lift_c (c_str (cl_array v) 0)) (\<lambda>clause.
          bind_c (lift_c (snprintf E MAX_QUERY_LEN (longest_query version) [AStr (Some clause)]))
            (\<lambda>query. pg_get_dbl E request result query (cl_params v))))
        (run_plan E request result (Value AR_DOUBLE
          (fill (longest_query version) [activity_clause E request])
          (bound_values (activity_filters request)))) u"
        using call_okD [OF u(1)]
        by (simp add: arr query cmd_simps pg_get_result_refines del: fill.simps)
    qed
  qed
qed

end
