(* ===== verification/Config.thy ===== *)
theory Config
  imports QueryTable
begin

text \<open>
  Reading the configuration file (the rest of \<open>pg_config.c\<close>): where the file is, the walk over its
  settings with libconfig, and what the module's start reports. libconfig is the function
  \<open>config_read_file\<close> of the environment: an error text with a line, or the root setting.
\<close>

datatype exit_status = EXIT_SUCCESS | EXIT_FAILURE
datatype module_status = ZBX_MODULE_OK | ZBX_MODULE_FAIL

definition MAX_GLOBBING_PATH_LENGTH :: nat where
  "MAX_GLOBBING_PATH_LENGTH = 512"

definition DEFAULT_PGCONFIGFILE :: string where
  "DEFAULT_PGCONFIGFILE = ''/etc/zabbix/libzbxpgsql.conf''"

definition getPGCONFIGFILE :: "env \<Rightarrow> string option mcmd" where
  "getPGCONFIGFILE E =
     (case getenv_PGCONFIGFILE E of
        None \<Rightarrow> return_c (Some DEFAULT_PGCONFIGFILE)
      | Some path \<Rightarrow>
          if length path > MAX_GLOBBING_PATH_LENGTH then
            seq_c (zabbix_log E LOG_LEVEL_ERR ''PGCONFIGFILE exceeds maximum length of %i''
                     [AInt (int MAX_GLOBBING_PATH_LENGTH)])
              (return_c None)
          else return_c (Some path))"

text \<open>The insertion of a name into the global arrays.\<close>

definition insert_query :: "string \<Rightarrow> string \<Rightarrow> exit_status mcmd" where
  "insert_query name query =
     bind_c (get_c queries) (\<lambda>t.
     bind_c (lift_c (add_named_query name query t)) (\<lambda>t'.
     seq_c (modify_c (\<lambda>s. s\<lparr>queries := t'\<rparr>))
     (return_c EXIT_SUCCESS)))"

text \<open>The loop of \<open>read_config_queries\<close> over the settings of the group.\<close>

primrec read_queries_loop :: "env \<Rightarrow> config_setting list \<Rightarrow> exit_status mcmd" where
  "read_queries_loop E [] = return_c EXIT_SUCCESS"
| "read_queries_loop E (node # rest) =
     (let key = config_setting_name node in
      if config_setting_type node \<noteq> CONFIG_TYPE_STRING then
        seq_c (zabbix_log E LOG_LEVEL_ERR
                 (''query '' @ [CHR 0x27] @ ''%s'' @ [CHR 0x27] @ '' is not a valid string'')
                 [AStr (Some key)])
          (return_c EXIT_FAILURE)
      else
        bind_c (insert_query key (config_setting_string node)) (\<lambda>st.
        if st \<noteq> EXIT_SUCCESS then return_c EXIT_FAILURE else read_queries_loop E rest))"

definition read_config_queries :: "env \<Rightarrow> config_setting \<Rightarrow> exit_status mcmd" where
  "read_config_queries E cfg =
     (if config_setting_type cfg \<noteq> CONFIG_TYPE_GROUP then
        seq_c (zabbix_log E LOG_LEVEL_ERR ''queries is not a valid configuration group'' [])
          (return_c EXIT_FAILURE)
      else
        let n = length (config_setting_elems cfg) in
        seq_c (modify_c (\<lambda>s. s\<lparr>queries :=
                 \<lparr>query_keys = replicate (n + 1) None, query_values = replicate (n + 1) None,
                  query_count = int n\<rparr>\<rparr>))
          (read_queries_loop E (config_setting_elems cfg)))"

text \<open>The loop of \<open>read_config\<close> over the settings of the file.\<close>

primrec read_config_loop :: "env \<Rightarrow> config_setting list \<Rightarrow> exit_status mcmd" where
  "read_config_loop E [] = return_c EXIT_SUCCESS"
| "read_config_loop E (node # rest) =
     (let key = config_setting_name node in
      if strncmp key ''queries'' 8 = 0 then
        bind_c (read_config_queries E node) (\<lambda>st.
        if st \<noteq> EXIT_SUCCESS then return_c EXIT_FAILURE else read_config_loop E rest)
      else
        seq_c (zabbix_log E LOG_LEVEL_ERR ''unrecognised configuration parameter: %s''
                 [AStr (Some key)])
          (return_c EXIT_FAILURE))"

text \<open>\<open>config_read_file\<close> opens the path it is given, which must not be NULL.\<close>

definition read_config :: "env \<Rightarrow> string option \<Rightarrow> exit_status mcmd" where
  "read_config E cfgfile =
     (case cfgfile of
        None \<Rightarrow> fault_c Null_deref
      | Some path \<Rightarrow>
          (case config_read_file E path of
             Inl (text, line) \<Rightarrow>
               seq_c (zabbix_log E LOG_LEVEL_ERR ''%s in %s:%i''
                        [AStr (Some text), AStr (Some path), AInt (int line)])
                 (return_c EXIT_FAILURE)
           | Inr cfg \<Rightarrow> read_config_loop E (config_setting_elems cfg)))"

definition init_config :: "env \<Rightarrow> module_status mcmd" where
  "init_config E =
     bind_c (getPGCONFIGFILE E) (\<lambda>cfgfile.
     seq_c (zabbix_log E LOG_LEVEL_INFORMATION ''using module configuration file: %s'' [AStr cfgfile])
     (bind_c (read_config E cfgfile) (\<lambda>st.
     return_c (if st \<noteq> EXIT_SUCCESS then ZBX_MODULE_FAIL else ZBX_MODULE_OK))))"

definition uninit_config :: "exit_status mcmd" where
  "uninit_config = return_c EXIT_SUCCESS"

section \<open>The file as a map of queries\<close>

text \<open>
  A file of the documented form: one group \<open>queries\<close> of strings with distinct names, as libconfig
  guarantees for the settings of a group, and fewer of them than an \<open>int\<close> index can sum.
\<close>

definition query_entries :: "config_setting list \<Rightarrow> (string \<times> string) list" where
  "query_entries nodes = map (\<lambda>n. (config_setting_name n, config_setting_string n)) nodes"

definition valid_queries :: "config_setting list \<Rightarrow> bool" where
  "valid_queries nodes \<longleftrightarrow>
     (\<forall>n \<in> set nodes. config_setting_type n = CONFIG_TYPE_STRING \<and> cstring (config_setting_name n)) \<and>
     distinct (map config_setting_name nodes) \<and> length nodes \<le> 2 ^ 30"

text \<open>The messages of the log do not change anything else.\<close>

lemma zabbix_log_run:
  assumes "c_format fmt args = Inr msg" and "level \<noteq> LOG_LEVEL_DEBUG"
  shows "zabbix_log E level fmt args s =
    Inr ((), s\<lparr>trace := trace s @ (if log_enabled E level then [ELog level msg] else [])\<rparr>)"
  using assms by (simp add: zabbix_log_def log_message_def log_event_def bind_c_def cmd_simps)

lemma read_queries_loop_run:
  assumes "\<forall>n \<in> set nodes. config_setting_type n = CONFIG_TYPE_STRING"
    and "foldM_f (\<lambda>e. add_named_query (fst e) (snd e)) (query_entries nodes) (queries s) = Inr t"
  shows "read_queries_loop E nodes s = Inr (EXIT_SUCCESS, s\<lparr>queries := t\<rparr>)"
  using assms
proof (induction nodes arbitrary: s)
  case Nil
  then show ?case by (simp add: return_c_run query_entries_def)
next
  case (Cons node rest)
  let ?k = "config_setting_name node" and ?v = "config_setting_string node"
  from Cons.prems(2) obtain t' where t': "add_named_query ?k ?v (queries s) = Inr t'"
    and rest: "foldM_f (\<lambda>e. add_named_query (fst e) (snd e)) (query_entries rest) t' = Inr t"
    by (auto simp: query_entries_def bind_f_eq_Inr)
  have "insert_query ?k ?v s = Inr (EXIT_SUCCESS, s\<lparr>queries := t'\<rparr>)"
    using t' by (simp add: insert_query_def bind_c_run seq_c_run cmd_simps)
  then show ?case
    using Cons.prems(1) Cons.IH [of "s\<lparr>queries := t'\<rparr>"] rest
    by (simp add: bind_c_run)
qed

lemma read_config_queries_run:
  assumes "config_setting_type cfg = CONFIG_TYPE_GROUP"
    and valid: "valid_queries (config_setting_elems cfg)"
  shows "read_config_queries E cfg s = Inr (EXIT_SUCCESS,
    s\<lparr>queries := table_of (length (config_setting_elems cfg))
        (fold insert_entry (query_entries (config_setting_elems cfg)) [])\<rparr>)"
proof -
  let ?nodes = "config_setting_elems cfg" let ?n = "length ?nodes"
  let ?s = "s\<lparr>queries := table_of ?n []\<rparr>"
  have "foldM_f (\<lambda>e. add_named_query (fst e) (snd e)) (query_entries ?nodes) (table_of ?n [])
      = Inr (table_of ?n (fold insert_entry (query_entries ?nodes) []))"
    using valid by (intro nq.add_all) (auto simp: valid_queries_def query_entries_def sorted_names_def)
  then have "read_queries_loop E ?nodes ?s = Inr (EXIT_SUCCESS,
      ?s\<lparr>queries := table_of ?n (fold insert_entry (query_entries ?nodes) [])\<rparr>)"
    using valid by (intro read_queries_loop_run) (auto simp: valid_queries_def)
  moreover have "table_of ?n [] =
      \<lparr>query_keys = replicate (?n + 1) None, query_values = replicate (?n + 1) None,
       query_count = int ?n\<rparr>"
    by (simp add: table_of_def cells_table_def)
  ultimately show ?thesis
    using assms(1) by (simp add: read_config_queries_def Let_def seq_c_run modify_c_run)
qed

lemma lookup_of_file:
  assumes "valid_queries nodes" and "cstring key"
  shows "get_query_by_name (table_of (length nodes) (fold insert_entry (query_entries nodes) [])) key
    = Inr (map_of (query_entries nodes) key)"
proof -
  let ?es = "fold insert_entry (query_entries nodes) []"
  have names: "map fst (query_entries nodes) = map config_setting_name nodes"
    by (simp add: query_entries_def)
  have sorted: "sorted_names ?es"
    using assms(1) by (intro sorted_names_fold)
      (auto simp: sorted_names_def valid_queries_def query_entries_def)
  have "map_of ?es = map_of (query_entries nodes)"
    using assms(1) map_of_fold_insert [of "query_entries nodes" "[]"] names
    by (simp add: valid_queries_def)
  moreover have "distinct (map fst ?es)"
    using assms(1) names by (simp add: distinct_fold_insert valid_queries_def)
  ultimately show ?thesis
    using nq.find_distinct [OF sorted assms(2)] assms(1)
    by (simp add: fold_insert_entry valid_queries_def query_entries_def)
qed

section \<open>What the start of the module makes of a file\<close>

text \<open>
  What libconfig guarantees of a file it could read: the settings of a group have distinct names,
  which are C strings, and there are fewer of them than an \<open>int\<close> index can sum.
\<close>

definition libconfig_names :: "config_setting list \<Rightarrow> bool" where
  "libconfig_names nodes \<longleftrightarrow>
     distinct (map config_setting_name nodes) \<and> list_all (\<lambda>n. cstring (config_setting_name n)) nodes \<and>
     length nodes \<le> 2 ^ 30"

definition libconfig_ok :: "config_setting \<Rightarrow> bool" where
  "libconfig_ok cfg \<longleftrightarrow>
     libconfig_names (config_setting_elems cfg) \<and>
     list_all (\<lambda>n. libconfig_names (config_setting_elems n)) (config_setting_elems cfg)"

text \<open>The files the module accepts: nothing, or a group \<open>queries\<close> of strings.\<close>

definition only_strings :: "config_setting list \<Rightarrow> bool" where
  "only_strings nodes \<longleftrightarrow> list_all (\<lambda>q. config_setting_type q = CONFIG_TYPE_STRING) nodes"

definition accepted_file :: "config_setting \<Rightarrow> bool" where
  "accepted_file cfg \<longleftrightarrow>
     list_all (\<lambda>n. config_setting_name n = ''queries'' \<and> config_setting_type n = CONFIG_TYPE_GROUP \<and>
       only_strings (config_setting_elems n)) (config_setting_elems cfg)"

text \<open>The queries of a file: those of its group.\<close>

definition file_queries :: "config_setting \<Rightarrow> string \<Rightarrow> string option" where
  "file_queries cfg =
     (case config_setting_elems cfg of
        [] \<Rightarrow> Map.empty
      | n # _ \<Rightarrow> map_of (query_entries (config_setting_elems n)))"

definition config_path :: "env \<Rightarrow> string option" where
  "config_path E =
     (case getenv_PGCONFIGFILE E of
        None \<Rightarrow> Some DEFAULT_PGCONFIGFILE
      | Some path \<Rightarrow> if length path \<le> MAX_GLOBBING_PATH_LENGTH then Some path else None)"

lemma cstring_queries: "cstring ''queries''"
  by simp

lemma queries_name: "cstring k \<Longrightarrow> strncmp k ''queries'' 8 = 0 \<longleftrightarrow> k = ''queries''"
proof -
  assume "cstring k"
  then have "strncmp k ''queries'' 8 = 0 \<longleftrightarrow> take 8 k = take 8 ''queries''"
    using strncmp_eq_0_iff cstring_queries by blast
  also have "\<dots> \<longleftrightarrow> k = ''queries''"
  proof (cases "length k < 8")
    case False
    then have "length (take 8 k) \<noteq> length ''queries''" by simp
    then have "take 8 k \<noteq> ''queries''" by metis
    then show ?thesis using False by auto
  qed simp
  finally show ?thesis .
qed

lemma valid_queries_iff:
  "libconfig_names nodes \<Longrightarrow> valid_queries nodes \<longleftrightarrow> only_strings nodes"
  by (auto simp: libconfig_names_def valid_queries_def only_strings_def list_all_iff)

text \<open>A setting that is not a string ends the loop, and nothing before it is undefined.\<close>

lemma read_queries_loop_refuses:
  assumes "sorted_names es" and "list_all (\<lambda>n. cstring (config_setting_name n)) nodes"
    and "length es + length nodes \<le> n" and "queries s = table_of n es" and "\<not> only_strings nodes"
  shows "\<exists>t. read_queries_loop E nodes s = Inr (EXIT_FAILURE, t)"
  using assms
proof (induction nodes arbitrary: s es)
  case Nil
  then show ?case by (simp add: only_strings_def)
next
  case (Cons node rest)
  let ?k = "config_setting_name node" and ?v = "config_setting_string node"
  show ?case
  proof (cases "config_setting_type node = CONFIG_TYPE_STRING")
    case False
    then show ?thesis
      using zabbix_log_run [of "''query '' @ [CHR 0x27] @ ''%s'' @ [CHR 0x27] @ '' is not a valid string''"
          "[AStr (Some ?k)]" _ LOG_LEVEL_ERR E s]
      by (simp add: seq_c_run cmd_simps)
  next
    case True
    have "add_named_query ?k ?v (table_of n es) = Inr (table_of n (insert_entry (?k, ?v) es))"
      using Cons.prems by (intro nq.add_tab) auto
    then have ins: "insert_query ?k ?v s =
        Inr (EXIT_SUCCESS, s\<lparr>queries := table_of n (insert_entry (?k, ?v) es)\<rparr>)"
      using Cons.prems(4) by (simp add: insert_query_def bind_c_run seq_c_run cmd_simps)
    have "\<exists>t. read_queries_loop E rest (s\<lparr>queries := table_of n (insert_entry (?k, ?v) es)\<rparr>)
        = Inr (EXIT_FAILURE, t)"
      using Cons.prems True
      by (intro Cons.IH [of "insert_entry (?k, ?v) es"]) (auto simp: only_strings_def intro: sorted_names_insert)
    then show ?thesis using True ins by (simp add: bind_c_run)
  qed
qed

lemma read_config_queries_result:
  assumes "libconfig_names (config_setting_elems cfg)"
  shows "\<exists>t. read_config_queries E cfg s = Inr
      (if config_setting_type cfg = CONFIG_TYPE_GROUP \<and> only_strings (config_setting_elems cfg)
       then EXIT_SUCCESS else EXIT_FAILURE, t) \<and>
    (config_setting_type cfg = CONFIG_TYPE_GROUP \<longrightarrow> only_strings (config_setting_elems cfg) \<longrightarrow>
      queries t = table_of (length (config_setting_elems cfg))
        (fold insert_entry (query_entries (config_setting_elems cfg)) []))"
proof -
  let ?nodes = "config_setting_elems cfg" let ?n = "length ?nodes"
  consider "config_setting_type cfg \<noteq> CONFIG_TYPE_GROUP"
    | "config_setting_type cfg = CONFIG_TYPE_GROUP" "only_strings ?nodes"
    | "config_setting_type cfg = CONFIG_TYPE_GROUP" "\<not> only_strings ?nodes" by blast
  then show ?thesis
  proof cases
    case 1
    then show ?thesis
      using zabbix_log_run [of "''queries is not a valid configuration group''" "[]" _ LOG_LEVEL_ERR E s]
      by (simp add: read_config_queries_def seq_c_run cmd_simps)
  next
    case 2
    then have "valid_queries ?nodes" using valid_queries_iff [OF assms] by simp
    from read_config_queries_run [OF 2(1) this, of E s] show ?thesis using 2 by simp
  next
    case 3
    have "table_of ?n [] =
        \<lparr>query_keys = replicate (?n + 1) None, query_values = replicate (?n + 1) None,
         query_count = int ?n\<rparr>"
      by (simp add: table_of_def cells_table_def)
    moreover have "\<exists>t. read_queries_loop E ?nodes (s\<lparr>queries := table_of ?n []\<rparr>) = Inr (EXIT_FAILURE, t)"
      by (rule read_queries_loop_refuses [where es = "[]" and n = ?n])
        (use assms 3 in \<open>simp_all add: libconfig_names_def sorted_names_def\<close>)
    ultimately show ?thesis
      using 3 by (simp add: read_config_queries_def Let_def seq_c_run modify_c_run)
  qed
qed

lemma read_config_loop_result:
  assumes "libconfig_ok cfg"
  shows "\<exists>t. read_config_loop E (config_setting_elems cfg) s
      = Inr (if accepted_file cfg then EXIT_SUCCESS else EXIT_FAILURE, t) \<and>
    (accepted_file cfg \<longrightarrow> (case config_setting_elems cfg of
        [] \<Rightarrow> queries t = queries s
      | n # _ \<Rightarrow> queries t = table_of (length (config_setting_elems n))
          (fold insert_entry (query_entries (config_setting_elems n)) [])))"
proof (cases "config_setting_elems cfg")
  case Nil
  then show ?thesis by (simp add: accepted_file_def cmd_simps)
next
  case (Cons n rest)
  have names: "libconfig_names (config_setting_elems n)" and cn: "cstring (config_setting_name n)"
    and crest: "list_all (\<lambda>m. cstring (config_setting_name m) \<and> config_setting_name m \<noteq> config_setting_name n) rest"
    using assms by (auto simp: libconfig_ok_def libconfig_names_def Cons list_all_iff rev_image_eqI)
  have self: "strncmp ''queries'' ''queries'' 8 = 0" by (simp add: queries_name)
  note log = zabbix_log_run [of "''unrecognised configuration parameter: %s''" "[AStr (Some k)]"
      "''unrecognised configuration parameter: '' @ k" for k]
  show ?thesis
  proof (cases "config_setting_name n = ''queries''")
    case False
    then show ?thesis
      using log [of "config_setting_name n" LOG_LEVEL_ERR E s] queries_name [OF cn]
      by (simp add: Cons accepted_file_def seq_c_run cmd_simps)
  next
    case True
    let ?good = "config_setting_type n = CONFIG_TYPE_GROUP \<and> only_strings (config_setting_elems n)"
    obtain t where t: "read_config_queries E n s = Inr (if ?good then EXIT_SUCCESS else EXIT_FAILURE, t)"
      and q: "?good \<Longrightarrow> queries t = table_of (length (config_setting_elems n))
          (fold insert_entry (query_entries (config_setting_elems n)) [])"
      using read_config_queries_result [OF names, of E s] by blast
    show ?thesis
    proof (cases rest)
      case Nil
      then show ?thesis
        using t q True by (auto simp: Cons accepted_file_def bind_c_run cmd_simps Let_def self)
    next
      case Cons': (Cons m ms)
      then have "config_setting_name m \<noteq> ''queries''" and "cstring (config_setting_name m)"
        using crest True by auto
      then show ?thesis
        using t True Cons' log [of "config_setting_name m" LOG_LEVEL_ERR E t] queries_name
        by (auto simp: Cons accepted_file_def bind_c_run seq_c_run cmd_simps Let_def self)
    qed
  qed
qed

text \<open>The messages of the start.\<close>

lemma init_config_result:
  assumes path: "config_path E = Some path" and read: "config_read_file E path = Inr cfg"
    and ok: "libconfig_ok cfg" and fresh: "queries s = queries start_state"
  shows "\<exists>t. init_config E s = Inr (if accepted_file cfg then ZBX_MODULE_OK else ZBX_MODULE_FAIL, t) \<and>
    (accepted_file cfg \<longrightarrow> (\<forall>k. cstring k \<longrightarrow> get_query_by_name (queries t) k = Inr (file_queries cfg k)))"
proof -
  have get: "getPGCONFIGFILE E s = Inr (Some path, s)"
    using path by (auto simp: config_path_def getPGCONFIGFILE_def cmd_simps split: option.splits if_splits)
  let ?s = "s\<lparr>trace := trace s @ (if log_enabled E LOG_LEVEL_INFORMATION
      then [ELog LOG_LEVEL_INFORMATION (''using module configuration file: '' @ path)] else [])\<rparr>"
  have log: "zabbix_log E LOG_LEVEL_INFORMATION ''using module configuration file: %s'' [AStr (Some path)] s
      = Inr ((), ?s)"
    by (rule zabbix_log_run) simp_all
  obtain t where t: "read_config_loop E (config_setting_elems cfg) ?s
      = Inr (if accepted_file cfg then EXIT_SUCCESS else EXIT_FAILURE, t)"
    and q: "accepted_file cfg \<longrightarrow> (case config_setting_elems cfg of
        [] \<Rightarrow> queries t = queries ?s
      | n # _ \<Rightarrow> queries t = table_of (length (config_setting_elems n))
          (fold insert_entry (query_entries (config_setting_elems n)) []))"
    using read_config_loop_result [OF ok, of E ?s] by blast
  have run: "init_config E s = Inr (if accepted_file cfg then ZBX_MODULE_OK else ZBX_MODULE_FAIL, t)"
    using t by (simp add: init_config_def read_config_def read bind_c_run seq_c_run get log cmd_simps)
  have "get_query_by_name (queries t) k = Inr (file_queries cfg k)"
    if acc: "accepted_file cfg" and k: "cstring k" for k
  proof (cases "config_setting_elems cfg")
    case Nil
    then show ?thesis
      using q acc fresh by (simp add: file_queries_def start_state_def get_query_by_name_def search_loop.simps)
  next
    case (Cons n rest)
    have "only_strings (config_setting_elems n)" "libconfig_names (config_setting_elems n)"
      using acc ok by (simp_all add: accepted_file_def libconfig_ok_def Cons)
    then have "valid_queries (config_setting_elems n)" using valid_queries_iff by simp
    from lookup_of_file [OF this k] show ?thesis
      using q acc by (simp add: Cons file_queries_def)
  qed
  then show ?thesis using run by blast
qed

section \<open>What the start changes\<close>

text \<open>Only the table of queries and the messages, which are extended.\<close>

definition is_message :: "event \<Rightarrow> bool" where
  "is_message e \<longleftrightarrow> (case e of ELog level msg \<Rightarrow> True | EPrint f msg \<Rightarrow> True | _ \<Rightarrow> False)"

lemma is_message_simps [simp]:
  "is_message (ELog level msg)" "is_message (EPrint f msg)"
  "\<not> is_message (EConnect cs)" "\<not> is_message (EExec query xs)" "\<not> is_message EFinish"
  by (simp_all add: is_message_def)

definition starts :: "cstate \<Rightarrow> cstate \<Rightarrow> bool" where
  "starts s t \<longleftrightarrow>
     store t = store s \<and> next_id t = next_id s \<and> answer t = answer s \<and>
     (\<exists>es. trace t = trace s @ es \<and> list_all is_message es)"

interpretation config: step_relation starts
proof
  show "starts s s" for s by (simp add: starts_def exI [of _ "[]"])
next
  fix s t u
  assume "starts s t" and "starts t u"
  then show "starts s u" by (auto simp: starts_def)
qed

lemma config_log: "config.keeps (zabbix_log E level fmt args)"
proof (rule config.keepsI)
  fix s x t
  assume "zabbix_log E level fmt args s = Inr (x, t)"
  then show "starts s t"
    by (cases "c_format fmt args")
      (auto simp: zabbix_log_def log_message_def log_event_def starts_def bind_c_run cmd_simps
        split: if_splits)
qed

lemma config_queries: "config.keeps (modify_c (\<lambda>s. s\<lparr>queries := q s\<rparr>))"
  by (auto simp: config.keeps_def starts_def cmd_simps intro: exI [of _ "[]"])

lemma config_print: "config.keeps (print_to f fmt args)"
  by (cases "c_format fmt args")
    (auto simp: config.keeps_def starts_def print_to_def log_event_def bind_c_run cmd_simps)

lemmas config_steps = config.keeps_rules config_log config_print config_queries

lemma config_insert: "config.keeps (insert_query name query)"
  by (simp add: insert_query_def config_steps)

lemma config_queries_loop: "config.keeps (read_queries_loop E nodes)"
  by (induction nodes) (auto simp: Let_def intro!: config_steps config_insert)

lemma config_read_queries: "config.keeps (read_config_queries E cfg)"
  by (simp add: read_config_queries_def Let_def config_steps config_queries_loop)

lemma config_read_loop: "config.keeps (read_config_loop E nodes)"
  by (induction nodes) (auto simp: Let_def intro!: config_steps config_read_queries)

lemma config_init: "config.keeps (init_config E)"
  by (auto simp: init_config_def getPGCONFIGFILE_def read_config_def
      intro!: config_steps config_read_loop split: option.split sum.split)

end
