(* ===== verification/UserQuery.thy ===== *)
theory UserQuery
  imports Items Config
begin

text \<open>
  Queries of the user (\<open>pg_query.c\<close>): the text is a named query of the configuration file, or the
  parameter itself; the other parameters are passed to the server.
\<close>


text \<open>The loop over the parameters of the request from the fourth on.\<close>

definition append_params :: "agent_request \<Rightarrow> nat option mcmd" where
  "append_params request =
     fold_c [3..<req_nparam request] (\<lambda>i params. param_append params (get_rparam request i)) None"

definition PG_QUERY :: "env \<Rightarrow> agent_request \<Rightarrow> result_ptr \<Rightarrow> sysinfo_ret mcmd" where
  "PG_QUERY E request result =
     traced E ''%s()'' [AStr (Some ''PG_QUERY'')]
       (let queryKey = get_rparam request PARAM_FIRST in
        if strisnull queryKey then reject E result ''No query or query-key specified'' []
        else
          bind_c (get_c queries) (\<lambda>table.
          bind_c (lift_c (get_query_by_name table (the queryKey))) (\<lambda>found.
          bind_c
            (case found of
               None \<Rightarrow>
                 seq_c (zabbix_log E LOG_LEVEL_DEBUG ''No query found for %s'' [AStr queryKey])
                 (return_c (the queryKey))
             | Some q \<Rightarrow> return_c q) (\<lambda>query.
          seq_c (zabbix_log E LOG_LEVEL_DEBUG ''Appending %i params to query''
                   [AInt (int (req_nparam request) - 3)])
          (bind_c (append_params request) (\<lambda>params.
          bind_c (lift_c (key_from request 9)) (\<lambda>type.
          if strncmp type ''string'' 5 = 0 then pg_get_string E request result query params
          else if strncmp type ''integer'' 7 = 0 then pg_get_int E request result query params
          else if strncmp type ''double'' 6 = 0 then pg_get_dbl E request result query params
          else if strncmp type ''discovery'' 9 = 0 then pg_get_discovery E request result query params
          else
            reject E result ''Unsupported query type: %s''
              [AChar (case type of [] \<Rightarrow> NUL | c # _ \<Rightarrow> c)])))))))"

text \<open>The messages of the debug log between the check of the parameter and the query.\<close>

definition query_notes :: "agent_request \<Rightarrow> string \<Rightarrow> string option \<Rightarrow> string list" where
  "query_notes request k found =
     (if found = None then [''No query found for '' @ k] else []) @
     [''Appending '' @ show_int (int (req_nparam request) - 3) @ '' params to query'']"

section \<open>Plan\<close>

text \<open>The values bound to the placeholders: the parameters from the fourth on that are not empty.\<close>

definition query_values_of :: "agent_request \<Rightarrow> string list" where
  "query_values_of request = concat (map given (map (get_rparam request) [3..<req_nparam request]))"

lemma append_params_run:
  assumes "fresh_ok s"
  shows "\<exists>p s' F. append_params request s = Inr (p, s') \<and>
    params_at s' p (query_values_of request) F \<and> only_store {} s F s'"
  using pv.append_all_run [OF assms pv.holds_empty, of "map (get_rparam request) [3..<req_nparam request]"]
  by (simp add: append_params_def append_each_all query_values_of_def)

datatype query_type = As_string | As_integer | As_double | As_discovery

definition query_type_of :: "string \<Rightarrow> query_type option" where
  "query_type_of type =
     (if take 5 type = ''strin'' then Some As_string
      else if take 7 type = ''integer'' then Some As_integer
      else if take 6 type = ''double'' then Some As_double
      else if take 9 type = ''discovery'' then Some As_discovery
      else None)"

definition answer_as :: "query_type \<Rightarrow> string \<Rightarrow> string list \<Rightarrow> plan" where
  "answer_as type query xs =
     (case type of
        As_string \<Rightarrow> Value AR_STRING query xs
      | As_integer \<Rightarrow> Value AR_UINT64 query xs
      | As_double \<Rightarrow> Value AR_DOUBLE query xs
      | As_discovery \<Rightarrow> Rows query xs)"

definition user_query_plan ::
  "(string \<Rightarrow> string option) \<Rightarrow> agent_request \<Rightarrow> query_type \<Rightarrow> plan" where
  "user_query_plan named request type =
     needed_plan (get_rparam request PARAM_FIRST) ''No query or query-key specified''
       (\<lambda>k. answer_as type (case named k of None \<Rightarrow> k | Some q \<Rightarrow> q) (query_values_of request))"

lemma PG_QUERY_implements:
  assumes key: "key_ok request 9" and type: "query_type_of (drop 9 (req_key request)) = Some type"
  shows "implements named PG_QUERY E request (user_query_plan named request type)"
proof (rule implements_traced [OF PG_QUERY_def], goal_cases)
  case (1 s result)
  note ok = 1(1) and table = 1(2)
  have req: "request_ok request" and fresh: "fresh_ok s" and server: "server_ok E"
    using call_okD [OF ok] by auto
  let ?k = "get_rparam request PARAM_FIRST" and ?t = "drop 9 (req_key request)"
  let ?q = "case named (the ?k) of None \<Rightarrow> the ?k | Some q \<Rightarrow> q"
  have pre: "strncmp ?t ''string'' 5 = 0 \<longleftrightarrow> take 5 ?t = ''strin''"
    "strncmp ?t ''integer'' 7 = 0 \<longleftrightarrow> take 7 ?t = ''integer''"
    "strncmp ?t ''double'' 6 = 0 \<longleftrightarrow> take 6 ?t = ''double''"
    "strncmp ?t ''discovery'' 9 = 0 \<longleftrightarrow> take 9 ?t = ''discovery''"
    by (subst field_prefix [OF req]; simp add: cstring_def)+
  let ?f = "\<lambda>params.
      case type of As_string \<Rightarrow> pg_get_string E request result ?q params
      | As_integer \<Rightarrow> pg_get_int E request result ?q params
      | As_double \<Rightarrow> pg_get_dbl E request result ?q params
      | As_discovery \<Rightarrow> pg_get_discovery E request result ?q params"
  let ?m = "bind_c (append_params request) ?f"
  have m: "refines {} id ?m (run_plan E request result (answer_as type ?q (query_values_of request))) (noted E ms s)"
    for ms
  proof -
    obtain p s' F where run: "append_params request (noted E ms s) = Inr (p, s')"
      and at: "params_at s' p (query_values_of request) F" and only: "only_store {} (noted E ms s) F s'"
      using append_params_run [of "noted E ms s" request] fresh unfolding noted_simps by blast
    have "fresh_ok s'" using only by (simp add: only_store_def)
    with req at server have "refines ({} \<union> F) id (?f p)
      (run_plan E request result (answer_as type ?q (query_values_of request))) s'"
      by (cases type) (simp_all add: answer_as_def pg_get_result_refines pg_get_discovery_refines)
    from refines_built [where m = "append_params request" and f = ?f and p = p and G = "{}" and k = id, OF run only this]
    show ?thesis .
  qed
  show ?case (is "refines {} id ?body _ s")
  proof (cases "strisnull ?k")
    case True
    then show ?thesis
      using reject_refines [OF ok, of "''No query or query-key specified''" "[]" _ result]
      by (simp add: user_query_plan_def needed_plan_def)
  next
    case False
    then obtain k where k: "?k = Some k" "k \<noteq> []" by (auto simp: not_strisnull)
    then have "cstring k" using request_param [OF ok, of PARAM_FIRST] by (simp add: cstring_ptr_def)
    then have found: "get_query_by_name (queries s) k = Inr (named k)"
      using table by (simp add: table_ok_def)
    have get: "bind_c (get_c queries) f s = f (queries s) s" for f :: "query_table \<Rightarrow> sysinfo_ret mcmd"
      by (simp add: bind_c_run get_c_def)
    have "?body s = ?m (noted E (query_notes request k (named k)) s)"
      using k type pre key_from_run [OF key]
      by (cases type; cases "named k")
        (simp_all add: query_type_of_def get found seq_c_run bind_c_run cmd_simps Let_def
          query_notes_def split: if_splits sum.split)
    then have "refines {} id ?body
        (run_plan E request result (answer_as type ?q (query_values_of request))) s"
      by (rule refines_noted [OF _ m])
    moreover have "user_query_plan named request type = answer_as type ?q (query_values_of request)"
      using k by (simp add: user_query_plan_def needed_plan_def split: option.split)
    ultimately show ?thesis by (simp only:)
  qed
qed

end
