(* ===== verification/Module.thy ===== *)
theory Module
  imports Server Bgwriter Setting Namespace Tablespace Database Tables Indexes Backends UserQuery
begin

text \<open>
  The module as the agent sees it (\<open>libzbxpgsql.c\<close>): the table of item keys, the start and the end
  of the module, and the calls of the item functions in between.
\<close>


section \<open>Item keys\<close>

text \<open>The functions the table of keys points to.\<close>

datatype item_function =
    F_MODVER
  | F_PG_CONNECT
  | F_PG_VERSION
  | F_PG_STARTTIME
  | F_PG_UPTIME
  | F_PG_PREPARED_XACTS_COUNT
  | F_PG_PREPARED_XACTS_RATIO
  | F_PG_PREPARED_XACTS_AGE
  | F_PG_SETTING
  | F_PG_SETTING_DISCOVERY
  | F_PG_QUERY
  | F_PG_BACKENDS_COUNT
  | F_PG_BACKENDS_FREE
  | F_PG_BACKENDS_RATIO
  | F_PG_QUERIES_LONGEST
  | F_PG_STAT_BGWRITER
  | F_PG_BG_AVG_INTERVAL
  | F_PG_BG_TIME_RATIO
  | F_PG_BG_STATS_RESET_INTERVAL
  | F_PG_DB_DISCOVERY
  | F_PG_NAMESPACE_DISCOVERY
  | F_PG_TABLESPACE_DISCOVERY
  | F_PG_TABLE_DISCOVERY
  | F_PG_TABLE_CHILDREN_DISCOVERY
  | F_PG_INDEX_DISCOVERY
  | F_PG_DB_SIZE
  | F_PG_TABLE_SIZE
  | F_PG_TABLE_ROWS
  | F_PG_TABLE_CHILDREN
  | F_PG_TABLE_CHILDREN_SIZE
  | F_PG_TABLE_CHILDREN_ROWS
  | F_PG_INDEX_SIZE
  | F_PG_INDEX_ROWS
  | F_PG_TABLESPACE_SIZE
  | F_PG_NAMESPACE_SIZE
  | F_PG_STAT_DATABASE
  | F_PG_DB_BLKS_RATIO
  | F_PG_DB_XID_AGE
  | F_PG_STAT_ALL_TABLES
  | F_PG_TABLE_IDX_SCAN_RATIO
  | F_PG_STATIO_ALL_TABLES
  | F_PG_TABLE_HEAP_BLKS_RATIO
  | F_PG_TABLE_IDX_BLKS_RATIO
  | F_PG_TABLE_TOAST_BLKS_RATIO
  | F_PG_TABLE_TIDX_BLKS_RATIO
  | F_PG_STAT_ALL_INDEXES
  | F_PG_STATIO_ALL_INDEXES
  | F_PG_INDEX_IDX_BLKS_RATIO

fun call_item_function ::
  "item_function \<Rightarrow> env \<Rightarrow> agent_request \<Rightarrow> result_ptr \<Rightarrow> sysinfo_ret mcmd" where
  "call_item_function F_MODVER = MODVER"
| "call_item_function F_PG_CONNECT = PG_CONNECT"
| "call_item_function F_PG_VERSION = PG_VERSION"
| "call_item_function F_PG_STARTTIME = PG_STARTTIME"
| "call_item_function F_PG_UPTIME = PG_UPTIME"
| "call_item_function F_PG_PREPARED_XACTS_COUNT = PG_PREPARED_XACTS_COUNT"
| "call_item_function F_PG_PREPARED_XACTS_RATIO = PG_PREPARED_XACTS_RATIO"
| "call_item_function F_PG_PREPARED_XACTS_AGE = PG_PREPARED_XACTS_AGE"
| "call_item_function F_PG_SETTING = PG_SETTING"
| "call_item_function F_PG_SETTING_DISCOVERY = PG_SETTING_DISCOVERY"
| "call_item_function F_PG_QUERY = PG_QUERY"
| "call_item_function F_PG_BACKENDS_COUNT = PG_BACKENDS_COUNT"
| "call_item_function F_PG_BACKENDS_FREE = PG_BACKENDS_FREE"
| "call_item_function F_PG_BACKENDS_RATIO = PG_BACKENDS_RATIO"
| "call_item_function F_PG_QUERIES_LONGEST = PG_QUERIES_LONGEST"
| "call_item_function F_PG_STAT_BGWRITER = PG_STAT_BGWRITER"
| "call_item_function F_PG_BG_AVG_INTERVAL = PG_BG_AVG_INTERVAL"
| "call_item_function F_PG_BG_TIME_RATIO = PG_BG_TIME_RATIO"
| "call_item_function F_PG_BG_STATS_RESET_INTERVAL = PG_BG_STATS_RESET_INTERVAL"
| "call_item_function F_PG_DB_DISCOVERY = PG_DB_DISCOVERY"
| "call_item_function F_PG_NAMESPACE_DISCOVERY = PG_NAMESPACE_DISCOVERY"
| "call_item_function F_PG_TABLESPACE_DISCOVERY = PG_TABLESPACE_DISCOVERY"
| "call_item_function F_PG_TABLE_DISCOVERY = PG_TABLE_DISCOVERY"
| "call_item_function F_PG_TABLE_CHILDREN_DISCOVERY = PG_TABLE_CHILDREN_DISCOVERY"
| "call_item_function F_PG_INDEX_DISCOVERY = PG_INDEX_DISCOVERY"
| "call_item_function F_PG_DB_SIZE = PG_DB_SIZE"
| "call_item_function F_PG_TABLE_SIZE = PG_TABLE_SIZE"
| "call_item_function F_PG_TABLE_ROWS = PG_TABLE_ROWS"
| "call_item_function F_PG_TABLE_CHILDREN = PG_TABLE_CHILDREN"
| "call_item_function F_PG_TABLE_CHILDREN_SIZE = PG_TABLE_CHILDREN_SIZE"
| "call_item_function F_PG_TABLE_CHILDREN_ROWS = PG_TABLE_CHILDREN_ROWS"
| "call_item_function F_PG_INDEX_SIZE = PG_INDEX_SIZE"
| "call_item_function F_PG_INDEX_ROWS = PG_INDEX_ROWS"
| "call_item_function F_PG_TABLESPACE_SIZE = PG_TABLESPACE_SIZE"
| "call_item_function F_PG_NAMESPACE_SIZE = PG_NAMESPACE_SIZE"
| "call_item_function F_PG_STAT_DATABASE = PG_STAT_DATABASE"
| "call_item_function F_PG_DB_BLKS_RATIO = PG_DB_BLKS_RATIO"
| "call_item_function F_PG_DB_XID_AGE = PG_DB_XID_AGE"
| "call_item_function F_PG_STAT_ALL_TABLES = PG_STAT_ALL_TABLES"
| "call_item_function F_PG_TABLE_IDX_SCAN_RATIO = PG_TABLE_IDX_SCAN_RATIO"
| "call_item_function F_PG_STATIO_ALL_TABLES = PG_STATIO_ALL_TABLES"
| "call_item_function F_PG_TABLE_HEAP_BLKS_RATIO = PG_TABLE_HEAP_BLKS_RATIO"
| "call_item_function F_PG_TABLE_IDX_BLKS_RATIO = PG_TABLE_IDX_BLKS_RATIO"
| "call_item_function F_PG_TABLE_TOAST_BLKS_RATIO = PG_TABLE_TOAST_BLKS_RATIO"
| "call_item_function F_PG_TABLE_TIDX_BLKS_RATIO = PG_TABLE_TIDX_BLKS_RATIO"
| "call_item_function F_PG_STAT_ALL_INDEXES = PG_STAT_ALL_INDEXES"
| "call_item_function F_PG_STATIO_ALL_INDEXES = PG_STATIO_ALL_INDEXES"
| "call_item_function F_PG_INDEX_IDX_BLKS_RATIO = PG_INDEX_IDX_BLKS_RATIO"

text \<open>\<open>ZBX_METRIC\<close>: the key, the flags, the function and the parameters for a test.\<close>

definition CF_HAVEPARAMS :: nat where
  "CF_HAVEPARAMS = 1"

datatype zbx_metric =
  Metric (metric_key: string) (metric_flags: nat) (metric_function: item_function)
    (metric_test_param: "string option")

definition keys :: "zbx_metric list" where
  "keys =
    [
     Metric ''pg.modver'' 0 F_MODVER None,
     Metric ''pg.connect'' CF_HAVEPARAMS F_PG_CONNECT None,
     Metric ''pg.version'' CF_HAVEPARAMS F_PG_VERSION None,
     Metric ''pg.starttime'' CF_HAVEPARAMS F_PG_STARTTIME None,
     Metric ''pg.uptime'' CF_HAVEPARAMS F_PG_UPTIME None,
     Metric ''pg.prepared_xacts_count'' CF_HAVEPARAMS F_PG_PREPARED_XACTS_COUNT None,
     Metric ''pg.prepared_xacts_ratio'' CF_HAVEPARAMS F_PG_PREPARED_XACTS_RATIO None,
     Metric ''pg.prepared_xacts_age'' CF_HAVEPARAMS F_PG_PREPARED_XACTS_AGE None,
     Metric ''pg.setting'' CF_HAVEPARAMS F_PG_SETTING (Some ('',,data_directory'')),
     Metric ''pg.setting.discovery'' CF_HAVEPARAMS F_PG_SETTING_DISCOVERY None,
     Metric ''pg.query.string'' CF_HAVEPARAMS F_PG_QUERY (Some ('',,SELECT 'Lorem ipsum dolor';'')),
     Metric ''pg.query.integer'' CF_HAVEPARAMS F_PG_QUERY (Some ('',,SELECT pg_backend_pid();'')),
     Metric ''pg.query.double'' CF_HAVEPARAMS F_PG_QUERY (Some ('',,SELECT CAST(1234 AS double precision);'')),
     Metric ''pg.query.discovery'' CF_HAVEPARAMS F_PG_QUERY (Some ('',,SELECT * FROM pg_database;'')),
     Metric ''pg.backends.count'' CF_HAVEPARAMS F_PG_BACKENDS_COUNT None,
     Metric ''pg.backends.free'' CF_HAVEPARAMS F_PG_BACKENDS_FREE None,
     Metric ''pg.backends.ratio'' CF_HAVEPARAMS F_PG_BACKENDS_RATIO None,
     Metric ''pg.queries.longest'' CF_HAVEPARAMS F_PG_QUERIES_LONGEST None,
     Metric ''pg.checkpoints_timed'' CF_HAVEPARAMS F_PG_STAT_BGWRITER None,
     Metric ''pg.checkpoints_req'' CF_HAVEPARAMS F_PG_STAT_BGWRITER None,
     Metric ''pg.checkpoint_write_time'' CF_HAVEPARAMS F_PG_STAT_BGWRITER None,
     Metric ''pg.checkpoint_sync_time'' CF_HAVEPARAMS F_PG_STAT_BGWRITER None,
     Metric ''pg.checkpoint_avg_interval'' CF_HAVEPARAMS F_PG_BG_AVG_INTERVAL None,
     Metric ''pg.checkpoint_time_ratio'' CF_HAVEPARAMS F_PG_BG_TIME_RATIO None,
     Metric ''pg.buffers_checkpoint'' CF_HAVEPARAMS F_PG_STAT_BGWRITER None,
     Metric ''pg.buffers_clean'' CF_HAVEPARAMS F_PG_STAT_BGWRITER None,
     Metric ''pg.maxwritten_clean'' CF_HAVEPARAMS F_PG_STAT_BGWRITER None,
     Metric ''pg.buffers_backend'' CF_HAVEPARAMS F_PG_STAT_BGWRITER None,
     Metric ''pg.buffers_backend_fsync'' CF_HAVEPARAMS F_PG_STAT_BGWRITER None,
     Metric ''pg.buffers_alloc'' CF_HAVEPARAMS F_PG_STAT_BGWRITER None,
     Metric ''pg.stats_reset'' CF_HAVEPARAMS F_PG_STAT_BGWRITER None,
     Metric ''pg.stats_reset_interval'' CF_HAVEPARAMS F_PG_BG_STATS_RESET_INTERVAL None,
     Metric ''pg.db.discovery'' CF_HAVEPARAMS F_PG_DB_DISCOVERY None,
     Metric ''pg.namespace.discovery'' CF_HAVEPARAMS F_PG_NAMESPACE_DISCOVERY None,
     Metric ''pg.schema.discovery'' CF_HAVEPARAMS F_PG_NAMESPACE_DISCOVERY None,
     Metric ''pg.tablespace.discovery'' CF_HAVEPARAMS F_PG_TABLESPACE_DISCOVERY None,
     Metric ''pg.table.discovery'' CF_HAVEPARAMS F_PG_TABLE_DISCOVERY None,
     Metric ''pg.table.children.discovery'' CF_HAVEPARAMS F_PG_TABLE_CHILDREN_DISCOVERY (Some ('',,pg_proc'')),
     Metric ''pg.index.discovery'' CF_HAVEPARAMS F_PG_INDEX_DISCOVERY None,
     Metric ''pg.db.size'' CF_HAVEPARAMS F_PG_DB_SIZE None,
     Metric ''pg.table.size'' CF_HAVEPARAMS F_PG_TABLE_SIZE None,
     Metric ''pg.table.rows'' CF_HAVEPARAMS F_PG_TABLE_ROWS None,
     Metric ''pg.table.children'' CF_HAVEPARAMS F_PG_TABLE_CHILDREN (Some ('',,pg_database'')),
     Metric ''pg.table.children.size'' CF_HAVEPARAMS F_PG_TABLE_CHILDREN_SIZE (Some ('',,pg_database'')),
     Metric ''pg.table.children.rows'' CF_HAVEPARAMS F_PG_TABLE_CHILDREN_ROWS (Some ('',,pg_database'')),
     Metric ''pg.index.size'' CF_HAVEPARAMS F_PG_INDEX_SIZE None,
     Metric ''pg.index.rows'' CF_HAVEPARAMS F_PG_INDEX_ROWS None,
     Metric ''pg.tablespace.size'' CF_HAVEPARAMS F_PG_TABLESPACE_SIZE (Some ('',,pg_default'')),
     Metric ''pg.namespace.size'' CF_HAVEPARAMS F_PG_NAMESPACE_SIZE (Some ('',,pg_catalog'')),
     Metric ''pg.schema.size'' CF_HAVEPARAMS F_PG_NAMESPACE_SIZE (Some ('',,pg_catalog'')),
     Metric ''pg.db.numbackends'' CF_HAVEPARAMS F_PG_STAT_DATABASE None,
     Metric ''pg.db.xact_commit'' CF_HAVEPARAMS F_PG_STAT_DATABASE None,
     Metric ''pg.db.xact_rollback'' CF_HAVEPARAMS F_PG_STAT_DATABASE None,
     Metric ''pg.db.blks_read'' CF_HAVEPARAMS F_PG_STAT_DATABASE None,
     Metric ''pg.db.blks_hit'' CF_HAVEPARAMS F_PG_STAT_DATABASE None,
     Metric ''pg.db.blks_ratio'' CF_HAVEPARAMS F_PG_DB_BLKS_RATIO None,
     Metric ''pg.db.tup_returned'' CF_HAVEPARAMS F_PG_STAT_DATABASE None,
     Metric ''pg.db.tup_fetched'' CF_HAVEPARAMS F_PG_STAT_DATABASE None,
     Metric ''pg.db.tup_inserted'' CF_HAVEPARAMS F_PG_STAT_DATABASE None,
     Metric ''pg.db.tup_updated'' CF_HAVEPARAMS F_PG_STAT_DATABASE None,
     Metric ''pg.db.tup_deleted'' CF_HAVEPARAMS F_PG_STAT_DATABASE None,
     Metric ''pg.db.conflicts'' CF_HAVEPARAMS F_PG_STAT_DATABASE None,
     Metric ''pg.db.temp_files'' CF_HAVEPARAMS F_PG_STAT_DATABASE None,
     Metric ''pg.db.temp_bytes'' CF_HAVEPARAMS F_PG_STAT_DATABASE None,
     Metric ''pg.db.deadlocks'' CF_HAVEPARAMS F_PG_STAT_DATABASE None,
     Metric ''pg.db.blk_read_time'' CF_HAVEPARAMS F_PG_STAT_DATABASE None,
     Metric ''pg.db.blk_write_time'' CF_HAVEPARAMS F_PG_STAT_DATABASE None,
     Metric ''pg.db.stats_reset'' CF_HAVEPARAMS F_PG_STAT_DATABASE (Some ('',,postgres,,,'')),
     Metric ''pg.db.xid_age'' CF_HAVEPARAMS F_PG_DB_XID_AGE None,
     Metric ''pg.table.seq_scan'' CF_HAVEPARAMS F_PG_STAT_ALL_TABLES None,
     Metric ''pg.table.seq_tup_read'' CF_HAVEPARAMS F_PG_STAT_ALL_TABLES None,
     Metric ''pg.table.idx_scan'' CF_HAVEPARAMS F_PG_STAT_ALL_TABLES None,
     Metric ''pg.table.idx_scan_ratio'' CF_HAVEPARAMS F_PG_TABLE_IDX_SCAN_RATIO None,
     Metric ''pg.table.idx_tup_fetch'' CF_HAVEPARAMS F_PG_STAT_ALL_TABLES None,
     Metric ''pg.table.n_tup_ins'' CF_HAVEPARAMS F_PG_STAT_ALL_TABLES None,
     Metric ''pg.table.n_tup_upd'' CF_HAVEPARAMS F_PG_STAT_ALL_TABLES None,
     Metric ''pg.table.n_tup_del'' CF_HAVEPARAMS F_PG_STAT_ALL_TABLES None,
     Metric ''pg.table.n_tup_hot_upd'' CF_HAVEPARAMS F_PG_STAT_ALL_TABLES None,
     Metric ''pg.table.n_live_tup'' CF_HAVEPARAMS F_PG_STAT_ALL_TABLES None,
     Metric ''pg.table.n_dead_tup'' CF_HAVEPARAMS F_PG_STAT_ALL_TABLES None,
     Metric ''pg.table.n_mod_since_analyze'' CF_HAVEPARAMS F_PG_STAT_ALL_TABLES None,
     Metric ''pg.table.last_vacuum'' CF_HAVEPARAMS F_PG_STAT_ALL_TABLES (Some ('',,pg_database'')),
     Metric ''pg.table.last_autovacuum'' CF_HAVEPARAMS F_PG_STAT_ALL_TABLES (Some ('',,pg_database'')),
     Metric ''pg.table.last_analyze'' CF_HAVEPARAMS F_PG_STAT_ALL_TABLES (Some ('',,pg_database'')),
     Metric ''pg.table.last_autoanalyze'' CF_HAVEPARAMS F_PG_STAT_ALL_TABLES (Some ('',,pg_database'')),
     Metric ''pg.table.vacuum_count'' CF_HAVEPARAMS F_PG_STAT_ALL_TABLES None,
     Metric ''pg.table.autovacuum_count'' CF_HAVEPARAMS F_PG_STAT_ALL_TABLES None,
     Metric ''pg.table.analyze_count'' CF_HAVEPARAMS F_PG_STAT_ALL_TABLES None,
     Metric ''pg.table.autoanalyze_count'' CF_HAVEPARAMS F_PG_STAT_ALL_TABLES None,
     Metric ''pg.table.heap_blks_read'' CF_HAVEPARAMS F_PG_STATIO_ALL_TABLES None,
     Metric ''pg.table.heap_blks_hit'' CF_HAVEPARAMS F_PG_STATIO_ALL_TABLES None,
     Metric ''pg.table.heap_blks_ratio'' CF_HAVEPARAMS F_PG_TABLE_HEAP_BLKS_RATIO None,
     Metric ''pg.table.idx_blks_read'' CF_HAVEPARAMS F_PG_STATIO_ALL_TABLES None,
     Metric ''pg.table.idx_blks_hit'' CF_HAVEPARAMS F_PG_STATIO_ALL_TABLES None,
     Metric ''pg.table.idx_blks_ratio'' CF_HAVEPARAMS F_PG_TABLE_IDX_BLKS_RATIO None,
     Metric ''pg.table.toast_blks_read'' CF_HAVEPARAMS F_PG_STATIO_ALL_TABLES None,
     Metric ''pg.table.toast_blks_hit'' CF_HAVEPARAMS F_PG_STATIO_ALL_TABLES None,
     Metric ''pg.table.toast_blks_ratio'' CF_HAVEPARAMS F_PG_TABLE_TOAST_BLKS_RATIO None,
     Metric ''pg.table.tidx_blks_read'' CF_HAVEPARAMS F_PG_STATIO_ALL_TABLES None,
     Metric ''pg.table.tidx_blks_hit'' CF_HAVEPARAMS F_PG_STATIO_ALL_TABLES None,
     Metric ''pg.table.tidx_blks_ratio'' CF_HAVEPARAMS F_PG_TABLE_TIDX_BLKS_RATIO None,
     Metric ''pg.index.idx_scan'' CF_HAVEPARAMS F_PG_STAT_ALL_INDEXES None,
     Metric ''pg.index.idx_tup_read'' CF_HAVEPARAMS F_PG_STAT_ALL_INDEXES None,
     Metric ''pg.index.idx_tup_fetch'' CF_HAVEPARAMS F_PG_STAT_ALL_INDEXES None,
     Metric ''pg.index.idx_blks_read'' CF_HAVEPARAMS F_PG_STATIO_ALL_INDEXES None,
     Metric ''pg.index.idx_blks_hit'' CF_HAVEPARAMS F_PG_STATIO_ALL_INDEXES None,
     Metric ''pg.index.idx_blks_ratio'' CF_HAVEPARAMS F_PG_INDEX_IDX_BLKS_RATIO None]"

definition zbx_module_item_list :: "zbx_metric list" where
  "zbx_module_item_list = keys"

text \<open>
  The version of the interface is a constant of the agent's headers; the timeout of the agent is
  dropped.
\<close>

definition zbx_module_api_version :: "int \<Rightarrow> int" where
  "zbx_module_api_version ZBX_MODULE_API_VERSION_ONE = ZBX_MODULE_API_VERSION_ONE"

definition zbx_module_item_timeout :: "int \<Rightarrow> unit mcmd" where
  "zbx_module_item_timeout timeout = return_c ()"

text \<open>
  The agent calls the function of the entry whose key is the key of the request; a request for a
  key that is not in the table does not reach the module.
\<close>

definition item_function_of :: "string \<Rightarrow> item_function option" where
  "item_function_of key = map_option metric_function (find (\<lambda>m. metric_key m = key) zbx_module_item_list)"

definition run_item :: "env \<Rightarrow> agent_request \<Rightarrow> sysinfo_ret mcmd" where
  "run_item E request =
     (case item_function_of (req_key request) of
        None \<Rightarrow> return_c SYSINFO_RET_FAIL
      | Some f \<Rightarrow> call_item_function f E request RESULT)"

section \<open>Start and end\<close>

text \<open>
  What the dynamic linker answers at the start: whether the handle could be opened, which symbols
  exist, and the text \<open>dlerror\<close> gives. The pointers of the log functions are the fields
  \<open>zabbix_check_log_level\<close> and \<open>zbx_log_level\<close> of the environment.
\<close>

record linker =
  dlopen_ok :: bool
  sym_zbx_zabbix_log :: bool        \<comment> \<open>\<open>__zbx_zabbix_log\<close>\<close>
  sym_zbx_snprintf :: bool
  sym_zbx_zbx_snprintf :: bool      \<comment> \<open>\<open>__zbx_zbx_snprintf\<close>\<close>
  dlerror :: string

definition zbx_module_init :: "env \<Rightarrow> linker \<Rightarrow> module_status mcmd" where
  "zbx_module_init E l =
     seq_c (print_to Stdout ''starting agent module %s'' [AStr (Some PACKAGE_STRING)])
     (if \<not> dlopen_ok l then
        seq_c (print_to Stderr ''failed to dlopen() Zabbix binary: %s'' [AStr (Some (dlerror l))])
          (return_c ZBX_MODULE_FAIL)
      else
        seq_c
          (if zabbix_check_log_level E = None \<and> zbx_log_level E = None then
             print_to Stderr
               (''failed to find both zabbix_check_log_level() and zbx_log_level,'' @
                '' be aware that module may spam with log messages'') []
           else return_c ())
        (if \<not> sym_zbx_zabbix_log l then
           seq_c (print_to Stderr ''failed to find __zbx_zabbix_log(): %s'' [AStr (Some (dlerror l))])
             (return_c ZBX_MODULE_FAIL)
         else if \<not> sym_zbx_snprintf l \<and> \<not> sym_zbx_zbx_snprintf l then
           seq_c (zabbix_log E LOG_LEVEL_ERR
                    ''failed to find zbx_snprintf() or __zbx_zbx_snprintf(): %s''
                    [AStr (Some (dlerror l))])
             (return_c ZBX_MODULE_FAIL)
         else init_config E))"

text \<open>With all its symbols the start prints its greeting and reads the configuration.\<close>

definition symbols_found :: "linker \<Rightarrow> bool" where
  "symbols_found l \<longleftrightarrow>
     dlopen_ok l \<and> sym_zbx_zabbix_log l \<and> (sym_zbx_snprintf l \<or> sym_zbx_zbx_snprintf l)"

definition greeting :: "env \<Rightarrow> event list" where
  "greeting E =
     EPrint Stdout (''starting agent module '' @ PACKAGE_STRING) #
     (if zabbix_check_log_level E = None \<and> zbx_log_level E = None then
        [EPrint Stderr (''failed to find both zabbix_check_log_level() and zbx_log_level,'' @
           '' be aware that module may spam with log messages'')]
      else [])"

lemma greeting_messages [simp]: "list_all is_message (greeting E)"
  by (simp add: greeting_def)

lemma print_to_run:
  "c_format fmt args = Inr msg \<Longrightarrow>
    print_to f fmt args s = Inr ((), s\<lparr>trace := trace s @ [EPrint f msg]\<rparr>)"
  by (simp add: print_to_def log_event_def bind_c_run cmd_simps)

text \<open>The start as a function of what the linker finds.\<close>

lemma zbx_module_init_run:
  "zbx_module_init E l s =
    (if \<not> dlopen_ok l then
       Inr (ZBX_MODULE_FAIL, s\<lparr>trace := trace s @ [EPrint Stdout (''starting agent module '' @ PACKAGE_STRING),
         EPrint Stderr (''failed to dlopen() Zabbix binary: '' @ dlerror l)]\<rparr>)
     else if \<not> sym_zbx_zabbix_log l then
       Inr (ZBX_MODULE_FAIL, s\<lparr>trace := trace s @ greeting E @
         [EPrint Stderr (''failed to find __zbx_zabbix_log(): '' @ dlerror l)]\<rparr>)
     else if \<not> symbols_found l then
       Inr (ZBX_MODULE_FAIL, s\<lparr>trace := trace s @ greeting E @
         (if log_enabled E LOG_LEVEL_ERR then
            [ELog LOG_LEVEL_ERR (''failed to find zbx_snprintf() or __zbx_zbx_snprintf(): '' @ dlerror l)]
          else [])\<rparr>)
     else init_config E (s\<lparr>trace := trace s @ greeting E\<rparr>))"
proof -
  have log: "zabbix_log E LOG_LEVEL_ERR ''failed to find zbx_snprintf() or __zbx_zbx_snprintf(): %s''
      [AStr (Some (dlerror l))] t = Inr ((), t\<lparr>trace := trace t @ (if log_enabled E LOG_LEVEL_ERR then
        [ELog LOG_LEVEL_ERR (''failed to find zbx_snprintf() or __zbx_zbx_snprintf(): '' @ dlerror l)]
        else [])\<rparr>)" for t
    by (rule zabbix_log_run) simp_all
  show ?thesis
    by (simp add: zbx_module_init_def seq_c_run cmd_simps print_to_run log greeting_def symbols_found_def)
qed

definition zbx_module_uninit :: "exit_status mcmd" where
  "zbx_module_uninit = uninit_config"

section \<open>The life of the module\<close>

text \<open>
  The agent loads the module, calls it for any number of requests, each with an empty result, and
  unloads it. The key and the parameters of a request are C strings. A run that has no meaning in C
  ends in \<open>Broken\<close>.
\<close>

datatype module_state =
    Unloaded cstate
  | Loaded cstate
  | Refused cstate
  | Finished cstate
  | Broken fault

inductive module_step :: "env \<Rightarrow> linker \<Rightarrow> module_state \<Rightarrow> module_state \<Rightarrow> bool"
  for E :: env and l :: linker where
  start_ok: "zbx_module_init E l s = Inr (ZBX_MODULE_OK, t) \<Longrightarrow>
    module_step E l (Unloaded s) (Loaded t)"
| start_fail: "zbx_module_init E l s = Inr (ZBX_MODULE_FAIL, t) \<Longrightarrow>
    module_step E l (Unloaded s) (Refused t)"
| start_broken: "zbx_module_init E l s = Inl e \<Longrightarrow> module_step E l (Unloaded s) (Broken e)"
| item: "request_ok request \<Longrightarrow> run_item E request (s\<lparr>answer := no_answer\<rparr>) = Inr (ret, t) \<Longrightarrow>
    module_step E l (Loaded s) (Loaded t)"
| item_broken: "request_ok request \<Longrightarrow> run_item E request (s\<lparr>answer := no_answer\<rparr>) = Inl e \<Longrightarrow>
    module_step E l (Loaded s) (Broken e)"
| stop: "zbx_module_uninit s = Inr (x, t) \<Longrightarrow> module_step E l (Loaded s) (Finished t)"

inductive_cases module_step_LoadedE: "module_step E l (Loaded s) m"
inductive_cases module_step_UnloadedE: "module_step E l (Unloaded s) m"

inductive_simps module_step_end [simp]:
  "module_step E l (Refused s) m"
  "module_step E l (Finished s) m"
  "module_step E l (Broken e) m"

inductive reachable :: "env \<Rightarrow> linker \<Rightarrow> module_state \<Rightarrow> bool"
  for E :: env and l :: linker where
  reachable_start: "reachable E l (Unloaded start_state)"
| reachable_step: "reachable E l m \<Longrightarrow> module_step E l m m' \<Longrightarrow> reachable E l m'"

lemma module_init_starts: "config.keeps (zbx_module_init E l)"
  by (simp add: zbx_module_init_def config_steps config_init)

end
