(* ===== verification/ItemPlans.thy ===== *)
theory ItemPlans
  imports Module
begin

text \<open>
  The plan of every item of the table of keys, and the theorem that the module's item functions
  carry them out: this joins the components. \<open>key_offset\<close> is where an item function reads a field
  name in its key.
\<close>

section \<open>The table of keys\<close>

fun key_offset :: "item_function \<Rightarrow> nat" where
  "key_offset F_PG_STAT_BGWRITER = 3"
| "key_offset F_PG_STAT_DATABASE = 6"
| "key_offset F_PG_STAT_ALL_TABLES = 9"
| "key_offset F_PG_STATIO_ALL_TABLES = 9"
| "key_offset F_PG_STAT_ALL_INDEXES = 9"
| "key_offset F_PG_STATIO_ALL_INDEXES = 9"
| "key_offset F_PG_QUERY = 9"
| "key_offset f = 0"

text \<open>
  An entry is sound when its key is a short C string with a field name behind the offset, and a
  type that is known where the function is \<open>PG_QUERY\<close>.
\<close>

definition sound_metric :: "zbx_metric \<Rightarrow> bool" where
  "sound_metric m \<longleftrightarrow>
     key_offset (metric_function m) < length (metric_key m) \<and> length (metric_key m) < 100 \<and>
     cstring (metric_key m) \<and>
     (metric_function m = F_PG_QUERY \<longrightarrow> query_type_of (drop 9 (metric_key m)) \<noteq> None)"

lemma keys_sound: "list_all sound_metric keys"
  by (simp add: keys_def sound_metric_def query_type_of_def)

lemma distinct_keys: "distinct (map metric_key keys)"
  by (simp add: keys_def)

lemma item_function_of_key:
  assumes "m \<in> set keys"
  shows "item_function_of (metric_key m) = Some (metric_function m)"
proof -
  have "find (\<lambda>n. metric_key n = metric_key m) ms = Some m"
    if "distinct (map metric_key ms)" "m \<in> set ms" for ms
    using that by (induction ms) auto
  then show ?thesis
    using assms distinct_keys by (simp add: item_function_of_def zbx_module_item_list_def)
qed

lemma item_function_sound:
  assumes "item_function_of k = Some f"
  shows "key_offset f < length k \<and> length k < 100 \<and> cstring k \<and>
    (f = F_PG_QUERY \<longrightarrow> query_type_of (drop 9 k) \<noteq> None)"
proof -
  obtain m where m: "find (\<lambda>m. metric_key m = k) keys = Some m" "metric_function m = f"
    using assms by (auto simp: item_function_of_def zbx_module_item_list_def)
  then have "m \<in> set keys" and k: "metric_key m = k"
    by (auto simp: find_Some_iff in_set_conv_nth)
  then have "sound_metric m" using keys_sound by (simp add: list_all_iff)
  then show ?thesis using m(2) k by (simp add: sound_metric_def)
qed

section \<open>Plans of the items\<close>

fun item_plan ::
  "item_function \<Rightarrow> (string \<Rightarrow> string option) \<Rightarrow> env \<Rightarrow> agent_request \<Rightarrow> plan" where
  "item_plan F_MODVER named E request =
     Answer (\<lambda>a. a\<lparr>res_str := Some (PACKAGE_STRING @ '', compiled for Zabbix '' @ ZABBIX_VERSION E)\<rparr>)"
| "item_plan F_PG_CONNECT named E request =
     Probe"
| "item_plan F_PG_VERSION named E request =
     Value AR_STRING PGSQL_GET_VERSION []"
| "item_plan F_PG_STARTTIME named E request =
     Value AR_STRING PGSQL_GET_STARTTIME []"
| "item_plan F_PG_UPTIME named E request =
     Value AR_UINT64 PGSQL_GET_UPTIME []"
| "item_plan F_PG_PREPARED_XACTS_COUNT named E request =
     value_plan AR_UINT64 (get_rparam request PARAM_FIRST) XACTS_COUNT XACTS_COUNT_DB"
| "item_plan F_PG_PREPARED_XACTS_RATIO named E request =
     Value AR_DOUBLE XACTS_RATIO []"
| "item_plan F_PG_PREPARED_XACTS_AGE named E request =
     value_plan AR_UINT64 (get_rparam request PARAM_FIRST) XACTS_AGE XACTS_AGE_DB"
| "item_plan F_PG_SETTING named E request =
     needed_plan (get_rparam request PARAM_FIRST) ''No setting name specified'' (\<lambda>v. Session PGSQL_GET_SETTING [v] (sp_setting E))"
| "item_plan F_PG_SETTING_DISCOVERY named E request =
     Rows PGSQL_DISCOVER_SETTINGS []"
| "item_plan F_PG_QUERY named E request =
     user_query_plan named request (the (query_type_of (drop 9 (req_key request))))"
| "item_plan F_PG_BACKENDS_COUNT named E request =
     By_version (\<lambda>version. activity_plan E request (\<lambda>clause xs. Value AR_UINT64 (fill PGSQL_GET_BACKENDS [pid_column version, clause]) xs))"
| "item_plan F_PG_BACKENDS_FREE named E request =
     Value AR_DOUBLE BACKENDS_FREE []"
| "item_plan F_PG_BACKENDS_RATIO named E request =
     By_version (\<lambda>version. Value AR_DOUBLE (fill BACKENDS_RATIO [pid_column version]) [])"
| "item_plan F_PG_QUERIES_LONGEST named E request =
     activity_plan E request (\<lambda>clause xs. By_version (\<lambda>version. Value AR_DOUBLE (fill (longest_query version) [clause]) xs))"
| "item_plan F_PG_STAT_BGWRITER named E request =
     (let field = drop 3 (req_key request) in Value (bgwriter_type field) (fill BGWRITER_STAT [field]) [])"
| "item_plan F_PG_BG_AVG_INTERVAL named E request =
     Value AR_DOUBLE BG_AVG_INTERVAL []"
| "item_plan F_PG_BG_TIME_RATIO named E request =
     bg_time_plan (get_rparam request PARAM_FIRST)"
| "item_plan F_PG_BG_STATS_RESET_INTERVAL named E request =
     Value AR_UINT64 STATS_RESET_INTERVAL []"
| "item_plan F_PG_DB_DISCOVERY named E request =
     Rows PGSQL_DISCOVER_DBS []"
| "item_plan F_PG_NAMESPACE_DISCOVERY named E request =
     mode_plan (get_rparam request PARAM_FIRST) PGSQL_DISCOVER_NAMESPACES"
| "item_plan F_PG_TABLESPACE_DISCOVERY named E request =
     By_version (\<lambda>v. if v < 90200 then Rows PGSQL_DISCOVER_TABLESPACES [] else Rows PGSQL_DISCOVER_TABLESPACES_92 [])"
| "item_plan F_PG_TABLE_DISCOVERY named E request =
     mode_plan (get_rparam request PARAM_FIRST) PGSQL_DISCOVER_TABLES"
| "item_plan F_PG_TABLE_CHILDREN_DISCOVERY named E request =
     needed_plan (get_rparam request PARAM_FIRST) ''No table name specified'' (\<lambda>v. Rows PGSQL_DISCOVER_TABLE_CHILDREN [v])"
| "item_plan F_PG_INDEX_DISCOVERY named E request =
     mode_plan (get_rparam request PARAM_FIRST) (index_text request)"
| "item_plan F_PG_DB_SIZE named E request =
     value_plan AR_UINT64 (get_rparam request PARAM_FIRST) PGSQL_GET_DB_SIZE_SUM PGSQL_GET_DB_SIZE"
| "item_plan F_PG_TABLE_SIZE named E request =
     value_plan AR_UINT64 (get_rparam request PARAM_FIRST) PGSQL_GET_TABLE_SIZE_SUM PGSQL_GET_TABLE_SIZE"
| "item_plan F_PG_TABLE_ROWS named E request =
     value_plan AR_UINT64 (get_rparam request PARAM_FIRST) PGSQL_GET_TABLE_ROWS_SUM PGSQL_GET_TABLE_ROWS"
| "item_plan F_PG_TABLE_CHILDREN named E request =
     needed_plan (get_rparam request PARAM_FIRST) ''Invalid parameter count. Please specify a table name.'' (\<lambda>v. Value AR_UINT64 PGSQL_GET_TABLE_CHILD_COUNT [v])"
| "item_plan F_PG_TABLE_CHILDREN_SIZE named E request =
     needed_plan (get_rparam request PARAM_FIRST) ''Invalid parameter count. Please specify a table name.'' (\<lambda>v. Value AR_UINT64 PGSQL_GET_CHILDREN_SIZE [v])"
| "item_plan F_PG_TABLE_CHILDREN_ROWS named E request =
     needed_plan (get_rparam request PARAM_FIRST) ''Invalid parameter count. Please specify a table name.'' (\<lambda>v. Value AR_UINT64 PGSQL_GET_CHILDREN_ROWS [v])"
| "item_plan F_PG_INDEX_SIZE named E request =
     value_plan AR_UINT64 (get_rparam request PARAM_FIRST) PGSQL_GET_INDEX_SIZE_SUM PGSQL_GET_INDEX_SIZE"
| "item_plan F_PG_INDEX_ROWS named E request =
     value_plan AR_UINT64 (get_rparam request PARAM_FIRST) PGSQL_GET_INDEX_ROWS_SUM PGSQL_GET_INDEX_ROWS"
| "item_plan F_PG_TABLESPACE_SIZE named E request =
     needed_plan (get_rparam request PARAM_FIRST) ''No tablespace specified'' (\<lambda>v. Value AR_UINT64 PGSQL_GET_TS_SIZE [v])"
| "item_plan F_PG_NAMESPACE_SIZE named E request =
     needed_plan (get_rparam request PARAM_FIRST) ''No schema name specified'' (\<lambda>v. Value AR_UINT64 PGSQL_GET_NS_SIZE [v])"
| "item_plan F_PG_STAT_DATABASE named E request =
     database_stat_plan (drop 6 (req_key request)) (get_rparam request PARAM_FIRST)"
| "item_plan F_PG_DB_BLKS_RATIO named E request =
     ratio_plan (get_rparam request PARAM_FIRST) ''pg_stat_database'' ''sum(blks_hit)'' ''sum(blks_hit) + sum(blks_read)'' ''blks_hit'' ''blks_hit + blks_read'' ''datname''"
| "item_plan F_PG_DB_XID_AGE named E request =
     value_plan AR_UINT64 (get_rparam request PARAM_FIRST) XID_AGE_MAX XID_AGE"
| "item_plan F_PG_STAT_ALL_TABLES named E request =
     table_stat_plan (drop 9 (req_key request)) (get_rparam request PARAM_FIRST)"
| "item_plan F_PG_TABLE_IDX_SCAN_RATIO named E request =
     ratio_plan (get_rparam request PARAM_FIRST) ''pg_stat_all_tables'' ''sum(idx_scan)'' ''sum(seq_scan) + sum(idx_scan)'' ''idx_scan'' ''seq_scan + idx_scan'' ''relname''"
| "item_plan F_PG_STATIO_ALL_TABLES named E request =
     (let field = drop 9 (req_key request) in value_plan AR_UINT64 (get_rparam request PARAM_FIRST) (fill PGSQL_GET_TABLE_STATIO_SUM [field]) (fill PGSQL_GET_TABLE_STATIO [field]))"
| "item_plan F_PG_TABLE_HEAP_BLKS_RATIO named E request =
     ratio_plan (get_rparam request PARAM_FIRST) ''pg_statio_all_tables'' ''sum(heap_blks_hit)'' ''sum(heap_blks_hit) + sum(heap_blks_read)'' ''heap_blks_hit'' ''heap_blks_hit + heap_blks_read'' ''relname''"
| "item_plan F_PG_TABLE_IDX_BLKS_RATIO named E request =
     ratio_plan (get_rparam request PARAM_FIRST) ''pg_statio_all_tables'' ''sum(idx_blks_hit)'' ''sum(idx_blks_hit) + sum(idx_blks_read)'' ''idx_blks_hit'' ''idx_blks_hit + idx_blks_read'' ''relname''"
| "item_plan F_PG_TABLE_TOAST_BLKS_RATIO named E request =
     ratio_plan (get_rparam request PARAM_FIRST) ''pg_statio_all_tables'' ''sum(toast_blks_hit)'' ''sum(toast_blks_hit) + sum(toast_blks_read)'' ''toast_blks_hit'' ''toast_blks_hit + toast_blks_read'' ''relname''"
| "item_plan F_PG_TABLE_TIDX_BLKS_RATIO named E request =
     ratio_plan (get_rparam request PARAM_FIRST) ''pg_statio_all_tables'' ''sum(tidx_blks_hit)'' ''sum(tidx_blks_hit) + sum(tidx_blks_read)'' ''tidx_blks_hit'' ''tidx_blks_hit + tidx_blks_read'' ''relname''"
| "item_plan F_PG_STAT_ALL_INDEXES named E request =
     (let field = drop 9 (req_key request); v = get_rparam request PARAM_FIRST; query = fill (if strisnull v then INDEX_STAT_SUM else INDEX_STAT) [field] in Session query (given v) (sp_counter E query))"
| "item_plan F_PG_STATIO_ALL_INDEXES named E request =
     (let field = drop 9 (req_key request) in value_plan AR_UINT64 (get_rparam request PARAM_FIRST) (fill PGSQL_GET_INDEX_STATIO_SUM [field]) (fill INDEX_STATIO [field]))"
| "item_plan F_PG_INDEX_IDX_BLKS_RATIO named E request =
     ratio_plan (get_rparam request PARAM_FIRST) ''pg_statio_all_indexes'' ''sum(idx_blks_hit)'' ''sum(idx_blks_hit) + sum(idx_blks_read)'' ''idx_blks_hit'' ''idx_blks_hit + idx_blks_read'' ''indexrelname''"

text \<open>
  What the items need beyond \<open>call_ok\<close>: the agent's version is not of an absurd length, and the
  names that filter an index discovery leave the query within its array.
\<close>

definition item_fits :: "item_function \<Rightarrow> env \<Rightarrow> agent_request \<Rightarrow> bool" where
  "item_fits f E request \<longleftrightarrow>
     length (ZABBIX_VERSION E) < 1000 \<and>
     (f = F_PG_INDEX_DISCOVERY \<longrightarrow> length (index_text request) < MAX_STRING_LEN E)"

lemmas item_implementations =
    MODVER_implements PG_CONNECT_implements PG_VERSION_implements
    PG_STARTTIME_implements PG_UPTIME_implements PG_PREPARED_XACTS_COUNT_implements
    PG_PREPARED_XACTS_RATIO_implements PG_PREPARED_XACTS_AGE_implements PG_SETTING_implements
    PG_SETTING_DISCOVERY_implements PG_QUERY_implements PG_BACKENDS_COUNT_implements
    PG_BACKENDS_FREE_implements PG_BACKENDS_RATIO_implements PG_QUERIES_LONGEST_implements
    PG_STAT_BGWRITER_implements PG_BG_AVG_INTERVAL_implements PG_BG_TIME_RATIO_implements
    PG_BG_STATS_RESET_INTERVAL_implements PG_DB_DISCOVERY_implements PG_NAMESPACE_DISCOVERY_implements
    PG_TABLESPACE_DISCOVERY_implements PG_TABLE_DISCOVERY_implements PG_TABLE_CHILDREN_DISCOVERY_implements
    PG_INDEX_DISCOVERY_implements PG_DB_SIZE_implements PG_TABLE_SIZE_implements
    PG_TABLE_ROWS_implements PG_TABLE_CHILDREN_implements PG_TABLE_CHILDREN_SIZE_implements
    PG_TABLE_CHILDREN_ROWS_implements PG_INDEX_SIZE_implements PG_INDEX_ROWS_implements
    PG_TABLESPACE_SIZE_implements PG_NAMESPACE_SIZE_implements PG_STAT_DATABASE_implements
    PG_DB_BLKS_RATIO_implements PG_DB_XID_AGE_implements PG_STAT_ALL_TABLES_implements
    PG_TABLE_IDX_SCAN_RATIO_implements PG_STATIO_ALL_TABLES_implements PG_TABLE_HEAP_BLKS_RATIO_implements
    PG_TABLE_IDX_BLKS_RATIO_implements PG_TABLE_TOAST_BLKS_RATIO_implements PG_TABLE_TIDX_BLKS_RATIO_implements
    PG_STAT_ALL_INDEXES_implements PG_STATIO_ALL_INDEXES_implements
    PG_INDEX_IDX_BLKS_RATIO_implements

lemma item_function_implements:
  assumes E: "zabbix_ok E" and fits: "item_fits f E request"
    and f: "item_function_of (req_key request) = Some f"
  shows "implements named (call_item_function f) E request (item_plan f named E request)"
proof -
  have key: "key_ok request (key_offset f)"
    and type: "f = F_PG_QUERY \<longrightarrow> query_type_of (drop 9 (req_key request)) \<noteq> None"
    using item_function_sound [OF f] by (simp_all add: key_ok_def)
  from fits have ver: "length (ZABBIX_VERSION E) < 1000" by (simp add: item_fits_def)
  show ?thesis
    by (cases f; simp only: call_item_function.simps item_plan.simps;
        rule item_implementations;
        use E fits key ver type in \<open>simp add: item_fits_def\<close>)
qed

lemma run_item_refines_plan:
  assumes E: "zabbix_ok E" and f: "item_function_of (req_key request) = Some f"
    and fits: "item_fits f E request" and ok: "call_ok E request s" and table: "table_ok named s"
  shows "refines {} id (run_item E request) (run_plan E request RESULT (item_plan f named E request)) s"
  using item_function_implements [OF E fits f, of named] ok table
  by (simp add: run_item_def f implements_def)

end
