(* ===== verification/Behaviour.thy ===== *)
theory Behaviour
  imports ItemPlans
begin

text \<open>
  What the specification of the items guarantees, whatever the server answers: connections are
  opened one at a time and closed again, only the planned texts are sent, the answer is complete,
  and with a server that answers in the documented way no call is undefined.
\<close>

section \<open>The link to the server\<close>

text \<open>
  The link is closed or open. A connection is opened only when it is closed; queries are sent and
  the connection is closed only when it is open; messages of the log may come at any time.
\<close>

datatype link = Closed | Open

fun link_step :: "link \<Rightarrow> event \<Rightarrow> link option" where
  "link_step Closed (EConnect cs) = Some Open"
| "link_step Open (EExec query xs) = Some Open"
| "link_step Open EFinish = Some Closed"
| "link_step l (ELog level msg) = Some l"
| "link_step l (EPrint f msg) = Some l"
| "link_step l e = None"

fun link_run :: "link \<Rightarrow> event list \<Rightarrow> link option" where
  "link_run l [] = Some l"
| "link_run l (e # es) = (case link_step l e of None \<Rightarrow> None | Some l' \<Rightarrow> link_run l' es)"

lemma link_run_append:
  "link_run l (es @ fs) = (case link_run l es of None \<Rightarrow> None | Some l' \<Rightarrow> link_run l' fs)"
  by (induction es arbitrary: l) (simp_all split: option.split)

definition is_log :: "event \<Rightarrow> bool" where
  "is_log e \<longleftrightarrow> (case e of ELog level msg \<Rightarrow> True | _ \<Rightarrow> False)"

lemma link_run_logs: "list_all is_log es \<Longrightarrow> link_run l es = Some l"
proof (induction es)
  case (Cons e es)
  then show ?case by (cases e; cases l) (simp_all add: is_log_def)
qed simp

lemma link_run_messages: "list_all is_message es \<Longrightarrow> link_run l es = Some l"
proof (induction es)
  case (Cons e es)
  then show ?case by (cases e; cases l) simp_all
qed simp

text \<open>The texts of the queries among some events.\<close>

fun sent_texts :: "event list \<Rightarrow> string list" where
  "sent_texts [] = []"
| "sent_texts (EExec query xs # es) = query # sent_texts es"
| "sent_texts (e # es) = sent_texts es"

lemma sent_texts_append [simp]: "sent_texts (es @ fs) = sent_texts es @ sent_texts fs"
  by (induction es rule: sent_texts.induct) simp_all

lemma sent_texts_logs: "list_all is_log es \<Longrightarrow> sent_texts es = []"
  by (induction es rule: sent_texts.induct) (simp_all add: is_log_def)

lemma err_log_logs: "list_all is_log (err_log E t)"
  by (simp add: err_log_def is_log_def)

section \<open>Steps that only write to the log, and steps that talk to the server\<close>

definition logs :: "view \<Rightarrow> view \<Rightarrow> bool" where
  "logs v w \<longleftrightarrow> (\<exists>es. fst w = fst v @ es \<and> list_all is_log es)"

interpretation quiet: step_relation logs
proof
  show "logs v v" for v by (auto simp: logs_def)
  show "logs u v \<Longrightarrow> logs v w \<Longrightarrow> logs u w" for u v w by (auto simp: logs_def)
qed

definition talks :: "string set \<Rightarrow> view \<Rightarrow> view \<Rightarrow> bool" where
  "talks T v w \<longleftrightarrow>
     (\<exists>es. fst w = fst v @ es \<and> link_run Closed es = Some Closed \<and> set (sent_texts es) \<subseteq> T)"

interpretation talk: step_relation "talks T" for T
proof
  show "talks T v v" for v by (auto simp: talks_def)
next
  fix u v w
  assume "talks T u v" and "talks T v w"
  then obtain es fs where "fst v = fst u @ es" "link_run Closed es = Some Closed" "set (sent_texts es) \<subseteq> T"
    "fst w = fst v @ fs" "link_run Closed fs = Some Closed" "set (sent_texts fs) \<subseteq> T"
    by (auto simp: talks_def)
  then show "talks T u w"
    by (auto simp: talks_def link_run_append intro!: exI [of _ "es @ fs"])
qed

lemma logs_talk: "logs v w \<Longrightarrow> talks T v w"
  using link_run_logs sent_texts_logs by (fastforce simp: logs_def talks_def)

lemma quiet_talk: "quiet.keeps m \<Longrightarrow> talk.keeps T m"
  by (auto simp: quiet.keeps_def talk.keeps_def intro: logs_talk)

lemma talk_mono: "talk.keeps T m \<Longrightarrow> T \<subseteq> U \<Longrightarrow> talk.keeps U m"
  by (fastforce simp: talk.keeps_def talks_def)

lemma quiet_answer: "quiet.keeps (sp_answer f)"
  by (auto simp: quiet.keeps_def logs_def sp_answer_def modify_c_def)

lemma quiet_error: "quiet.keeps (sp_error E result text)"
proof (rule quiet.keepsI)
  fix v x w
  assume "sp_error E result text v = Inr (x, w)"
  then have "fst w = fst v @ err_log E text" by (cases v) (auto simp: sp_error_run)
  then show "logs v w" using err_log_logs by (auto simp: logs_def)
qed

lemma quiet_reject: "quiet.keeps (sp_reject E result text)"
  by (simp add: sp_reject_def quiet.keeps_rules quiet_error)

lemmas quiet_steps = quiet.keeps_rules quiet_answer quiet_error quiet_reject

text \<open>A session opens the link, sends one text and closes the link.\<close>

lemma session_talks:
  assumes body: "\<And>r. quiet.keeps (body r)" and q: "query \<in> T"
  shows "talk.keeps T (sp_session E cs result query xs none body)"
proof (rule talk.keepsI)
  fix v x w
  assume run: "sp_session E cs result query xs none body v = Inr (x, w)"
  obtain tr a where v: "v = (tr, a)" by (cases v)
  let ?c = "PQconnectdb E tr cs"
  show "talks T v w"
  proof (cases "PQstatus ?c = CONNECTION_OK")
    case False
    then obtain msg where "fst w = tr @ [EConnect cs] @ err_log E msg @ [EFinish]"
      using run by (cases "c_format (PQerrorMessage ?c) []")
        (auto simp: v sp_session_def sp_connect_def Let_def sp_runs)
    then show ?thesis
      using link_run_logs [OF err_log_logs, of Open] sent_texts_logs [OF err_log_logs]
      by (auto simp: v talks_def link_run_append)
  next
    case True
    let ?tr = "tr @ [EConnect cs]"
    let ?r = "result_view (PQexecParams E ?tr ?c query xs)"
    obtain y u where b: "body ?r (?tr @ [EExec query xs], a) = Inr (y, u)"
      and w: "w = (fst u @ [EFinish], snd u)"
      using run True by (cases "body ?r (?tr @ [EExec query xs], a)")
        (auto simp: v sp_session_def sp_connect_def sp_exec_def Let_def sp_runs)
    then obtain es where "fst u = tr @ [EConnect cs, EExec query xs] @ es" "list_all is_log es"
      using quiet.keepsD [OF body b] by (auto simp: logs_def)
    then show ?thesis
      using q link_run_logs [of es Open] sent_texts_logs [of es]
      by (auto simp: v w talks_def link_run_append intro!: exI [of _ "EConnect cs # EExec query xs # es @ [EFinish]"])
  qed
qed

lemma quiet_objects: "quiet.keeps (sp_objects E result r)"
  by (simp add: sp_objects_def quiet_steps)

lemma quiet_document: "quiet.keeps (sp_document E objs)"
  by (simp add: sp_document_def quiet_steps split: option.split)

lemma quiet_cell: "quiet.keeps (sp_cell E result query r)"
  by (auto simp: sp_cell_def quiet_steps split: sum.split option.split)

lemma scalar_talks: "query \<in> T \<Longrightarrow> talk.keeps T (sp_scalar E request result query xs)"
  unfolding sp_scalar_def by (rule session_talks [OF quiet_cell])

lemma wide_loop_talks:
  "query \<in> T \<Longrightarrow> talk.keeps T (sp_wide_loop E request result query objs dbs)"
proof (induction dbs arbitrary: objs)
  case Nil
  then show ?case by (simp add: talk.keeps_rules)
next
  case (Cons db dbs)
  then show ?case
    by (auto intro!: talk.keeps_bind session_talks quiet_objects talk.keeps_option talk.keeps_return)
qed

section \<open>The texts a plan sends\<close>

primrec plan_sends :: "plan \<Rightarrow> string set" where
  "plan_sends (Refuse msg) = {}"
| "plan_sends (Answer f) = {}"
| "plan_sends Probe = {}"
| "plan_sends (Value type query xs) = {query}"
| "plan_sends (Rows query xs) = {query}"
| "plan_sends (Rows_everywhere query) = {DATABASES_QUERY, query}"
| "plan_sends (Session query xs body) = {query}"
| "plan_sends (By_version f) = insert VERSION_QUERY (\<Union>v. plan_sends (f v))"

text \<open>The parts of a plan that use a result do not talk to the server.\<close>

primrec plan_quiet :: "plan \<Rightarrow> bool" where
  "plan_quiet (Refuse msg) = True"
| "plan_quiet (Answer f) = True"
| "plan_quiet Probe = True"
| "plan_quiet (Value type query xs) = True"
| "plan_quiet (Rows query xs) = True"
| "plan_quiet (Rows_everywhere query) = True"
| "plan_quiet (Session query xs body) = (\<forall>result r. quiet.keeps (body result r))"
| "plan_quiet (By_version f) = (\<forall>v. plan_quiet (f v))"

lemma version_talks: "VERSION_QUERY \<in> T \<Longrightarrow> talk.keeps T (sp_version E request result)"
  unfolding sp_version_def
  by (intro talk.keeps_bind scalar_talks) (auto intro: talk.keeps_rules split: option.split)

lemma value_talks: "query \<in> T \<Longrightarrow> talk.keeps T (sp_value E request result type query xs)"
  unfolding sp_value_def
  by (intro talk.keeps_bind scalar_talks)
    (auto intro!: talk.keeps_rules quiet_talk [OF quiet_answer] split: option.split)

lemma discovery_talks: "query \<in> T \<Longrightarrow> talk.keeps T (sp_discovery E request result query xs)"
  unfolding sp_discovery_def
  by (rule session_talks) (auto intro: quiet.keeps_bind quiet_objects quiet_document)

lemma databases_talks: "DATABASES_QUERY \<in> T \<Longrightarrow> talk.keeps T (sp_databases E request result)"
  unfolding sp_databases_def by (rule session_talks) (simp_all add: quiet_steps)

lemma wide_talks:
  "{DATABASES_QUERY, query} \<subseteq> T \<Longrightarrow> talk.keeps T (sp_discovery_wide E request result query)"
  unfolding sp_discovery_wide_def
  by (auto intro!: talk.keeps_bind databases_talks wide_loop_talks talk.keeps_option talk.keeps_return
      quiet_talk [OF quiet_document])

lemma probe_talks: "talk.keeps T (run_plan E request result Probe)"
proof (rule talk.keepsI)
  fix v x w
  assume run: "run_plan E request result Probe v = Inr (x, w)"
  obtain tr a where v: "v = (tr, a)" by (cases v)
  let ?cs = "request_connstring request"
  let ?c = "PQconnectdb E tr ?cs"
  show "talks T v w"
  proof (cases "PQstatus ?c = CONNECTION_OK")
    case False
    then obtain msg where "fst w = tr @ [EConnect ?cs] @ err_log E msg @ [EFinish]"
      using run by (cases "c_format (PQerrorMessage ?c) []")
        (auto simp: v sp_connect_def Let_def sp_runs)
    then show ?thesis
      using link_run_logs [OF err_log_logs, of Open] sent_texts_logs [OF err_log_logs]
      by (auto simp: v talks_def link_run_append)
  next
    case True
    then have "fst w = tr @ [EConnect ?cs, EFinish]"
      using run by (auto simp: v sp_connect_def Let_def sp_runs)
    then show ?thesis by (auto simp: v talks_def)
  qed
qed

lemma plan_talks: "plan_quiet p \<Longrightarrow> talk.keeps (plan_sends p) (run_plan E request result p)"
proof (induction p)
  case (By_version f)
  have "talk.keeps (plan_sends (By_version f)) (run_plan E request result (f v))" for v
    by (rule talk_mono [OF By_version.IH]) (use By_version.prems in auto)
  then show ?case
    by (auto intro!: talk.keeps_rules version_talks)
next
  case Probe
  show ?case using probe_talks by simp
next
  case (Session query xs body)
  then show ?case by (simp add: session_talks)
qed (simp_all add: quiet_talk quiet_reject quiet_steps value_talks discovery_talks wide_talks
    del: run_plan.simps(3))

lemma sp_setting_quiet: "quiet.keeps (sp_setting E result r)"
  by (simp add: sp_setting_def quiet_steps)

lemma sp_counter_quiet: "quiet.keeps (sp_counter E query result r)"
  by (simp add: sp_counter_def quiet_steps)

lemmas plan_shapes =
  value_plan_def needed_plan_def ratio_plan_def mode_plan_def bg_time_plan_def database_stat_plan_def
  table_stat_plan_def activity_plan_def user_query_plan_def answer_as_def

lemma item_plan_quiet: "plan_quiet (item_plan f named E request)"
  by (cases f) (simp_all add: plan_shapes Let_def sp_setting_quiet sp_counter_quiet
      split: option.split query_type.split)

section \<open>Answers are complete\<close>

definition no_value :: "agent_result \<Rightarrow> bool" where
  "no_value a \<longleftrightarrow> res_ui64 a = None \<and> res_dbl a = None \<and> res_str a = None"

text \<open>Exactly one value.\<close>

definition one_value :: "agent_result \<Rightarrow> bool" where
  "one_value a \<longleftrightarrow>
     (case (res_ui64 a, res_dbl a, res_str a) of
        (Some n, None, None) \<Rightarrow> True
      | (None, Some d, None) \<Rightarrow> True
      | (None, None, Some t) \<Rightarrow> True
      | _ \<Rightarrow> False)"

text \<open>
  \<open>careful ok m\<close>: when the result of \<open>m\<close> is a success the answer has not been touched, and
  otherwise no value has been given.
\<close>

definition careful :: "('a \<Rightarrow> bool) \<Rightarrow> (view, 'a) cmd \<Rightarrow> bool" where
  "careful ok m \<longleftrightarrow>
     (\<forall>v x w. m v = Inr (x, w) \<longrightarrow>
        (if ok x then snd w = snd v else no_value (snd v) \<longrightarrow> no_value (snd w)))"

lemma carefulI:
  "(\<And>v x w. m v = Inr (x, w) \<Longrightarrow>
      if ok x then snd w = snd v else no_value (snd v) \<longrightarrow> no_value (snd w)) \<Longrightarrow> careful ok m"
  unfolding careful_def by blast

lemma careful_return: "careful ok (return_c x)"
  by (simp add: careful_def cmd_simps)

lemma careful_fault: "careful ok (fault_c e)"
  by (simp add: careful_def cmd_simps)

lemma careful_lift: "careful ok (lift_c r)"
  by (cases r) (simp_all add: careful_def cmd_simps)

lemma careful_emit: "careful ok (sp_emit es)"
  by (simp add: careful_def sp_emit_def cmd_simps split_beta)

lemma careful_bind:
  assumes m: "careful ok m" and f: "\<And>x. ok x \<Longrightarrow> careful ok' (f x)"
    and bad: "\<And>x. \<not> ok x \<Longrightarrow> \<exists>y. f x = return_c y \<and> \<not> ok' y"
  shows "careful ok' (bind_c m f)"
proof (rule carefulI)
  fix v y w
  assume "bind_c m f v = Inr (y, w)"
  then obtain x u where run: "m v = Inr (x, u)" "f x u = Inr (y, w)" by (auto simp: bind_c_eq_Inr)
  show "if ok' y then snd w = snd v else no_value (snd v) \<longrightarrow> no_value (snd w)"
  proof (cases "ok x")
    case True
    then have "snd u = snd v" using m run(1) unfolding careful_def by metis
    then show ?thesis using f [OF True] run(2) unfolding careful_def by metis
  next
    case False
    then obtain z where "f x = return_c z" "\<not> ok' z" using bad by blast
    then have "y = z" "w = u" using run(2) by (simp_all add: cmd_simps)
    then show ?thesis using m run(1) False \<open>\<not> ok' z\<close> unfolding careful_def by metis
  qed
qed

text \<open>A step that cannot fail before one that may.\<close>

lemma careful_seq: "careful (\<lambda>_. True) m \<Longrightarrow> careful ok n \<Longrightarrow> careful ok (seq_c m n)"
  unfolding seq_c_def by (rule careful_bind [where ok = "\<lambda>_. True"]) simp_all

lemma careful_error:
  assumes "\<not> ok y"
  shows "careful ok (seq_c (sp_error E result msg) (return_c y))"
proof (rule carefulI)
  fix v x w
  assume "seq_c (sp_error E result msg) (return_c y) v = Inr (x, w)"
  then have "x = y" "snd w = set_msg result (err_text E msg) (snd v)"
    by (cases v, auto simp: sp_runs)+
  then show "if ok x then snd w = snd v else no_value (snd v) \<longrightarrow> no_value (snd w)"
    using assms by (simp add: no_value_def set_msg_def)
qed

lemma careful_connect: "careful (\<lambda>c. c \<noteq> None) (sp_connect E cs result)"
proof (rule carefulI)
  fix v x w
  assume run: "sp_connect E cs result v = Inr (x, w)"
  obtain tr a where v: "v = (tr, a)" by (cases v)
  show "if x \<noteq> None then snd w = snd v else no_value (snd v) \<longrightarrow> no_value (snd w)"
    using run by (cases "c_format (PQerrorMessage (PQconnectdb E tr cs)) []")
      (auto simp: v sp_connect_def Let_def sp_runs no_value_def set_msg_def split: if_splits)
qed

lemma careful_exec: "careful (\<lambda>_. True) (sp_exec E c query xs)"
  by (simp add: careful_def sp_exec_def sp_emit_def bind_c_run seq_c_run cmd_simps split_beta)

text \<open>What a session makes of the answer is what its body does.\<close>

lemma careful_session:
  assumes body: "\<And>r. careful ok (body r)" and none: "\<not> ok none"
  shows "careful ok (sp_session E cs result query xs none body)"
proof -
  have fin: "careful ok (bind_c (body r) (\<lambda>x. seq_c (sp_emit [EFinish]) (return_c x)))" for r
  proof (rule carefulI)
    fix v y w
    assume "bind_c (body r) (\<lambda>x. seq_c (sp_emit [EFinish]) (return_c x)) v = Inr (y, w)"
    then obtain u where "body r v = Inr (y, u)" "snd w = snd u"
      by (auto simp: bind_c_eq_Inr seq_c_run sp_emit_def cmd_simps split_beta)
    then show "if ok y then snd w = snd v else no_value (snd v) \<longrightarrow> no_value (snd w)"
      using body [of r] unfolding careful_def by metis
  qed
  show ?thesis
    unfolding sp_session_def
  proof (rule careful_bind [OF careful_connect])
    fix c :: "pgconn option"
    assume "c \<noteq> None"
    then show "careful ok (case c of None \<Rightarrow> return_c none | Some c \<Rightarrow>
        bind_c (sp_exec E c query xs) (\<lambda>r. bind_c (body r) (\<lambda>x.
          seq_c (sp_emit [EFinish]) (return_c x))))"
      by (auto intro!: careful_bind [OF careful_exec] fin)
  next
    fix c :: "pgconn option"
    assume "\<not> c \<noteq> None"
    then show "\<exists>y. (case c of None \<Rightarrow> return_c none | Some c \<Rightarrow>
        bind_c (sp_exec E c query xs) (\<lambda>r. bind_c (body r) (\<lambda>x.
          seq_c (sp_emit [EFinish]) (return_c x)))) = return_c y \<and> \<not> ok y"
      using none by auto
  qed
qed

lemma careful_scalar: "careful (\<lambda>c. c \<noteq> None) (sp_scalar E request result query xs)"
  unfolding sp_scalar_def
proof (rule careful_session)
  show "careful (\<lambda>c. c \<noteq> None) (sp_cell E result query r)" for r
    by (auto simp: sp_cell_def careful_error careful_fault careful_return split: sum.split option.split)
qed simp

lemma careful_version: "careful (\<lambda>v. v \<noteq> 0) (sp_version E request result)"
  unfolding sp_version_def
  by (rule careful_bind [OF careful_scalar]) (auto simp: careful_lift split: option.split)

lemma careful_objects: "careful (\<lambda>c. c \<noteq> None) (sp_objects E result r)"
  by (simp add: sp_objects_def careful_error careful_return)

lemma careful_databases: "careful (\<lambda>c. c \<noteq> None) (sp_databases E request result)"
  unfolding sp_databases_def by (rule careful_session) (simp_all add: careful_error careful_return)

lemma careful_wide_loop: "careful (\<lambda>c. c \<noteq> None) (sp_wide_loop E request result query objs dbs)"
proof (induction dbs arbitrary: objs)
  case Nil
  then show ?case by (simp add: careful_return)
next
  case (Cons db dbs)
  have "careful (\<lambda>c. c \<noteq> None) (sp_session E (db_connstring request db) result query [] None (sp_objects E result))"
    by (rule careful_session [OF careful_objects]) simp
  then show ?case
    unfolding sp_wide_loop.simps
    by (rule careful_bind) (use Cons.IH in \<open>auto split: option.split\<close>)
qed

text \<open>\<open>answers m\<close>: from an empty answer, a success leaves one value and no message, a failure no value.\<close>

definition answers :: "(view, sysinfo_ret) cmd \<Rightarrow> bool" where
  "answers m \<longleftrightarrow>
     (\<forall>v ret w. m v = Inr (ret, w) \<longrightarrow> snd v = no_answer \<longrightarrow>
        (if ret = SYSINFO_RET_OK then one_value (snd w) \<and> res_msg (snd w) = None
         else no_value (snd w)))"

lemma answersD:
  "answers m \<Longrightarrow> m v = Inr (ret, w) \<Longrightarrow> snd v = no_answer \<Longrightarrow>
    (if ret = SYSINFO_RET_OK then one_value (snd w) \<and> res_msg (snd w) = None else no_value (snd w))"
  unfolding answers_def by blast

lemma no_value_none: "no_value no_answer"
  by (simp add: no_value_def no_answer_def)

lemma answers_fail: "answers (return_c SYSINFO_RET_FAIL)"
  by (simp add: answers_def cmd_simps no_value_none)

lemma answers_fault: "answers (fault_c e)"
  by (simp add: answers_def cmd_simps)

lemma answers_give:
  assumes "one_value (f no_answer)" and "res_msg (f no_answer) = None"
  shows "answers (seq_c (sp_answer f) (return_c SYSINFO_RET_OK))"
  using assms by (auto simp: answers_def sp_answer_def seq_c_run cmd_simps split_beta)

lemma answers_reject: "answers (seq_c (sp_error E result msg) (return_c SYSINFO_RET_FAIL))"
  by (auto simp: answers_def sp_runs set_msg_def no_value_def no_answer_def)

lemma answers_bind:
  assumes m: "careful ok m" and f: "\<And>x. ok x \<Longrightarrow> answers (f x)"
    and bad: "\<And>x. \<not> ok x \<Longrightarrow> f x = return_c SYSINFO_RET_FAIL"
  shows "answers (bind_c m f)"
  unfolding answers_def
proof (intro allI impI)
  fix v ret w
  assume "bind_c m f v = Inr (ret, w)" and v: "snd v = no_answer"
  then obtain x u where run: "m v = Inr (x, u)" "f x u = Inr (ret, w)" by (auto simp: bind_c_eq_Inr)
  show "if ret = SYSINFO_RET_OK then one_value (snd w) \<and> res_msg (snd w) = None else no_value (snd w)"
  proof (cases "ok x")
    case True
    then have "snd u = no_answer" using m run(1) v unfolding careful_def by metis
    then show ?thesis using f [OF True] run(2) unfolding answers_def by blast
  next
    case False
    then have "ret = SYSINFO_RET_FAIL" "w = u" using bad run(2) by (simp_all add: cmd_simps)
    then show ?thesis using m run(1) False v no_value_none unfolding careful_def by (metis sysinfo_ret.distinct(1))
  qed
qed

lemma answers_lift_bind: "(\<And>x. answers (f x)) \<Longrightarrow> answers (bind_c (lift_c r) f)"
  by (rule answers_bind [OF careful_lift, where ok = "\<lambda>_. True"]) simp_all

lemma answers_finish:
  assumes "answers m"
  shows "answers (bind_c m (\<lambda>x. seq_c (sp_emit es) (return_c x)))"
  unfolding answers_def
proof (intro allI impI)
  fix v ret w
  assume "bind_c m (\<lambda>x. seq_c (sp_emit es) (return_c x)) v = Inr (ret, w)" and v: "snd v = no_answer"
  then obtain u where "m v = Inr (ret, u)" "snd w = snd u"
    by (auto simp: bind_c_eq_Inr seq_c_run sp_emit_def cmd_simps split_beta)
  then show "if ret = SYSINFO_RET_OK then one_value (snd w) \<and> res_msg (snd w) = None else no_value (snd w)"
    using assms v unfolding answers_def by metis
qed

lemma answers_session:
  assumes "\<And>r. answers (body r)"
  shows "answers (sp_session E cs result query xs SYSINFO_RET_FAIL body)"
  unfolding sp_session_def
  by (rule answers_bind [OF careful_connect])
    (auto intro!: answers_bind [OF careful_exec] answers_finish assms)

lemma answers_document: "answers (sp_document E objs)"
  by (auto simp: sp_document_def answers_fail one_value_def no_answer_def
      intro!: answers_give split: option.split)

text \<open>A plan whose own parts answer completely.\<close>

primrec plan_answers :: "plan \<Rightarrow> bool" where
  "plan_answers (Refuse msg) = True"
| "plan_answers (Answer f) = (one_value (f no_answer) \<and> res_msg (f no_answer) = None)"
| "plan_answers Probe = True"
| "plan_answers (Value type query xs) = plain_type type"
| "plan_answers (Rows query xs) = True"
| "plan_answers (Rows_everywhere query) = True"
| "plan_answers (Session query xs body) = (\<forall>result r. answers (body result r))"
| "plan_answers (By_version f) = (\<forall>v. plan_answers (f v))"

lemma answers_value: "plain_type type \<Longrightarrow> answers (sp_value E request result type query xs)"
  unfolding sp_value_def
proof (rule answers_bind [OF careful_scalar])
  fix c :: "string option"
  assume "plain_type type" and "c \<noteq> None"
  then obtain v where c: "c = Some v" by blast
  have "answers (bind_c (lift_c (value_answer E type v)) (\<lambda>f. seq_c (sp_answer f) (return_c SYSINFO_RET_OK)))"
  proof (cases "value_answer E type v")
    case (Inr f)
    then have "one_value (f no_answer) \<and> res_msg (f no_answer) = None"
      using \<open>plain_type type\<close>
      by (cases "text_to_uint E v")
        (auto simp: value_answer_def plain_type_def one_value_def no_answer_def split: ar_type.splits)
    then show ?thesis using Inr by (simp add: cmd_simps answers_give)
  qed (simp add: answers_def bind_c_run cmd_simps)
  then show "answers (case c of None \<Rightarrow> return_c SYSINFO_RET_FAIL | Some v \<Rightarrow>
      bind_c (lift_c (value_answer E type v)) (\<lambda>f. seq_c (sp_answer f) (return_c SYSINFO_RET_OK)))"
    by (simp add: c)
qed simp

lemma answers_discovery: "answers (sp_discovery E request result query xs)"
  unfolding sp_discovery_def
proof (rule answers_session)
  show "answers (bind_c (sp_objects E result r) (sp_document E))" for r
    by (rule answers_bind [OF careful_objects answers_document]) (simp add: sp_document_def)
qed

lemma answers_wide: "answers (sp_discovery_wide E request result query)"
  unfolding sp_discovery_wide_def
proof (rule answers_bind [OF careful_databases])
  fix dbs :: "string list option"
  assume "dbs \<noteq> None"
  moreover have "answers (bind_c (sp_wide_loop E request result query [] names) (sp_document E))" for names
    by (rule answers_bind [OF careful_wide_loop answers_document]) (simp add: sp_document_def)
  ultimately show "answers (case dbs of None \<Rightarrow> return_c SYSINFO_RET_FAIL
      | Some names \<Rightarrow> bind_c (sp_wide_loop E request result query [] (takeWhile (\<lambda>db. db \<noteq> []) names))
          (sp_document E))" by auto
qed simp

lemma answers_probe: "answers (run_plan E request result Probe)"
  unfolding answers_def
proof (intro allI impI)
  fix v ret w
  assume run: "run_plan E request result Probe v = Inr (ret, w)" and a: "snd v = no_answer"
  obtain tr where v: "v = (tr, no_answer)" using a by (cases v) simp
  have "ret = SYSINFO_RET_OK \<and> one_value (snd w) \<and> res_msg (snd w) = None"
    using run
    by (cases "c_format (PQerrorMessage (PQconnectdb E tr (request_connstring request))) []")
      (auto simp: v sp_connect_def Let_def sp_runs no_answer_def one_value_def set_msg_def split: if_splits)
  then show "if ret = SYSINFO_RET_OK then one_value (snd w) \<and> res_msg (snd w) = None
      else no_value (snd w)" by simp
qed

lemma plan_answers_run: "plan_answers p \<Longrightarrow> answers (run_plan E request result p)"
proof (induction p)
  case (By_version f)
  show ?case
    unfolding run_plan.simps
    by (rule answers_bind [OF careful_version, where f = "\<lambda>v. if to_int32 v = 0
          then return_c SYSINFO_RET_FAIL else run_plan E request result (f (to_int32 v))"])
      (use By_version in \<open>auto simp: answers_fail to_int32_def\<close>)
next
  case Probe
  show ?case by (rule answers_probe)
next
  case (Session query xs body)
  then show ?case by (simp add: answers_session)
qed (simp_all add: sp_reject_def answers_reject answers_give answers_value answers_discovery
    answers_wide del: run_plan.simps(3))

lemma sp_setting_answers: "answers (sp_setting E result r)"
proof -
  have "one_value (setting_answer E v t no_answer) \<and> res_msg (setting_answer E v t no_answer) = None" for v t
    by (simp add: setting_answer_def one_value_def no_answer_def)
  then show ?thesis
    by (auto simp: sp_setting_def answers_reject answers_fail intro!: answers_lift_bind answers_give)
qed

lemma sp_counter_answers: "answers (sp_counter E query result r)"
  by (auto simp: sp_counter_def answers_reject one_value_def no_answer_def
      intro!: answers_lift_bind answers_give)

lemma item_plan_answers: "plan_answers (item_plan f named E request)"
  by (cases f) (simp_all add: plan_shapes Let_def sp_setting_answers sp_counter_answers
      bgwriter_type_def one_value_def no_answer_def split: option.split query_type.split)

section \<open>A server that behaves\<close>

text \<open>
  \<open>benign E\<close>: no message of a refused connection is a format with directives, a result of the
  query for a setting has two columns, and the numbers the server gives are in the range of the
  type they are converted to. This excludes the inputs on which the code has no meaning in C.
\<close>

definition counter_query :: "string \<Rightarrow> bool" where
  "counter_query query \<longleftrightarrow> (\<exists>field. query = fill INDEX_STAT [field] \<or> query = fill INDEX_STAT_SUM [field])"

definition benign_cell :: "env \<Rightarrow> string \<Rightarrow> string \<Rightarrow> bool" where
  "benign_cell E query v \<longleftrightarrow>
     (\<exists>n. text_to_uint E (zbx_strlcpy E (MAX_STRING_LEN E) v) = Inr n) \<and>
     (query = VERSION_QUERY \<longrightarrow> (\<exists>n. atol (zbx_strlcpy E (MAX_STRING_LEN E) v) = Inr n)) \<and>
     (counter_query query \<longrightarrow> (\<exists>n. atoi v = Inr n))"

definition benign :: "env \<Rightarrow> bool" where
  "benign E \<longleftrightarrow>
     (\<forall>past cs. \<exists>msg. c_format (PQerrorMessage (PQconnectdb E past cs)) [] = Inr msg) \<and>
     (\<forall>past c query xs r. PQexecParams E past c query xs = Some r \<longrightarrow> PQntuples r \<noteq> 0 \<longrightarrow>
        (\<exists>v. PQgetvalue r 0 0 = Some v \<and> benign_cell E query v) \<and>
        (query = PGSQL_GET_SETTING \<longrightarrow> PQgetvalue r 0 1 \<noteq> None))"

definition benign_result :: "env \<Rightarrow> string \<Rightarrow> pgresult \<Rightarrow> bool" where
  "benign_result E query r \<longleftrightarrow>
     (PQntuples r \<noteq> 0 \<longrightarrow> (\<exists>v. PQgetvalue r 0 0 = Some v \<and> benign_cell E query v) \<and>
        (query = PGSQL_GET_SETTING \<longrightarrow> PQgetvalue r 0 1 \<noteq> None))"

text \<open>\<open>delivers P m\<close>: the run is defined from every state, and its result satisfies \<open>P\<close>.\<close>

definition delivers :: "('a \<Rightarrow> bool) \<Rightarrow> ('s, 'a) cmd \<Rightarrow> bool" where
  "delivers P m \<longleftrightarrow> (\<forall>v. \<exists>x w. m v = Inr (x, w) \<and> P x)"

lemma delivers_return: "P x \<Longrightarrow> delivers P (return_c x)"
  by (simp add: delivers_def cmd_simps)

lemma delivers_lift: "r = Inr x \<Longrightarrow> P x \<Longrightarrow> delivers P (lift_c r)"
  by (simp add: delivers_def cmd_simps)

lemma delivers_bind:
  assumes "delivers P m" and "\<And>x. P x \<Longrightarrow> delivers Q (f x)"
  shows "delivers Q (bind_c m f)"
  unfolding delivers_def
proof
  fix v
  obtain x u where "m v = Inr (x, u)" "P x" using assms(1) unfolding delivers_def by blast
  then show "\<exists>y w. bind_c m f v = Inr (y, w) \<and> Q y"
    using assms(2) unfolding delivers_def by (fastforce simp: bind_c_run)
qed

lemma delivers_seq: "delivers (\<lambda>_. True) m \<Longrightarrow> delivers Q n \<Longrightarrow> delivers Q (seq_c m n)"
  unfolding seq_c_def by (rule delivers_bind)

lemma delivers_answer: "delivers (\<lambda>_. True) (sp_answer f)"
  by (simp add: delivers_def sp_answer_def cmd_simps)

lemma delivers_emit: "delivers (\<lambda>_. True) (sp_emit es)"
  by (simp add: delivers_def sp_emit_def cmd_simps)

lemma delivers_error: "delivers (\<lambda>_. True) (sp_error E result msg)"
  unfolding sp_error_def by (rule delivers_seq [OF delivers_emit delivers_answer])

lemmas delivers_steps = delivers_return delivers_answer delivers_emit delivers_error

lemma delivers_connect: "benign E \<Longrightarrow> delivers (\<lambda>_. True) (sp_connect E cs result)"
  unfolding delivers_def
proof
  fix v :: view
  assume "benign E"
  obtain tr a where v: "v = (tr, a)" by (cases v)
  obtain msg where "c_format (PQerrorMessage (PQconnectdb E tr cs)) [] = Inr msg"
    using \<open>benign E\<close> unfolding benign_def by blast
  then show "\<exists>x w. sp_connect E cs result v = Inr (x, w) \<and> True"
    by (simp add: v sp_connect_def Let_def sp_runs)
qed

lemma delivers_exec: "benign E \<Longrightarrow> delivers (benign_result E query) (sp_exec E c query xs)"
  unfolding delivers_def
proof
  fix v :: view
  assume E: "benign E"
  obtain tr a where v: "v = (tr, a)" by (cases v)
  have "benign_result E query (result_view (PQexecParams E tr c query xs))"
  proof (cases "PQexecParams E tr c query xs")
    case None
    then show ?thesis by (simp add: benign_result_def result_view_def null_result_def)
  next
    case (Some r)
    then have "benign_result E query r" using E unfolding benign_def benign_result_def by blast
    then show ?thesis by (simp add: Some result_view_def)
  qed
  then show "\<exists>x w. sp_exec E c query xs v = Inr (x, w) \<and> benign_result E query x"
    by (simp add: v sp_exec_def sp_runs)
qed

lemma delivers_session:
  assumes E: "benign E" and none: "P none"
    and body: "\<And>r. benign_result E query r \<Longrightarrow> delivers P (body r)"
  shows "delivers P (sp_session E cs result query xs none body)"
  unfolding sp_session_def
proof (rule delivers_bind [OF delivers_connect [OF E]])
  fix c :: "pgconn option"
  have "delivers P (bind_c (sp_exec E c query xs) (\<lambda>r. bind_c (body r) (\<lambda>x.
      seq_c (sp_emit [EFinish]) (return_c x))))" for c
    by (rule delivers_bind [OF delivers_exec [OF E]], rule delivers_bind [OF body])
      (simp_all add: delivers_seq delivers_steps)
  then show "delivers P (case c of None \<Rightarrow> return_c none | Some c \<Rightarrow> bind_c (sp_exec E c query xs)
      (\<lambda>r. bind_c (body r) (\<lambda>x. seq_c (sp_emit [EFinish]) (return_c x))))"
    using none by (simp add: delivers_return split: option.split)
qed

lemma benign_scalar:
  "benign_result E query r \<Longrightarrow> scalar_reply query r = Inr c \<Longrightarrow>
    \<exists>v. c = Some v \<and> benign_cell E query v"
  by (auto simp: scalar_reply_def benign_result_def split: if_splits)

lemma delivers_scalar:
  assumes "benign E"
  shows "delivers (\<lambda>c. \<forall>v. c = Some v \<longrightarrow> (\<exists>u. v = zbx_strlcpy E (MAX_STRING_LEN E) u \<and> benign_cell E query u))
    (sp_scalar E request result query xs)"
  unfolding sp_scalar_def
proof (rule delivers_session [OF assms])
  fix r
  assume r: "benign_result E query r"
  show "delivers (\<lambda>c. \<forall>v. c = Some v \<longrightarrow> (\<exists>u. v = zbx_strlcpy E (MAX_STRING_LEN E) u \<and> benign_cell E query u))
    (sp_cell E result query r)"
  proof (cases "scalar_reply query r")
    case (Inl msg)
    then show ?thesis
      by (simp add: sp_cell_def delivers_seq delivers_steps)
  next
    case (Inr c)
    then obtain v where "c = Some v" "benign_cell E query v" using benign_scalar [OF r] by blast
    then show ?thesis using Inr by (auto simp: sp_cell_def intro!: delivers_return)
  qed
qed simp

lemma delivers_value: "benign E \<Longrightarrow> delivers (\<lambda>_. True) (sp_value E request result type query xs)"
  unfolding sp_value_def
proof (rule delivers_bind [OF delivers_scalar])
  fix c :: "string option"
  assume c: "\<forall>v. c = Some v \<longrightarrow> (\<exists>u. v = zbx_strlcpy E (MAX_STRING_LEN E) u \<and> benign_cell E query u)"
  have "\<exists>f. value_answer E type v = Inr f" if "c = Some v" for v
    using c that by (fastforce simp: value_answer_def benign_cell_def split: ar_type.split)
  then show "delivers (\<lambda>_. True) (case c of None \<Rightarrow> return_c SYSINFO_RET_FAIL | Some v \<Rightarrow>
      bind_c (lift_c (value_answer E type v)) (\<lambda>f. seq_c (sp_answer f) (return_c SYSINFO_RET_OK)))"
    by (auto simp: cmd_simps intro!: delivers_seq delivers_answer delivers_return split: option.split)
qed

lemma delivers_version: "benign E \<Longrightarrow> delivers (\<lambda>_. True) (sp_version E request result)"
  unfolding sp_version_def
proof (rule delivers_bind [OF delivers_scalar])
  fix c :: "string option"
  assume c: "\<forall>v. c = Some v \<longrightarrow>
      (\<exists>u. v = zbx_strlcpy E (MAX_STRING_LEN E) u \<and> benign_cell E VERSION_QUERY u)"
  then have "\<exists>n. atol v = Inr n" if "c = Some v" for v
    using that by (fastforce simp: benign_cell_def)
  then show "delivers (\<lambda>_. True) (case c of None \<Rightarrow> return_c 0 | Some v \<Rightarrow> lift_c (atol v))"
    by (auto simp: delivers_steps intro: delivers_lift split: option.split)
qed

lemma delivers_objects: "delivers (\<lambda>_. True) (sp_objects E result r)"
  by (simp add: sp_objects_def delivers_steps delivers_seq)

lemma delivers_document: "delivers (\<lambda>_. True) (sp_document E objs)"
  by (simp add: sp_document_def delivers_steps delivers_seq split: option.split)

lemma delivers_discovery: "benign E \<Longrightarrow> delivers (\<lambda>_. True) (sp_discovery E request result query xs)"
  unfolding sp_discovery_def
  by (rule delivers_session) (auto intro: delivers_bind [OF delivers_objects delivers_document])

lemma delivers_databases: "benign E \<Longrightarrow> delivers (\<lambda>_. True) (sp_databases E request result)"
  unfolding sp_databases_def
  by (rule delivers_session) (simp_all add: delivers_steps delivers_seq)

lemma delivers_wide_loop:
  "benign E \<Longrightarrow> delivers (\<lambda>_. True) (sp_wide_loop E request result query objs dbs)"
proof (induction dbs arbitrary: objs)
  case Nil
  then show ?case by (simp add: delivers_return)
next
  case (Cons db dbs)
  have "delivers (\<lambda>_. True) (sp_session E (db_connstring request db) result query [] None (sp_objects E result))"
    by (rule delivers_session [OF Cons.prems]) (simp_all add: delivers_objects)
  then show ?case
    unfolding sp_wide_loop.simps
    by (rule delivers_bind) (use Cons in \<open>auto simp: delivers_return split: option.split\<close>)
qed

lemma delivers_wide: "benign E \<Longrightarrow> delivers (\<lambda>_. True) (sp_discovery_wide E request result query)"
  unfolding sp_discovery_wide_def
  by (rule delivers_bind [OF delivers_databases])
    (auto simp: delivers_return intro!: delivers_bind [OF delivers_wide_loop delivers_document]
      split: option.split)

primrec plan_delivers :: "env \<Rightarrow> plan \<Rightarrow> bool" where
  "plan_delivers E (Refuse msg) = True"
| "plan_delivers E (Answer f) = True"
| "plan_delivers E Probe = True"
| "plan_delivers E (Value type query xs) = True"
| "plan_delivers E (Rows query xs) = True"
| "plan_delivers E (Rows_everywhere query) = True"
| "plan_delivers E (Session query xs body) =
     (\<forall>result r. benign_result E query r \<longrightarrow> delivers (\<lambda>_. True) (body result r))"
| "plan_delivers E (By_version f) = (\<forall>v. plan_delivers E (f v))"

lemma plan_delivers_run:
  "benign E \<Longrightarrow> plan_delivers E p \<Longrightarrow> delivers (\<lambda>_. True) (run_plan E request result p)"
proof (induction p)
  case (By_version f)
  then show ?case
    unfolding run_plan.simps
    by (intro delivers_bind [OF delivers_version]) (auto simp: delivers_return)
next
  case Probe
  then show ?case
    unfolding run_plan.simps
    by (intro delivers_bind [OF delivers_connect]) (simp_all add: delivers_seq delivers_steps)
next
  case (Session query xs body)
  then show ?case by (auto intro: delivers_session)
qed (simp_all add: sp_reject_def delivers_seq delivers_steps delivers_value delivers_discovery
    delivers_wide del: run_plan.simps(3))

lemma sp_setting_delivers:
  "benign_result E PGSQL_GET_SETTING r \<Longrightarrow> delivers (\<lambda>_. True) (sp_setting E result r)"
  by (auto simp: sp_setting_def benign_result_def non_null_def cmd_simps delivers_steps
      intro!: delivers_seq)

lemma sp_counter_delivers:
  assumes "benign_result E query r" and "counter_query query"
  shows "delivers (\<lambda>_. True) (sp_counter E query result r)"
  using assms
  by (auto simp: sp_counter_def benign_result_def benign_cell_def non_null_def cmd_simps delivers_steps
      intro!: delivers_seq)

lemma counter_queries: "counter_query (fill INDEX_STAT [field])" "counter_query (fill INDEX_STAT_SUM [field])"
  unfolding counter_query_def by blast+

lemma item_plan_delivers: "plan_delivers E (item_plan f named E request)"
  by (cases f) (simp_all add: plan_shapes Let_def sp_setting_delivers
      sp_counter_delivers [OF _ counter_queries(1)] sp_counter_delivers [OF _ counter_queries(2)]
      bgwriter_type_def del: fill.simps split: option.split query_type.split)

end
