(* ===== verification/Lifecycle.thy ===== *)
theory Lifecycle
  imports Behaviour
begin

text \<open>
  The module over its whole life: the facts about single items, carried along the runs of
  \<open>module_step\<close> by rule induction.
\<close>

section \<open>One item\<close>

lemma index_overflow:
  assumes "zabbix_ok E" and "request_ok request"
    and "\<not> length (index_text request) < MAX_STRING_LEN E"
  shows "PG_INDEX_DISCOVERY E request result s = Inl Out_of_bounds"
  using index_discovery_query_run [OF assms(1,2)] assms(3)
  by (simp add: PG_INDEX_DISCOVERY_def bind_c_run cmd_simps)

text \<open>A run that is defined is one of an item whose texts fit, or the key is not known.\<close>

lemma run_item_cases:
  assumes E: "zabbix_ok E" "length (ZABBIX_VERSION E) < 1000"
    and ok: "call_ok E request s" and table: "table_ok named s"
    and run: "run_item E request s = Inr (ret, t)"
  obtains "item_function_of (req_key request) = None" "t = s"
  | f where "item_function_of (req_key request) = Some f" "item_fits f E request"
      "run_plan E request RESULT (item_plan f named E request) (view_of s) = Inr (ret, view_of t)"
      "framed {} s t"
proof (cases "item_function_of (req_key request)")
  case None
  then show ?thesis using that(1) run by (simp add: run_item_def cmd_simps)
next
  case (Some f)
  have fits: "item_fits f E request"
  proof (cases "f = F_PG_INDEX_DISCOVERY")
    case True
    then show ?thesis
      using run Some index_overflow [OF E(1), of request RESULT s] call_okD [OF ok] E(2)
      by (auto simp: run_item_def item_fits_def)
  qed (use E(2) in \<open>simp add: item_fits_def\<close>)
  have "refines {} id (run_item E request) (run_plan E request RESULT (item_plan f named E request)) s"
    by (rule run_item_refines_plan [OF E(1) Some fits ok table])
  then show ?thesis using that(2) [OF Some fits] run by (simp add: refines_def)
qed

lemma run_item_talks:
  assumes "zabbix_ok E" "length (ZABBIX_VERSION E) < 1000" "call_ok E request s" "table_ok named s"
    and run: "run_item E request s = Inr (ret, t)" and f: "item_function_of (req_key request) = Some f"
  shows "talks (plan_sends (item_plan f named E request)) (view_of s) (view_of t)"
  using assms(1-4) run
proof (cases rule: run_item_cases)
  case 1
  then show ?thesis using f by simp
next
  case (2 g)
  then show ?thesis
    using f talk.keepsD [OF plan_talks [OF item_plan_quiet] 2(3)] by simp
qed

section \<open>Every reachable state\<close>

text \<open>
  The files the module can find are as libconfig reads them, and the environment behaves as
  documented.
\<close>

definition world_ok :: "env \<Rightarrow> bool" where
  "world_ok E \<longleftrightarrow>
     zabbix_ok E \<and> server_ok E \<and> length (ZABBIX_VERSION E) < 1000 \<and>
     (\<forall>path cfg. config_read_file E path = Inr cfg \<longrightarrow> libconfig_ok cfg)"

definition configured :: "env \<Rightarrow> string \<Rightarrow> string option" where
  "configured E =
     (case config_path E of
        None \<Rightarrow> Map.empty
      | Some path \<Rightarrow> (case config_read_file E path of Inl e \<Rightarrow> Map.empty | Inr cfg \<Rightarrow> file_queries cfg))"

lemma init_config_loaded:
  assumes "world_ok E" and "queries s = queries start_state"
    and run: "init_config E s = Inr (ZBX_MODULE_OK, t)"
  shows "table_ok (configured E) t"
proof -
  obtain path where path: "config_path E = Some path"
    using run by (cases "config_path E")
      (auto simp: init_config_def getPGCONFIGFILE_def config_path_def read_config_def bind_c_eq_Inr
        seq_c_def cmd_simps split: option.splits if_splits)
  have get: "getPGCONFIGFILE E u = Inr (Some path, u)" for u
    using path by (auto simp: config_path_def getPGCONFIGFILE_def cmd_simps split: option.splits if_splits)
  obtain cfg where cfg: "config_read_file E path = Inr cfg"
    using run by (cases "config_read_file E path")
      (auto simp: init_config_def get read_config_def bind_c_eq_Inr seq_c_def cmd_simps
        split: if_splits prod.splits)
  then have "libconfig_ok cfg" using assms(1) by (auto simp: world_ok_def)
  from init_config_result [OF path cfg this assms(2)] run show ?thesis
    by (auto simp: table_ok_def configured_def path cfg split: if_splits)
qed

lemma start_link:
  assumes "starts s t" and "link_run Closed (trace s) = Some Closed"
  shows "link_run Closed (trace t) = Some Closed"
  using assms by (auto simp: starts_def link_run_append link_run_messages)

text \<open>The invariant of the states.\<close>

fun module_inv :: "env \<Rightarrow> module_state \<Rightarrow> bool" where
  "module_inv E (Unloaded s) = (s = start_state)"
| "module_inv E (Loaded s) =
     (fresh_ok s \<and> table_ok (configured E) s \<and> link_run Closed (trace s) = Some Closed)"
| "module_inv E (Refused s) = (link_run Closed (trace s) = Some Closed)"
| "module_inv E (Finished s) = (link_run Closed (trace s) = Some Closed)"
| "module_inv E (Broken e) = True"

lemma module_inv_item:
  assumes E: "world_ok E" and inv: "module_inv E (Loaded s)" and req: "request_ok request"
    and run: "run_item E request (s\<lparr>answer := no_answer\<rparr>) = Inr (ret, t)"
  shows "module_inv E (Loaded t)"
proof -
  let ?s = "s\<lparr>answer := no_answer\<rparr>"
  have ok: "call_ok E request ?s" and table: "table_ok (configured E) ?s"
    and link: "link_run Closed (trace ?s) = Some Closed"
    using E inv req by (simp_all add: call_ok_def world_ok_def table_ok_def fresh_ok_def)
  have E': "zabbix_ok E" "length (ZABBIX_VERSION E) < 1000" using E by (simp_all add: world_ok_def)
  show ?thesis
    using E' ok table run
  proof (cases rule: run_item_cases)
    case 1
    then show ?thesis using inv by (simp add: fresh_ok_def table_ok_def)
  next
    case (2 f)
    have "talks (plan_sends (item_plan f (configured E) E request)) (view_of ?s) (view_of t)"
      by (rule run_item_talks [OF E' ok table run 2(1)])
    then have "link_run Closed (trace t) = Some Closed"
      using link by (auto simp: talks_def view_of_def link_run_append)
    then show ?thesis using 2(4) table by (simp add: framed_def table_ok_def)
  qed
qed

lemma module_inv_step:
  assumes E: "world_ok E"
  shows "module_step E l m m' \<Longrightarrow> module_inv E m \<Longrightarrow> module_inv E m'"
proof (induction rule: module_step.induct)
  case (start_ok s t)
  then have s: "s = start_state" by simp
  have st: "starts s t" by (rule config.keepsD [OF module_init_starts start_ok.hyps])
  have "init_config E (s\<lparr>trace := trace s @ greeting E\<rparr>) = Inr (ZBX_MODULE_OK, t)"
    using start_ok.hyps by (simp add: zbx_module_init_run split: if_splits)
  then have "table_ok (configured E) t"
    by (rule init_config_loaded [OF E, rotated]) (simp add: s)
  moreover have "fresh_ok t" using st s by (simp add: starts_def fresh_ok_def start_state_def)
  moreover have "link_run Closed (trace t) = Some Closed"
    by (rule start_link [OF st]) (simp add: s start_state_def)
  ultimately show ?case by simp
next
  case (start_fail s t)
  have "starts s t" by (rule config.keepsD [OF module_init_starts start_fail.hyps])
  then show ?case using start_fail.prems start_link by (simp add: start_state_def)
next
  case (item request s ret t)
  then show ?case using module_inv_item [OF E] by blast
next
  case (stop s x t)
  then show ?case by (auto simp: zbx_module_uninit_def uninit_config_def cmd_simps)
qed simp_all

lemma reachable_inv:
  assumes "world_ok E"
  shows "reachable E l m \<Longrightarrow> module_inv E m"
proof (induction rule: reachable.induct)
  case reachable_start
  show ?case by simp
next
  case (reachable_step m m')
  then show ?case using module_inv_step [OF assms] by blast
qed

section \<open>Where a run may break\<close>

lemma read_config_defined:
  assumes "world_ok E"
  shows "\<exists>x t. read_config E (Some path) s = Inr (x, t)"
proof (cases "config_read_file E path")
  case (Inl e)
  then show ?thesis
    by (cases e) (simp add: read_config_def seq_c_run cmd_simps zabbix_log_run)
next
  case (Inr cfg)
  then have "libconfig_ok cfg" using assms by (auto simp: world_ok_def)
  from read_config_loop_result [OF this, of E s] show ?thesis
    by (auto simp: read_config_def Inr)
qed

lemma init_config_defined:
  assumes "world_ok E" and "config_path E = Some path"
  shows "\<exists>x t. init_config E s = Inr (x, t)"
proof -
  have "getPGCONFIGFILE E u = Inr (Some path, u)" for u
    using assms(2) by (auto simp: config_path_def getPGCONFIGFILE_def cmd_simps split: option.splits if_splits)
  moreover obtain u where "zabbix_log E LOG_LEVEL_INFORMATION ''using module configuration file: %s''
      [AStr (Some path)] s = Inr ((), u)"
    by (simp add: zabbix_log_run)
  moreover obtain x t where "read_config E (Some path) u = Inr (x, t)"
    using read_config_defined [OF assms(1)] by blast
  ultimately show ?thesis
    by (auto simp: init_config_def bind_c_run seq_c_run cmd_simps)
qed

lemma module_init_defined:
  assumes "world_ok E" and "config_path E = Some path"
  shows "\<exists>x t. zbx_module_init E l s = Inr (x, t)"
  using init_config_defined [OF assms] by (simp add: zbx_module_init_run)

text \<open>With a benign server, an item is undefined only when the names of an index discovery overflow.\<close>

lemma run_item_defined:
  assumes E: "zabbix_ok E" "benign E" "length (ZABBIX_VERSION E) < 1000"
    and ok: "call_ok E request s" "table_ok named s"
    and fits: "item_function_of (req_key request) = Some F_PG_INDEX_DISCOVERY \<Longrightarrow>
      length (index_text request) < MAX_STRING_LEN E"
  shows "\<exists>ret t. run_item E request s = Inr (ret, t)"
proof (cases "item_function_of (req_key request)")
  case None
  then show ?thesis by (simp add: run_item_def cmd_simps)
next
  case (Some f)
  have "item_fits f E request"
    using E(3) fits Some by (simp add: item_fits_def)
  then have "refines {} id (run_item E request) (run_plan E request RESULT (item_plan f named E request)) s"
    using run_item_refines_plan [OF E(1)] ok Some by blast
  moreover obtain x where "run_plan E request RESULT (item_plan f named E request) (view_of s) = Inr x"
    using plan_delivers_run [OF E(2) item_plan_delivers] unfolding delivers_def by fast
  ultimately show ?thesis by (auto simp: refines_def split: sum.splits)
qed

lemma item_ready:
  assumes "world_ok E" and "module_inv E (Loaded s)" and "request_ok request"
  shows "call_ok E request (s\<lparr>answer := no_answer\<rparr>)" "table_ok (configured E) (s\<lparr>answer := no_answer\<rparr>)"
  using assms by (simp_all add: call_ok_def world_ok_def table_ok_def fresh_ok_def)

lemma run_item_complete:
  assumes "zabbix_ok E" "length (ZABBIX_VERSION E) < 1000" "call_ok E request s" "table_ok named s"
    and "answer s = no_answer" and "run_item E request s = Inr (ret, t)"
  shows "if ret = SYSINFO_RET_OK then one_value (answer t) \<and> res_msg (answer t) = None
    else no_value (answer t)"
  using assms(1-4,6)
proof (cases rule: run_item_cases)
  case 1
  then show ?thesis
    using assms(5,6) no_value_none by (auto simp: run_item_def cmd_simps)
next
  case (2 f)
  then show ?thesis
    using answersD [OF plan_answers_run [OF item_plan_answers] 2(3)] assms(5)
    by (simp add: view_of_def split: if_splits)
qed

end
