(* ===== verification/Tidy.thy ===== *)
theory Tidy
  imports ItemPlans
begin

text \<open>
  What the item functions leave in the store. A command is tidy when, if it succeeds, the store is
  the one before without the objects handed over to it: every string, array, connection, result and
  document made on the way has been released. The functions that ask the server are tidy, and so is
  every item function built from them. Two functions make copies of cells of their own; what they leave
  behind are strings and nothing else.
\<close>

section \<open>Tidy commands\<close>

definition tidy :: "nat set \<Rightarrow> sysinfo_ret mcmd \<Rightarrow> cstate \<Rightarrow> bool" where
  "tidy F m s \<longleftrightarrow> (\<forall>t. m s = Inr (SYSINFO_RET_OK, t) \<longrightarrow> store t = store s |` (- F))"

named_theorems tidy_rules

lemma restrict_all [simp]: "m |` UNIV = m"
  by (simp add: restrict_map_def)

lemma tidyI: "(\<And>t. m s = Inr (SYSINFO_RET_OK, t) \<Longrightarrow> store t = store s |` (- F)) \<Longrightarrow> tidy F m s"
  unfolding tidy_def by blast

lemma tidyD: "tidy F m s \<Longrightarrow> m s = Inr (SYSINFO_RET_OK, t) \<Longrightarrow> store t = store s |` (- F)"
  unfolding tidy_def by blast

lemma tidy_fail [tidy_rules]: "tidy F (return_c SYSINFO_RET_FAIL) s"
  by (rule tidyI) (simp add: cmd_simps)

lemma tidy_reject [tidy_rules]: "tidy F (reject E result fmt args) s"
  by (rule tidyI) (auto simp: reject_def seq_c_eq_Inr cmd_simps)

lemma tidy_if [tidy_rules]:
  "(b \<Longrightarrow> tidy F m s) \<Longrightarrow> (\<not> b \<Longrightarrow> tidy F n s) \<Longrightarrow> tidy F (if b then m else n) s"
  by simp

lemma tidy_lift [tidy_rules]:
  "(\<And>x. r = Inr x \<Longrightarrow> tidy F (f x) s) \<Longrightarrow> tidy F (bind_c (lift_c r) f) s"
  by (cases r) (auto simp: cmd_simps bind_c_run intro: tidyI)

text \<open>A command that leaves the store alone may come before, and one after.\<close>

definition same_store :: "'a mcmd \<Rightarrow> cstate \<Rightarrow> bool" where
  "same_store m s \<longleftrightarrow> (\<forall>x t. m s = Inr (x, t) \<longrightarrow> store t = store s \<and> fresh_ok t)"

lemma tidy_after:
  assumes "same_store m s" and "\<And>x t. store t = store s \<Longrightarrow> fresh_ok t \<Longrightarrow> tidy F (f x) t"
  shows "tidy F (bind_c m f) s"
proof (rule tidyI)
  fix u
  assume "bind_c m f s = Inr (SYSINFO_RET_OK, u)"
  then obtain x t where m: "m s = Inr (x, t)" and f: "f x t = Inr (SYSINFO_RET_OK, u)"
    by (auto simp: bind_c_eq_Inr)
  then have "store t = store s" "fresh_ok t" using assms(1) unfolding same_store_def by blast+
  then show "store u = store s |` (- F)" using tidyD [OF assms(2) f] by simp
qed

lemma tidy_traced:
  assumes "c_format fmt args = Inr name" and "\<And>ms. tidy F m (noted E ms s)"
  shows "tidy F (traced E fmt args m) s"
proof (rule tidyI)
  fix u
  assume "traced E fmt args m s = Inr (SYSINFO_RET_OK, u)"
  then obtain t where "m (noted E [''In '' @ name] s) = Inr (SYSINFO_RET_OK, t)"
    and "u = noted E [''End of '' @ name] t"
    by (auto simp: traced_run [OF assms(1)] split: sum.splits)
  then show "store u = store s |` (- F)" using tidyD [OF assms(2)] by fastforce
qed

lemma tidy_name [tidy_rules]:
  "(\<And>ms. tidy F m (noted E ms s)) \<Longrightarrow> tidy F (traced E ''%s()'' [AStr (Some f)] m) s"
  by (rule tidy_traced) simp_all

section \<open>The functions that ask the server\<close>

lemma call_ok_store: "call_ok E request s \<Longrightarrow> fresh_ok t \<Longrightarrow> call_ok E request t"
  by (simp add: call_ok_def)

lemma params_at_store: "params_at s p xs F \<Longrightarrow> store t = store s \<Longrightarrow> params_at t p xs F"
  by (rule params_at_frame) simp_all

lemma scalar_store:
  assumes "call_ok E request s" and "params_at s params xs F"
    and run: "pg_scalar E request result query params buffer n s = Inr ((ret, v), t)"
  shows "fresh_ok t \<and> (ret = SYSINFO_RET_OK \<longrightarrow> store t = store s |` (- F)) \<and>
    (F = {} \<longrightarrow> store t = store s)"
proof -
  have fresh: "fresh_ok s" and req: "request_ok request" using call_okD [OF assms(1)] by auto
  have kept: "fresh_ok (noted E ms (served s G k es a))"
    "store (noted E ms (served s G k es a)) = store s |` (- G)" if "next_id s \<le> k" for k ms G es a
    using fresh that by (auto simp: served_def fresh_ok_def restrict_map_def)
  consider (fault) e where "pg_scalar E request result query params buffer n s = Inl e"
    | (refused) ms es a where "ret = SYSINFO_RET_FAIL"
        "t = noted E ms (served s {} (Suc (Suc (next_id s))) es a)"
    | (served) ms k es a where "next_id s \<le> k" "t = noted E ms (served s F k es a)"
  proof (cases "PQstatus (request_conn E request s) = CONNECTION_OK")
    case False
    show ?thesis
    proof (cases "c_format (PQerrorMessage (request_conn E request s)) []")
      case (Inl e)
      show ?thesis by (rule that(1)) (rule pg_scalar_bad_message [OF req False Inl])
    next
      case (Inr msg)
      note trans [OF run [symmetric] pg_scalar_refused [OF fresh req False Inr]]
      then show ?thesis by (intro that(2)) (simp_all only: sum.inject prod.inject)
    qed
  next
    case True
    obtain k where k: "next_id s \<le> k" and code: "pg_scalar E request result query params buffer n s =
      (case scalar_reply query (result_view (request_result E request s query xs)) of
         Inl msg \<Rightarrow> Inr ((SYSINFO_RET_FAIL, buffer), noted E (scalar_notes request query xs)
           (served s F k ([EConnect (request_connstring request), EExec query xs] @ err_log E msg @ [EFinish])
             (set_msg result (err_text E msg) (answer s))))
       | Inr None \<Rightarrow> Inl Null_deref
       | Inr (Some v) \<Rightarrow> Inr ((SYSINFO_RET_OK, zbx_strlcpy E n v), noted E (scalar_notes request query xs)
           (served s F k [EConnect (request_connstring request), EExec query xs, EFinish] (answer s))))"
      using pg_scalar_served [OF fresh req assms(2) True refl] by blast
    note run = trans [OF run [symmetric] code]
    show ?thesis
    proof (cases "scalar_reply query (result_view (request_result E request s query xs))")
      case (Inl msg)
      show ?thesis by (rule that(3) [OF k]) (use run in \<open>simp only: Inl sum.case sum.inject prod.inject\<close>)
    next
      case (Inr c)
      show ?thesis
        by (cases c; rule that(3) [OF k])
          (use run in \<open>simp_all only: Inr sum.case option.case sum.inject prod.inject sum.distinct\<close>)
    qed
  qed
  then show ?thesis
  proof cases
    case fault
    then show ?thesis using run by simp
  next
    case (refused ms es a)
    show ?thesis using kept [of "Suc (Suc (next_id s))" ms "{}" es a] refused by simp
  next
    case (served ms k es a)
    show ?thesis using kept [OF served(1), of ms F es a] by (auto simp: served(2))
  qed
qed

lemma lift_c_eq_Inr: "lift_c r s = Inr (x, t) \<longleftrightarrow> r = Inr x \<and> t = s"
  by (cases r) (auto simp: cmd_simps)

lemma tidy_scalar:
  assumes "call_ok E request s" and "params_at s params xs F"
    and h: "\<And>v t u. h v t = Inr (SYSINFO_RET_OK, u) \<Longrightarrow> store u = store t"
  shows "tidy F (bind_c (pg_scalar E request result query params buffer n) (\<lambda>(ret, value).
      if ret = SYSINFO_RET_FAIL then return_c SYSINFO_RET_FAIL else h value)) s"
proof (rule tidyI)
  fix u
  assume "bind_c (pg_scalar E request result query params buffer n) (\<lambda>(ret, value).
      if ret = SYSINFO_RET_FAIL then return_c SYSINFO_RET_FAIL else h value) s = Inr (SYSINFO_RET_OK, u)"
  then obtain ret v t where run: "pg_scalar E request result query params buffer n s = Inr ((ret, v), t)"
    and ret: "ret \<noteq> SYSINFO_RET_FAIL" and u: "h v t = Inr (SYSINFO_RET_OK, u)"
    by (auto simp: bind_c_eq_Inr cmd_simps split: if_splits)
  from ret have "ret = SYSINFO_RET_OK" by (cases ret) simp_all
  with scalar_store [OF assms(1,2) run] show "store u = store s |` (- F)" by (simp add: h [OF u])
qed

lemma tidy_value [tidy_rules]:
  assumes "call_ok E request s" and "params_at s params xs F"
  shows "tidy F (pg_get_result E request result type query params) s"
  unfolding pg_get_result_def
proof (rule tidy_traced, simp, rule tidy_scalar, goal_cases)
  case (3 ms v t u)
  then show ?case
    by (cases type) (auto simp: bind_c_eq_Inr seq_c_eq_Inr cmd_simps lift_c_eq_Inr SET_STR_RESULT_def
        SET_UI64_RESULT_def SET_DBL_RESULT_def)
qed (use assms in simp_all)

lemma tidy_discovery [tidy_rules]:
  assumes "call_ok E request s" and p: "params_at s params xs F"
  shows "tidy F (pg_get_discovery E request result query params) s"
proof (rule tidyI)
  fix t
  assume run: "pg_get_discovery E request result query params s = Inr (SYSINFO_RET_OK, t)"
  have fresh: "fresh_ok s" and req: "request_ok request" and server: "server_ok E"
    using call_okD [OF assms(1)] by auto
  show "store t = store s |` (- F)"
  proof (cases "PQstatus (request_conn E request s) = CONNECTION_OK")
    case True
    let ?r = "result_view (request_result E request s query xs)"
    have "good_result ?r" unfolding request_result_def by (rule good_result_view [OF server])
    then have "named_columns ?r" by (simp add: good_result_def)
    from pg_get_discovery_served [OF fresh req p True refl this, of result] run show ?thesis
      by (auto simp: served_def split: if_splits)
  next
    case False
    let ?s = "noted E [''In '' @ keyed ''pg_get_discovery'' request] s"
    have st: "PQstatus (request_conn E request ?s) \<noteq> CONNECTION_OK" using False by simp
    have "pg_get_discovery E request result query params s \<noteq> Inr (SYSINFO_RET_OK, t)"
    proof (cases "c_format (PQerrorMessage (request_conn E request ?s)) []")
      case (Inl e)
      then show ?thesis
        using session_bad_message [OF req st Inl, of result query params SYSINFO_RET_FAIL "discovery_body E result"]
        by (simp add: pg_get_discovery_session keyed_def cmd_simps)
    next
      case (Inr msg)
      have "fresh_ok ?s" using fresh by simp
      from session_refused [OF this req st Inr, of result query params SYSINFO_RET_FAIL "discovery_body E result"]
      show ?thesis by (simp add: pg_get_discovery_session keyed_def cmd_simps)
    qed
    then show ?thesis using run by simp
  qed
qed

lemma version_same:
  assumes "call_ok E request s"
  shows "same_store (int_version E request result) s"
  unfolding same_store_def
proof (intro allI impI)
  fix x t
  let ?s = "noted E [''In pg_version''] s"
  assume "int_version E request result s = Inr (x, t)"
  then obtain ret v u where run: "pg_scalar E request result VERSION_QUERY None [] (MAX_STRING_LEN E) ?s
      = Inr ((ret, v), u)" and t: "store t = store u" "fresh_ok t = fresh_ok u"
    by (auto simp: int_version_def pg_version_def bind_c_eq_Inr seq_c_eq_Inr cmd_simps lift_c_eq_Inr
        split: if_splits sum.splits)
  have "call_ok E request ?s" using assms by simp
  from scalar_store [OF this params_at_None run] show "store t = store s \<and> fresh_ok t" by (simp add: t)
qed

lemma tidy_version [tidy_rules]:
  assumes "call_ok E request s" and "\<And>v t. call_ok E request t \<Longrightarrow> store t = store s \<Longrightarrow> tidy F (f v) t"
  shows "tidy F (bind_c (int_version E request result) f) s"
  by (rule tidy_after [OF version_same [OF assms(1)]])
    (use assms(2) call_ok_store [OF assms(1)] in blast)

section \<open>Parameter arrays\<close>

lemma tidy_built:
  assumes run: "m s = Inr (p, t)" and only: "store t |` (- F) = store s" and f: "tidy F (f p) t"
  shows "tidy {} (bind_c m f) s"
proof (rule tidyI)
  fix u
  assume "bind_c m f s = Inr (SYSINFO_RET_OK, u)"
  then have "f p t = Inr (SYSINFO_RET_OK, u)" using run by (simp add: bind_c_run)
  from tidyD [OF f this] show "store u = store s |` (- {})" by (simp add: only)
qed

lemma only_store_rest: "only_store {} s F t \<Longrightarrow> store t |` (- F) = store s"
  by (simp only: only_store_def Compl_empty_eq restrict_all)

lemma tidy_param [tidy_rules]:
  assumes ok: "call_ok E request s"
    and f: "\<And>p F t. call_ok E request t \<Longrightarrow> params_at t p (given v) F \<Longrightarrow> tidy F (f p) t"
  shows "tidy {} (bind_c (param_new v) f) s"
proof -
  have fresh: "fresh_ok s" using call_okD [OF ok] by simp
  obtain p t F where run: "param_append None v s = Inr (p, t)"
    and at: "params_at t p ([] @ given v) F" and only: "only_store {} s F t"
    using param_append_run [OF fresh params_at_None] by blast
  have "call_ok E request t" by (rule call_ok_store [OF ok]) (use only in \<open>simp add: only_store_def\<close>)
  from f [OF this] at show ?thesis
    using run only_store_rest [OF only] by (intro tidy_built [where F = F]) (simp_all add: param_new_def)
qed

lemma tidy_value_none [tidy_rules]:
  "call_ok E request s \<Longrightarrow> tidy {} (pg_get_result E request result type query None) s"
  by (rule tidy_value [OF _ params_at_None])

lemma tidy_discovery_none [tidy_rules]:
  "call_ok E request s \<Longrightarrow> tidy {} (pg_get_discovery E request result query None) s"
  by (rule tidy_discovery [OF _ params_at_None])

lemma tidy_percentage [tidy_rules]:
  assumes "call_ok E request s"
  shows "tidy {} (pg_get_percentage E request result table col1 col2 col v) s"
  unfolding pg_get_percentage_def
  by (rule tidy_traced, simp, rule tidy_lift, rule tidy_param) (use assms in \<open>auto intro: tidy_value\<close>)

section \<open>Discovery in all databases\<close>

lemma databases_store:
  assumes fresh: "fresh_ok s" and ok: "request_ok request" and server: "server_ok E"
    and run: "pg_get_databases E request result s = Inr (Some d, t)"
  shows "\<exists>names. fresh_ok t \<and> next_id s \<le> d \<and> d < next_id t \<and> length (multi_bytes names) < 2 ^ 29 \<and>
    store t = (store s)(d \<mapsto> Bytes (multi_bytes names))"
proof -
  have view: "\<exists>names v. sp_databases E request result (view_of s) = Inr (Some names, v)"
    using databases_run [OF fresh ok server, of result] run by (auto split: sum.splits option.splits)
  have acc: "PQstatus (request_conn E request s) = CONNECTION_OK"
  proof (rule ccontr)
    assume bad: "PQstatus (request_conn E request s) \<noteq> CONNECTION_OK"
    show False
      using view by (cases "c_format (PQerrorMessage (request_conn E request s)) []")
        (simp_all add: sp_databases_def view_of_def request_conn_def
          sp_session_refused [OF bad [unfolded request_conn_def]])
  qed
  let ?r = "result_view (request_result E request s DATABASES_QUERY [])"
  have r: "result_view (PQexecParams E (trace s @ [EConnect (request_connstring request)])
      (PQconnectdb E (trace s) (request_connstring request)) DATABASES_QUERY []) = ?r"
    by (simp add: request_result_def request_conn_def)
  have rows: "PQntuples ?r \<noteq> 0"
    using view by (auto simp: sp_databases_def view_of_def r sp_runs
        sp_session_accepted [OF acc [unfolded request_conn_def]] split: if_splits)
  obtain names where names: "first_column ?r names"
    unfolding request_result_def using databases_view [OF server] by blast
  then have "length (multi_bytes names) < 2 ^ 29" by (simp only: first_column_def)
  with pg_get_databases_served [where result = result, OF fresh ok acc refl rows names] run fresh
  show ?thesis by (auto simp: fresh_ok_def intro!: exI [of _ names])
qed

lemma wide_round_store:
  assumes fresh: "fresh_ok s" and ok: "request_ok request" and server: "server_ok E" and db: "name_ok db"
    and j: "store s j = Some (Json ops)"
    and run: "wide_round E request result query None j db s = Inr (None, t)"
  shows "\<exists>ops'. fresh_ok t \<and> store t = (store s)(j \<mapsto> Json ops')"
proof (cases "PQstatus (db_conn E request (trace s) db) = CONNECTION_OK")
  case False
  from wide_round_refused [OF fresh ok db this, of result query None j] run show ?thesis
    by (cases "c_format (PQerrorMessage (db_conn E request (trace s) db)) []") simp_all
next
  case acc: True
  let ?r = "db_result E request query (trace s) db"
  have "good_result ?r" unfolding db_result_def by (rule good_result_view [OF server])
  then have named: "named_columns ?r" by (simp add: good_result_def)
  show ?thesis
  proof (cases "PQresultStatus ?r = PGRES_TUPLES_OK")
    case True
    obtain n where n: "next_id s \<le> n" and code: "wide_round E request result query None j db s =
        Inr (None, noted E (db_notes request query db)
          (doc_state s j (ops @ concat (map object_ops (row_objects E ?r))) n (db_events request query db)))"
      using wide_round_served [OF fresh ok db j acc refl True named] by blast
    have "fresh_ok (doc_state s j ops' n es)" for ops' es
      by (rule fresh_doc_state [OF fresh _ n]) (simp add: j)
    then show ?thesis using run code by (auto simp: doc_state_def)
  next
    case False
    have "result_view (PQexecParams E (trace s @ [EConnect (db_connstring request db)])
        (db_conn E request (trace s) db) query []) = ?r" by (simp add: db_result_def)
    from wide_round_failed [where result = result and j = j, OF fresh ok db acc refl this False] run
    show ?thesis by auto
  qed
qed

lemma no_pair: "(\<forall>x y. p \<noteq> Some (x, y)) \<longleftrightarrow> p = None"
  by (cases p) auto

lemma fetch_bytes_same: "fetch_bytes d s = Inr (b, t) \<Longrightarrow> t = s"
  by (auto simp: fetch_bytes_def fetch_def bind_c_eq_Inr cmd_simps split: option.splits obj.splits)

lemma c_str_name:
  assumes "c_str b k = Inr x" and "length b < 2 ^ 29"
  shows "name_ok x"
proof -
  have x: "x = takeWhile (\<lambda>c. c \<noteq> NUL) (drop k b)" using assms(1) by (simp add: c_str_def split: if_splits)
  have "length x \<le> length (drop k b)" unfolding x by (rule length_takeWhile_le)
  then have "length x \<le> length b" by simp
  moreover have "cstring x" by (auto simp: x cstring_def dest: set_takeWhileD)
  ultimately show ?thesis using assms(2) by (simp add: name_ok_def)
qed

lemma wide_loop_store:
  assumes ok: "request_ok request" and server: "server_ok E" and size: "length b < 2 ^ 29"
  shows "wide_loop E request result query None j b k s = Inr (None, t) \<Longrightarrow> fresh_ok s \<Longrightarrow>
    store s j = Some (Json ops) \<Longrightarrow> \<exists>ops'. fresh_ok t \<and> store t = (store s)(j \<mapsto> Json ops')"
proof (induction "length b - k" arbitrary: k s ops rule: less_induct)
  case less
  show ?case
  proof (cases "k < length b \<and> b ! k \<noteq> NUL")
    case False
    then have "t = s" using less.prems(1) by (subst (asm) wide_loop.simps) (auto simp: cmd_simps split: if_splits)
    then show ?thesis using less.prems(2,3) by (auto intro!: exI [of _ ops] simp: fun_upd_idem)
  next
    case True
    then obtain db u where db: "c_str b k = Inr db"
      and round: "wide_round E request result query None j db s = Inr (None, u)"
      and rest: "wide_loop E request result query None j b (k + length db + 1) u = Inr (None, t)"
      using less.prems(1) [unfolded wide_loop.simps [of _ _ _ _ _ _ b k]]
      by (auto simp: bind_c_eq_Inr lift_c_eq_Inr cmd_simps no_pair split: option.splits)
    obtain ops' where u: "fresh_ok u" "store u = (store s)(j \<mapsto> Json ops')"
      using wide_round_store [OF less.prems(2) ok server c_str_name [OF db size] less.prems(3) round] by blast
    have "length b - (k + length db + 1) < length b - k" using True by linarith
    from less.hyps [OF this rest u(1), of ops'] u(2) show ?thesis by auto
  qed
qed

lemma tidy_wide [tidy_rules]:
  assumes "call_ok E request s"
  shows "tidy {} (pg_get_discovery_wide E request result query None) s"
  unfolding pg_get_discovery_wide_main
proof (rule tidy_traced, simp, rule tidyI)
  fix ms t
  let ?s = "noted E ms s"
  have fresh: "fresh_ok ?s" and ok: "request_ok request" and server: "server_ok E"
    using call_okD [OF assms] by auto
  assume "wide_main E request result query None ?s = Inr (SYSINFO_RET_OK, t)"
  then obtain d u j v w b w' x where dbs: "pg_get_databases E request result ?s = Inr (Some d, u)"
    and init: "zbx_json_init u = Inr (j, v)"
    and array: "zbx_json_add j (J_addarray ZBX_PROTO_TAG_DATA) v = Inr ((), w)"
    and b: "fetch_bytes d w = Inr (b, w')"
    and loop': "wide_loop E request result query None j b 0 w' = Inr (None, x)"
    and fin: "seq_c (finish_json E j) (seq_c (zbx_free (Some d)) (return_c SYSINFO_RET_OK)) x
      = Inr (SYSINFO_RET_OK, t)"
    by (auto simp: wide_main_def wide_exit_def bind_c_eq_Inr seq_c_eq_Inr cmd_simps no_pair
        split: option.splits)
  obtain names where u: "fresh_ok u" "next_id ?s \<le> d" "d < next_id u" and size: "length (multi_bytes names) < 2 ^ 29"
    and ud: "store u = (store ?s)(d \<mapsto> Bytes (multi_bytes names))"
    using databases_store [OF fresh ok server dbs] by blast
  have j: "j = next_id u" and v: "v = u\<lparr>store := (store u)(j \<mapsto> Json []), next_id := Suc j\<rparr>"
    using init by (auto simp: zbx_json_init_def alloc_def)
  have w: "w = v\<lparr>store := (store v)(j \<mapsto> Json [J_addarray ZBX_PROTO_TAG_DATA])\<rparr>"
    using array by (simp add: v zbx_json_add_def fetch_json_def fetch_def update_def bind_c_run cmd_simps)
  have "fetch_bytes d w = Inr (multi_bytes names, w)"
    using u(3) by (simp add: w v j ud fetch_bytes_def fetch_def bind_c_run cmd_simps)
  then have loop: "wide_loop E request result query None j (multi_bytes names) 0 w = Inr (None, x)"
    using loop' b by simp
  have "fresh_ok w" using u(1) by (auto simp: w v j fresh_ok_def)
  from wide_loop_store [OF ok server size loop this, of "[J_addarray ZBX_PROTO_TAG_DATA]"]
  obtain ops where x: "store x = (store u)(j \<mapsto> Json ops)" by (auto simp: w v)
  have "store s d = None" "store s j = None" using fresh u(2,3) by (auto simp: fresh_ok_def j)
  moreover have "store t = (store u)(j := None, d := None)"
    using fin finish_json_run [of x j ops E] u(3) ud
    by (auto simp: seq_c_run cmd_simps zbx_free_def release_def x j split: option.splits if_splits)
  ultimately show "store t = store ?s |` (- {})"
    by (auto simp: ud fun_eq_iff)
qed

section \<open>Other commands of the item functions\<close>

lemma debug_store:
  assumes "zabbix_log E LOG_LEVEL_DEBUG fmt args s = Inr (x, t)"
  shows "\<exists>ms. t = noted E ms s"
proof (cases "c_format fmt args")
  case (Inl e)
  then have "t = noted E [] s" using assms by (auto simp: cmd_simps split: if_splits)
  then show ?thesis ..
next
  case (Inr msg)
  then have "t = noted E [msg] s" using assms by (simp add: cmd_simps)
  then show ?thesis ..
qed

lemma tidy_debug [tidy_rules]:
  assumes "\<And>ms. tidy F m (noted E ms s)"
  shows "tidy F (seq_c (zabbix_log E LOG_LEVEL_DEBUG fmt args) m) s"
proof (rule tidyI)
  fix u
  assume "seq_c (zabbix_log E LOG_LEVEL_DEBUG fmt args) m s = Inr (SYSINFO_RET_OK, u)"
  then obtain ms where "m (noted E ms s) = Inr (SYSINFO_RET_OK, u)"
    by (auto simp: seq_c_eq_Inr dest!: debug_store)
  from tidyD [OF assms this] show "store u = store s |` (- F)" by simp
qed

lemma bind_c_seq: "bind_c (seq_c m n) f = seq_c m (bind_c n f)"
  by (simp add: seq_c_def bind_c_assoc)

lemma tidy_case [tidy_rules]:
  "(x = None \<Longrightarrow> tidy F m s) \<Longrightarrow> (\<And>y. x = Some y \<Longrightarrow> tidy F (f y) s) \<Longrightarrow>
    tidy F (case x of None \<Rightarrow> m | Some y \<Rightarrow> f y) s"
  by (cases x) simp_all

lemma tidy_case_bind [tidy_rules]:
  "(x = None \<Longrightarrow> tidy F (bind_c m h) s) \<Longrightarrow> (\<And>y. x = Some y \<Longrightarrow> tidy F (bind_c (f y) h) s) \<Longrightarrow>
    tidy F (bind_c (case x of None \<Rightarrow> m | Some y \<Rightarrow> f y) h) s"
  by (cases x) simp_all

lemma tidy_same: "m s = n s \<Longrightarrow> tidy F n s \<Longrightarrow> tidy F m s"
  unfolding tidy_def by (simp only:)

lemma tidy_get [tidy_rules]: "tidy F (f (g s)) s \<Longrightarrow> tidy F (bind_c (get_c g) f) s"
  by (erule tidy_same [rotated]) (simp add: bind_c_run get_c_def)

lemma tidy_answer [tidy_rules]:
  "tidy {} (seq_c (SET_STR_RESULT v) (return_c SYSINFO_RET_OK)) s"
  by (rule tidyI) (auto simp: SET_STR_RESULT_def seq_c_run cmd_simps)

lemma tidy_leave [tidy_rules]:
  assumes "tidy F m s"
  shows "tidy F (bind_c m (\<lambda>ret. seq_c (zabbix_log E LOG_LEVEL_DEBUG fmt args) (return_c ret))) s"
proof (rule tidyI)
  fix u
  assume "bind_c m (\<lambda>ret. seq_c (zabbix_log E LOG_LEVEL_DEBUG fmt args) (return_c ret)) s
    = Inr (SYSINFO_RET_OK, u)"
  then obtain t ms where "m s = Inr (SYSINFO_RET_OK, t)" and u: "u = noted E ms t"
    by (auto simp: bind_c_eq_Inr seq_c_eq_Inr return_c_def dest!: debug_store)
  from tidyD [OF assms this(1)] show "store u = store s |` (- F)" by (simp add: u)
qed

lemma tidy_params [tidy_rules]:
  assumes ok: "call_ok E request s"
    and f: "\<And>p xs F t. call_ok E request t \<Longrightarrow> params_at t p xs F \<Longrightarrow> tidy F (f p) t"
  shows "tidy {} (bind_c (append_params request) f) s"
proof -
  have "fresh_ok s" using call_okD [OF ok] by simp
  from append_params_run [OF this, of request] obtain p t F where
    run: "append_params request s = Inr (p, t)"
    and at: "params_at t p (query_values_of request) F" and only: "only_store {} s F t" by blast
  have "call_ok E request t" by (rule call_ok_store [OF ok]) (use only in \<open>simp add: only_store_def\<close>)
  from tidy_built [where m = "append_params request" and f = f, OF run only_store_rest [OF only] f [OF this at]]
  show ?thesis .
qed

lemma tidy_clause [tidy_rules]:
  assumes E: "zabbix_ok E" and ok: "call_ok E request s"
    and m: "\<And>v t xs F. call_ok E request t \<Longrightarrow> params_at t (cl_params v) xs F \<Longrightarrow> tidy F (m v) t"
  shows "tidy {} (bind_c
      (build_activity_clause E request result (replicate MAX_CLAUSE_LEN NUL) None 1) (\<lambda>(ok, v).
      if \<not> ok then return_c SYSINFO_RET_FAIL else m v)) s"
    (is "tidy {} (bind_c ?b ?f) s")
proof -
  let ?s = "noted E [''In build_activity_clause()''] s" and ?exit = "[''End of build_activity_clause()'']"
  have req: "request_ok request" and fresh: "fresh_ok ?s" using call_okD [OF ok] by auto
  let ?v = "\<lparr>cl_array = replicate MAX_CLAUSE_LEN NUL, cl_buf = 0, cl_clause = PG_AND,
    cl_pgi = 0, cl_params = None\<rparr>" and ?fs = "activity_filters request"
  let ?l = "activity_loop E request result [0, 1, 2, 3] ?v"
  have inv: "clause_inv ?v ?s [] PG_AND [] {}"
    using fresh by (simp add: clause_inv_def clause_start params_at_None PG_AND_def)
  have room: "length [] + 40 * length [0, 1, 2, 3 :: nat] < MAX_CLAUSE_LEN"
    by (simp add: MAX_CLAUSE_LEN_def)
  note loop = activity_loop_run [OF E req inv room, of result, folded activity_filters_def]
  have b: "?b s = (case ?l ?s of
      Inl e \<Rightarrow> Inl e
    | Inr ((ok, v), t) \<Rightarrow> Inr ((ok, v), if ok then noted E ?exit t else t))"
    by (simp add: build_activity_clause_def seq_c_run bind_c_run cmd_simps split: sum.split)
  show ?thesis
  proof (cases "bad_filter ?fs")
    case None
    then obtain v t F c where run: "?l ?s = Inr ((True, v), t)"
      and inv': "clause_inv v t (activity_clause E request) c (bound_values ?fs) F"
      and only: "only_store {} ?s F t"
      using loop by (auto simp: activity_clause_def)
    let ?t = "noted E ?exit t"
    have ok': "call_ok E request ?t" using ok only by (simp add: call_ok_def only_store_def)
    have "params_at ?t (cl_params v) (bound_values ?fs) F" using inv' by (simp add: clause_inv_def)
    from m [OF ok' this] have "tidy F (?f (True, v)) ?t" by simp
    moreover have "?b s = Inr ((True, v), ?t)" unfolding b run by simp
    moreover have "store ?t |` (- F) = store s" using only_store_rest [OF only] by simp
    ultimately show ?thesis by (intro tidy_built [where m = ?b and f = ?f])
  next
    case (Some x)
    then obtain v t where "?l ?s = seq_c (set_err_result E result unsupported_format
        [AStr (Some x), AStr (Some (req_key request))]) (return_c (False, v)) t"
      using loop by auto
    then show ?thesis
      by (intro tidyI) (auto simp: bind_c_run b seq_c_run cmd_simps split: sum.splits)
  qed
qed

text \<open>The test of the connection finishes it itself, and needs no release when it is refused.\<close>

lemma tidy_probe [tidy_rules]:
  assumes "call_ok E request s"
  shows "tidy {} (PG_CONNECT E request result) s"
  unfolding PG_CONNECT_def
proof (rule tidy_name)
  fix ms
  let ?s = "noted E ms s"
  let ?cs = "request_connstring request"
  have fresh: "fresh_ok ?s" and req: "request_ok request" using call_okD [OF assms] by auto
  let ?conn = "PQconnectdb E (trace ?s) ?cs"
  have none: "store s (Suc (next_id s)) = None" using fresh by (simp add: fresh_ok_def)
  show "tidy {} (bind_c (pg_connect_request E request NULL_RESULT) (\<lambda>conn.
       seq_c
         (case conn of
            None \<Rightarrow> SET_UI64_RESULT 0
          | Some a \<Rightarrow>
              bind_c (fetch_conn a) (\<lambda>c.
              if PQstatus c = CONNECTION_OK then
                seq_c (SET_UI64_RESULT 1) (PQfinish conn)
              else SET_UI64_RESULT 0))
       (return_c SYSINFO_RET_OK))) ?s"
  proof (cases "PQstatus ?conn = CONNECTION_OK")
    case True
    from pg_connect_request_accepted [OF fresh req True, of NULL_RESULT] True none show ?thesis
      by (intro tidyI) (auto simp: SET_UI64_RESULT_def PQfinish_def fetch_conn_def
          fetch_def release_def log_event_def bind_c_run seq_c_run cmd_simps fun_upd_idem)
  next
    case False
    show ?thesis
    proof (cases "c_format (PQerrorMessage ?conn) []")
      case (Inl e)
      with pg_connect_request_fault [OF req False, of e NULL_RESULT] show ?thesis
        by (simp add: tidy_def bind_c_run)
    next
      case (Inr msg)
      from pg_connect_request_refused [OF fresh req False Inr, of NULL_RESULT] show ?thesis
        by (intro tidyI) (auto simp: SET_UI64_RESULT_def bind_c_run seq_c_run cmd_simps)
    qed
  qed
qed

section \<open>Functions that keep copies\<close>

text \<open>Nothing is left but strings the command made itself.\<close>

definition copies :: "cstate \<Rightarrow> cstate \<Rightarrow> bool" where
  "copies s t \<longleftrightarrow> (\<forall>a. store t a = store s a \<or> next_id s \<le> a \<and> (\<exists>v. store t a = Some (Str v)))"

lemma counter_copies:
  "fresh_ok s \<Longrightarrow> counter_body E query result r s = Inr (SYSINFO_RET_OK, t) \<Longrightarrow> copies s t"
  by (auto simp: counter_body_def reject_def copies_def bind_c_eq_Inr seq_c_eq_Inr lift_c_eq_Inr
      strdup_def alloc_def fetch_str_def fetch_def SET_UI64_RESULT_def cmd_simps split: if_splits)

lemma setting_copies:
  "fresh_ok s \<Longrightarrow> setting_body E result r s = Inr (SYSINFO_RET_OK, t) \<Longrightarrow> copies s t"
  by (auto simp: setting_body_def reject_def copies_def setting_result_def give_string_def bind_c_eq_Inr
      seq_c_eq_Inr lift_c_eq_Inr strdup_def alloc_def fetch_str_def fetch_def release_def fresh_ok_def
      SET_UI64_RESULT_def SET_DBL_RESULT_def SET_STR_RESULT_def cmd_simps split: if_splits)

lemma use_conn_copies:
  assumes fresh: "fresh_ok u" and c: "store u c = Some (Conn conn)" and p: "params_at u params xs F"
    and body: "\<And>r s t. fresh_ok s \<Longrightarrow> body r s = Inr (x, t) \<Longrightarrow> copies s t"
    and run: "use_conn E c query params body u = Inr (x, t)"
    and a: "store t a \<noteq> (if a = c then None else (store u |` (- F)) a)"
  shows "next_id u \<le> a \<and> (\<exists>v. store t a = Some (Str v))"
proof -
  define ro where "ro = PQexecParams E (trace u) conn query xs"
  define s2 where "s2 = noted E (exec_notes query xs) (exec_state u F query xs ro)"
  let ?res = "map_option (\<lambda>_. next_id u) ro"
  have exec: "pg_exec E c query params u = Inr (?res, s2)"
    using pg_exec_run [OF fresh p c refl, of E query] by (simp add: ro_def s2_def)
  have cF: "c \<notin> F" by (rule params_not_conn [OF p c])
  have fresh2: "fresh_ok s2" and next2: "next_id u \<le> next_id s2"
    using fresh by (auto simp: s2_def exec_state_def fresh_ok_def restrict_map_def Let_def split: option.splits)
  have view: "view_result ?res s2 = Inr (result_view ro, s2)"
    by (cases ro) (auto simp: s2_def view_result_def fetch_res_def fetch_def exec_state_def Let_def
        result_view_def bind_c_run cmd_simps)
  obtain w where w: "body (result_view ro) s2 = Inr (x, w)"
    and rest: "seq_c (PQclear ?res) (seq_c (PQfinish (Some c)) (return_c x)) w = Inr (x, t)"
    using run by (auto simp: use_conn_def exec view bind_c_run bind_c_eq_Inr seq_c_run seq_c_eq_Inr cmd_simps
        split: sum.splits)
  have t: "store t k = (if k = c \<or> ?res = Some k then None else store w k)" for k
    using rest by (cases ro) (auto simp: PQclear_def PQfinish_def release_def fetch_res_def fetch_conn_def fetch_def
        log_event_def bind_c_eq_Inr seq_c_eq_Inr cmd_simps split: option.splits obj.splits if_splits)
  have s2: "store s2 k = (if ?res = Some k then map_option Res ro else (store u |` (- F)) k)" for k
    by (cases ro) (auto simp: s2_def exec_state_def Let_def)
  from body [OF fresh2 w] have "store w a = store s2 a \<or> next_id s2 \<le> a \<and> (\<exists>v. store w a = Some (Str v))"
    unfolding copies_def by blast
  moreover have "(store u |` (- F)) a = None" if "?res = Some a"
    using that fresh by (auto simp: fresh_ok_def restrict_map_def)
  ultimately show ?thesis using a next2 by (auto simp: t s2 split: if_splits)
qed

lemma session_new_copies:
  assumes ok: "call_ok E request s"
    and body: "\<And>r s t. fresh_ok s \<Longrightarrow> body r s = Inr (SYSINFO_RET_OK, t) \<Longrightarrow> copies s t"
    and run: "session_new E request result query v SYSINFO_RET_FAIL body s = Inr (SYSINFO_RET_OK, t)"
  shows "copies s t"
proof -
  have fresh: "fresh_ok s" and req: "request_ok request" using call_okD [OF ok] by auto
  let ?c = "Suc (next_id s)" and ?conn = "PQconnectdb E (trace s) (request_connstring request)"
  have acc: "PQstatus ?conn = CONNECTION_OK"
  proof (rule ccontr)
    assume bad: "PQstatus ?conn \<noteq> CONNECTION_OK"
    show False
    proof (cases "c_format (PQerrorMessage ?conn) []")
      case (Inl e)
      from pg_connect_request_fault [OF req bad Inl, of result] run show False
        by (simp add: session_new_def bind_c_run)
    next
      case (Inr msg)
      from pg_connect_request_refused [OF fresh req bad Inr, of result] run show False
        by (simp add: session_new_def bind_c_run cmd_simps)
    qed
  qed
  define s1 where "s1 = noted E (connect_notes (request_connstring request)) (s\<lparr>store := (store s)(?c \<mapsto> Conn ?conn),
    next_id := Suc ?c, trace := trace s @ [EConnect (request_connstring request)]\<rparr>)"
  have conn: "pg_connect_request E request result s = Inr (Some ?c, s1)"
    using pg_connect_request_accepted [OF fresh req acc] by (simp add: s1_def)
  have fresh1: "fresh_ok s1" using fresh by (auto simp: s1_def fresh_ok_def)
  obtain p u F where new: "param_append None v s1 = Inr (p, u)" and at: "params_at u p ([] @ given v) F"
    and only: "only_store {} s1 F u"
    using param_append_run [OF fresh1 params_at_None] by blast
  have u: "fresh_ok u" "next_id s1 \<le> next_id u" "F \<subseteq> {next_id s1..}" "store u |` (- F) = store s1"
    using only [unfolded only_store_def] only_store_rest [OF only] by simp_all
  have "?c \<notin> F" using u(3) by (auto simp: s1_def)
  with fun_cong [OF u(4), of ?c] have uc: "store u ?c = Some (Conn ?conn)" by (simp add: s1_def)
  have use: "use_conn E ?c query p body u = Inr (SYSINFO_RET_OK, t)"
    using run by (simp add: session_new_def conn new param_new_def bind_c_run)
  note left = use_conn_copies [OF u(1) uc at body use, unfolded u(4)]
  have "next_id s \<le> next_id u" using u(2) by (simp add: s1_def)
  moreover have "(if a = ?c then None else store s1 a) = store s a" for a
    using fresh by (simp add: s1_def fresh_ok_def)
  ultimately show ?thesis using left unfolding copies_def by fastforce
qed

lemma copies_noted [simp]:
  "copies (noted E ms s) t = copies s t" "copies s (noted E ms t) = copies s t"
  by (simp_all add: copies_def)

lemma setting_leaves:
  assumes ok: "call_ok E request s" and run: "PG_SETTING E request result s = Inr (SYSINFO_RET_OK, t)"
  shows "copies s t"
proof -
  let ?s = "noted E [''In PG_SETTING()''] s"
  have ok': "call_ok E request ?s" using ok by simp
  obtain u where call: "setting_call E request result ?s = Inr (SYSINFO_RET_OK, u)"
    and t: "t = noted E [''End of PG_SETTING('' @ req_key request @ '')''] u"
    using run by (auto simp: PG_SETTING_session seq_c_run bind_c_run cmd_simps split: sum.splits)
  have "session_new E request result PGSQL_GET_SETTING (get_rparam request PARAM_FIRST)
      SYSINFO_RET_FAIL (setting_body E result) ?s = Inr (SYSINFO_RET_OK, u)"
    using call by (auto simp: setting_call_def reject_def seq_c_eq_Inr cmd_simps split: if_splits)
  from session_new_copies [OF ok' setting_copies this] show ?thesis by (simp add: t)
qed

lemma index_counter_leaves:
  assumes ok: "call_ok E request s"
    and run: "PG_STAT_ALL_INDEXES E request result s = Inr (SYSINFO_RET_OK, t)"
  shows "copies s t"
proof -
  let ?s = "noted E [''In PG_STAT_ALL_INDEXES()''] s"
  have ok': "call_ok E request ?s" using ok by simp
  have name: "c_format ''%s()'' [AStr (Some ''PG_STAT_ALL_INDEXES'')] = Inr ''PG_STAT_ALL_INDEXES()''"
    by simp
  obtain query u where "session_new E request result query (get_rparam request PARAM_FIRST)
      SYSINFO_RET_FAIL (counter_body E query result) ?s = Inr (SYSINFO_RET_OK, u)"
    and t: "t = noted E [''End of PG_STAT_ALL_INDEXES()''] u"
    using run by (auto simp: PG_STAT_ALL_INDEXES_session traced_run [OF name] bind_c_eq_Inr lift_c_eq_Inr
        split: sum.splits)
  from session_new_copies [OF ok' counter_copies this(1)] show ?thesis by (simp add: t)
qed

section \<open>The item functions\<close>

lemma tidy_modver [tidy_rules]: "tidy {} (MODVER E request result) s"
  unfolding MODVER_def by (rule tidy_traced) (auto intro: tidy_rules)

text \<open>
  Every item function but two is built from these commands alone: the query text is made first, then
  the array of the parameters, which the function that asks the server releases.
\<close>

lemmas tidy_item_defs =
  PG_VERSION_def PG_STARTTIME_def PG_UPTIME_def PG_PREPARED_XACTS_COUNT_def
  PG_PREPARED_XACTS_RATIO_def PG_PREPARED_XACTS_AGE_def PG_SETTING_DISCOVERY_def PG_QUERY_def
  PG_BACKENDS_COUNT_def PG_BACKENDS_FREE_def PG_BACKENDS_RATIO_def PG_QUERIES_LONGEST_def
  PG_STAT_BGWRITER_def PG_BG_AVG_INTERVAL_def PG_BG_TIME_RATIO_def
  PG_BG_STATS_RESET_INTERVAL_def PG_DB_DISCOVERY_def PG_NAMESPACE_DISCOVERY_def
  PG_TABLESPACE_DISCOVERY_def PG_TABLE_DISCOVERY_def PG_TABLE_CHILDREN_DISCOVERY_def
  PG_INDEX_DISCOVERY_def PG_DB_SIZE_def PG_TABLE_SIZE_def PG_TABLE_ROWS_def
  PG_TABLE_CHILDREN_def PG_TABLE_CHILDREN_SIZE_def PG_TABLE_CHILDREN_ROWS_def
  PG_INDEX_SIZE_def PG_INDEX_ROWS_def PG_TABLESPACE_SIZE_def PG_NAMESPACE_SIZE_def
  PG_STAT_DATABASE_def PG_DB_BLKS_RATIO_def PG_DB_XID_AGE_def PG_STAT_ALL_TABLES_def
  PG_TABLE_IDX_SCAN_RATIO_def PG_STATIO_ALL_TABLES_def PG_TABLE_HEAP_BLKS_RATIO_def
  PG_TABLE_IDX_BLKS_RATIO_def PG_TABLE_TOAST_BLKS_RATIO_def PG_TABLE_TIDX_BLKS_RATIO_def
  PG_STATIO_ALL_INDEXES_def PG_INDEX_IDX_BLKS_RATIO_def

lemma tidy_item:
  assumes "zabbix_ok E" and "call_ok E request s" and "f \<noteq> F_PG_SETTING" and "f \<noteq> F_PG_STAT_ALL_INDEXES"
  shows "tidy {} (call_item_function f E request result) s"
  using assms
  by (cases f) (auto simp: tidy_item_defs Let_def bind_c_seq bind_c_return intro!: tidy_rules
      intro: params_at_store)

lemma run_item_leaves:
  assumes "zabbix_ok E" and "call_ok E request s" and "item_function_of (req_key request) = Some f"
    and "run_item E request s = Inr (SYSINFO_RET_OK, t)"
  shows "if f \<in> {F_PG_SETTING, F_PG_STAT_ALL_INDEXES} then copies s t else store t = store s"
proof -
  have run: "call_item_function f E request RESULT s = Inr (SYSINFO_RET_OK, t)"
    using assms(3,4) by (simp add: run_item_def)
  show ?thesis
  proof (cases "f \<in> {F_PG_SETTING, F_PG_STAT_ALL_INDEXES}")
    case True
    then show ?thesis using run setting_leaves [OF assms(2)] index_counter_leaves [OF assms(2)] by auto
  next
    case False
    then have f: "f \<noteq> F_PG_SETTING" "f \<noteq> F_PG_STAT_ALL_INDEXES" by simp_all
    from tidyD [OF tidy_item [OF assms(1,2) f] run] show ?thesis using f by simp
  qed
qed

end
