(* ===== verification/Example.thy ===== *)
theory Example
  imports Items
begin

text \<open>
  Concrete environments, requests and results, on which the theorems of the development are
  applied: an agent with the documented helper functions, a platform that rounds no number it is
  shown, and a server given by its answers to connection strings and query texts.
\<close>

definition text_of_ops :: "json_op list \<Rightarrow> string" where
  "text_of_ops ops = concat (map (\<lambda>op. case op of
       J_addarray t \<Rightarrow> t @ ''[''
     | J_addobject \<Rightarrow> ''{''
     | J_addstring k v \<Rightarrow> k @ ''='' @ (case v of None \<Rightarrow> ''null'' | Some x \<Rightarrow> x) @ '';''
     | J_close \<Rightarrow> ''}'') ops)"

text \<open>The configuration file: a group of two named queries.\<close>

definition demo_config :: config_setting where
  "demo_config =
     Setting '''' CONFIG_TYPE_GROUP ''''
       [Setting ''queries'' CONFIG_TYPE_GROUP ''''
          [Setting ''tables'' CONFIG_TYPE_STRING ''SELECT count(*) FROM pg_tables'' [],
           Setting ''locks'' CONFIG_TYPE_STRING ''SELECT count(*) FROM pg_locks WHERE mode = $1'' []]]"

definition demo_env ::
  "(string \<Rightarrow> pgconn) \<Rightarrow> (string \<Rightarrow> string list \<Rightarrow> pgresult option) \<Rightarrow> env" where
  "demo_env connect exec =
     \<lparr>MAX_STRING_LEN = 2048, ZABBIX_VERSION = ''3.0.4'',
      zbx_snprintf = (\<lambda>n s. take (n - 1) s), zbx_vsnprintf = (\<lambda>n s. take (n - 1) s),
      zbx_strlcpy = (\<lambda>n s. take (n - 1) s), zbx_json_text = text_of_ops,
      inet_pton4 = (\<lambda>s. s = ''127.0.0.1''), inet_pton6 = (\<lambda>s. s = ''::1''),
      round_double = Finite, round_long_double = Finite,
      zabbix_check_log_level = None, zbx_log_level = Some LOG_LEVEL_WARNING,
      getenv_PGCONFIGFILE = None,
      config_read_file = (\<lambda>path. Inr demo_config),
      PQconnectdb = (\<lambda>past. connect), PQexecParams = (\<lambda>past conn. exec)\<rparr>"

text \<open>The table of results: names of the columns and texts of the cells.\<close>

definition rows :: "string list \<Rightarrow> string list list \<Rightarrow> pgresult" where
  "rows names cells =
     \<lparr>PQresultStatus = PGRES_TUPLES_OK, PQresultErrorMessage = [], PQntuples = length cells,
      PQnfields = length names,
      PQfname = (\<lambda>x. if x < length names then Some (names ! x) else None),
      PQgetvalue = (\<lambda>i x. if i < length cells \<and> x < length (cells ! i)
        then Some (cells ! i ! x) else None)\<rparr>"

definition failed_query :: "string \<Rightarrow> pgresult" where
  "failed_query msg = (rows [] [])\<lparr>PQresultStatus := PGRES_FATAL_ERROR, PQresultErrorMessage := msg\<rparr>"

definition accept_conn :: pgconn where
  "accept_conn = \<lparr>PQstatus = CONNECTION_OK, PQerrorMessage = []\<rparr>"

definition refuse_conn :: "string \<Rightarrow> pgconn" where
  "refuse_conn msg = \<lparr>PQstatus = CONNECTION_BAD, PQerrorMessage = msg\<rparr>"

definition demo_request :: "string \<Rightarrow> string list \<Rightarrow> agent_request" where
  "demo_request key params =
     \<lparr>req_key = key, req_nparam = length params,
      get_rparam = (\<lambda>i. if i < length params then Some (params ! i) else None)\<rparr>"

text \<open>A server that accepts every connection and answers each query with one row, of a
  value and a type.\<close>

definition cell_server :: "string \<Rightarrow> env" where
  "cell_server v = demo_env (\<lambda>cs. accept_conn) (\<lambda>query xs. Some (rows [''setting'', ''type''] [[v, ''string'']]))"

definition closed_server :: "string \<Rightarrow> env" where
  "closed_server msg = demo_env (\<lambda>cs. refuse_conn msg) (\<lambda>query xs. None)"

lemma demo_zabbix_ok [simp]: "zabbix_ok (demo_env connect exec)"
  by (simp add: zabbix_ok_def demo_env_def)

lemma demo_quiet [simp]: "\<not> log_enabled (demo_env connect exec) LOG_LEVEL_DEBUG"
  by (simp add: log_enabled_def demo_env_def less_log_level_def)

lemma demo_double_ok [simp]: "double_ok (demo_env connect exec)"
  by (simp add: double_ok_def demo_env_def)

lemma good_rows:
  assumes "\<forall>r \<in> set cells. \<forall>v \<in> set r. cstring v"
  shows "good_result (rows names cells)"
proof -
  have "cstring (cells ! i ! x)" if "i < length cells" "x < length (cells ! i)" for i x
    using assms nth_mem [OF that(1)] nth_mem [OF that(2)] by blast
  then have "\<forall>i x v. PQgetvalue (rows names cells) i x = Some v \<longrightarrow> cstring v"
    by (simp add: rows_def)
  moreover have "named_columns (rows names cells)" by (simp add: named_columns_def rows_def)
  ultimately show ?thesis unfolding good_result_def by blast
qed

lemma first_column_rows:
  assumes "\<forall>r \<in> set cells. \<forall>v \<in> set r. cstring v" and "\<forall>r \<in> set cells. r \<noteq> []"
    and "length (multi_bytes (map hd cells)) < 2 ^ 29"
  shows "first_column (rows names cells) (map hd cells)"
proof -
  have tuples: "PQntuples (rows names cells) = length cells" by (simp add: rows_def)
  have "PQgetvalue (rows names cells) i 0 = Some (map hd cells ! i)" if "i < length cells" for i
  proof -
    have "cells ! i \<noteq> []" using assms(2) nth_mem [OF that] by blast
    then show ?thesis using that by (simp add: rows_def hd_conv_nth)
  qed
  then have "map (\<lambda>i. PQgetvalue (rows names cells) i 0) [0..<length cells] = map Some (map hd cells)"
    by (intro nth_equalityI) simp_all
  moreover have "list_all cstring (map hd cells)"
    using assms by (simp add: list_all_iff)
  ultimately show ?thesis
    unfolding first_column_def tuples using assms(3) by (intro conjI)
qed

lemma good_failed: "good_result (failed_query msg)"
  by (auto simp: good_result_def failed_query_def rows_def named_columns_def)

lemma demo_server_ok:
  "(\<And>query xs r. exec query xs = Some r \<Longrightarrow> good_result r) \<Longrightarrow>
    (\<And>xs r. exec DATABASES_QUERY xs = Some r \<Longrightarrow> \<exists>names. first_column r names) \<Longrightarrow>
    server_ok (demo_env connect exec)"
  by (simp add: server_ok_def demo_env_def)

lemma cell_column:
  "cstring v \<Longrightarrow> length v < 2 ^ 28 \<Longrightarrow> first_column (rows names [[v, ''string'']]) [v]"
  using first_column_rows [of "[[v, ''string'']]" names] by (simp add: multi_bytes_def)

lemma cell_server_ok [simp]:
  "zabbix_ok (cell_server v)" "double_ok (cell_server v)" "cstring v \<Longrightarrow> length v < 2 ^ 28 \<Longrightarrow> server_ok (cell_server v)"
  by (auto simp: cell_server_def intro!: demo_server_ok good_rows exI cell_column)

lemma closed_server_ok [simp]:
  "zabbix_ok (closed_server msg)" "double_ok (closed_server msg)" "server_ok (closed_server msg)"
  by (auto simp: closed_server_def intro!: demo_server_ok)

lemma server_versions [simp]:
  "ZABBIX_VERSION (cell_server v) = ''3.0.4''" "ZABBIX_VERSION (closed_server msg) = ''3.0.4''"
  "MAX_STRING_LEN (cell_server v) = 2048" "MAX_STRING_LEN (closed_server msg) = 2048"
  by (simp_all add: cell_server_def closed_server_def demo_env_def)

lemma demo_request_simps [simp]:
  "req_key (demo_request key params) = key"
  "req_nparam (demo_request key params) = length params"
  "get_rparam (demo_request key params) i = (if i < length params then Some (params ! i) else None)"
  by (simp_all add: demo_request_def)

lemma demo_request_ok:
  "cstring key \<Longrightarrow> \<forall>p \<in> set params. cstring p \<Longrightarrow> \<forall>p \<in> set params. length p < 2 ^ 29 \<Longrightarrow>
    request_ok (demo_request key params)"
  by (auto simp: request_ok_def cstring_ptr_def strlen0_def split: option.split)

lemma start_state_ok [simp]: "fresh_ok start_state"
  by (simp add: fresh_ok_def start_state_def)

lemma empty_table [simp]: "table_ok (\<lambda>k. None) start_state"
  by (simp add: table_ok_def start_state_def get_query_by_name_def search_loop.simps)

lemma demo_call_ok:
  "server_ok E \<Longrightarrow> cstring key \<Longrightarrow> \<forall>p \<in> set params. cstring p \<Longrightarrow> \<forall>p \<in> set params. length p < 2 ^ 29 \<Longrightarrow>
    call_ok E (demo_request key params) start_state"
  by (simp add: call_ok_def demo_request_ok)

text \<open>An item that asks for one value, on this server.\<close>

lemma cell_server_scalar:
  assumes "length v < 2048"
  shows "sp_scalar (cell_server v) request result query xs (past, a)
    = Inr (Some v, (past @ [EConnect (request_connstring request), EExec query xs, EFinish], a))"
proof -
  let ?E = "cell_server v"
  have E: "PQconnectdb ?E past cs = accept_conn" "MAX_STRING_LEN ?E = 2048"
    "zbx_strlcpy ?E 2048 v = v" for past cs
    using assms by (simp_all add: cell_server_def demo_env_def)
  have x: "result_view (PQexecParams ?E past c query xs) = rows [''setting'', ''type''] [[v, ''string'']]" for past c
    by (simp add: cell_server_def demo_env_def result_view_def)
  have "scalar_reply query (rows [''setting'', ''type''] [[v, ''string'']]) = Inr (Some v)"
    by (simp add: scalar_reply_def rows_def)
  then have cell: "sp_cell ?E result query (rows [''setting'', ''type''] [[v, ''string'']]) = return_c (Some v)"
    by (simp add: sp_cell_def E)
  have "PQstatus accept_conn = CONNECTION_OK" by (simp add: accept_conn_def)
  then show ?thesis
    unfolding sp_scalar_def by (subst sp_session_accepted) (simp_all add: E x cell cmd_simps)
qed

lemma cell_server_plan:
  assumes "length v < 2048" and "value_answer (cell_server v) type v = Inr f"
  shows "run_plan (cell_server v) request result (Value type query xs) (past, a)
    = Inr (SYSINFO_RET_OK, (past @ [EConnect (request_connstring request), EExec query xs, EFinish], f a))"
  using cell_server_scalar [OF assms(1)] assms(2) by (simp add: sp_value_def sp_runs)

end
