(* ===== verification/Values.thy ===== *)
theory Values
  imports Example
begin

text \<open>
  What a value of the server becomes on its way to the agent: the facts about \<open>pg_get_result\<close> on
  single requests, its conversions, and its error paths.
\<close>

section \<open>Conversions\<close>

text \<open>
  C36. A decimal number goes through unchanged as far as the type can hold it: the text of \<open>n\<close>, with
  nothing behind it, is converted to \<open>n\<close>, and to the greatest value of 64 bits when \<open>n\<close> is larger.
\<close>

theorem uint_round_trip:
  "\<exists>w. text_to_uint E (show_nat n) = Inr w \<and> unat w = min n (2 ^ 64 - 1)"
proof -
  have "\<not> (1 < length (show_nat n) \<and> show_nat n ! 1 = CHR ''.'')"
  proof
    assume "1 < length (show_nat n) \<and> show_nat n ! 1 = CHR ''.''"
    then have "CHR ''.'' \<in> set (show_nat n)" using nth_mem by metis
    then have "isdigit (CHR ''.'')" using show_nat_digits by blast
    then show False by (simp add: isdigit_def code_def)
  qed
  then have "text_to_uint E (show_nat n) = Inr (strtoull (show_nat n))"
    by (auto simp: text_to_uint_def)
  moreover have "unat (strtoull (show_nat n)) = min n (2 ^ 64 - 1)"
    using strtoull_show_nat [of "[]" n] by (auto simp: unat_of_nat take_bit_nat_eq_self)
  ultimately show ?thesis by blast
qed

text \<open>
  C37. Scientific notation with one digit before the point is read as the number it denotes: when
  that is an integer up to \<open>2^53\<close>, which a \<open>double\<close> holds exactly, the conversion is exact.
\<close>

theorem scientific_notation_exact:
  assumes E: "double_ok E" and d: "isdigit d" "\<forall>c \<in> set fs. isdigit c" "length fs \<le> e"
    and N: "digits_val 10 (d # fs) * 10 ^ (e - length fs) = N" "N \<le> 2 ^ 53"
  shows "text_to_uint E (d # CHR ''.'' # fs @ ''e+'' @ show_nat e) = Inr (of_nat N)"
proof -
  have "strtod_exact ([d] @ CHR ''.'' # fs @ ''e+'' @ show_nat e)
      = Finite (of_nat (digits_val 10 ([d] @ fs)) * scale 10 (int e - int (length fs)))"
    using d by (intro strtod_scientific) simp_all
  also have "of_nat (digits_val 10 ([d] @ fs)) * scale 10 (int e - int (length fs)) = (of_nat N :: rat)"
    using d(3) by (simp add: N(1) [symmetric] scale_def of_nat_diff [symmetric] del: of_nat_diff)
  finally have "strtod (round_double E) (d # CHR ''.'' # fs @ ''e+'' @ show_nat e) = Finite (of_nat N)"
    using E N(2) by (simp add: strtod_def double_ok_def)
  then show ?thesis
    using N(2) double_to_ull_of_nat [of N] by (simp add: text_to_uint_def)
qed

theorem scientific_notation_exact_witness:
  "text_to_uint (cell_server []) ''1.25e+9'' = Inr 1250000000"
proof -
  have "show_nat 9 = ''9''" by code_simp
  then show ?thesis
    using scientific_notation_exact [of "cell_server []" "CHR ''1''" "''25''" 9 1250000000]
    by (simp add: isdigit_def code_def digits_val_def digit_val_def)
qed

text \<open>
  C38. Scientific notation without a point is not recognised: of a digit with an exponent only the
  digit is read, so that a server that answers \<open>1e+6\<close> is reported as 1.
\<close>

theorem scientific_without_point:
  assumes "isdigit d"
  shows "text_to_uint E (d # ''e+'' @ show_nat e) = Inr (of_nat (digit_val d))"
proof -
  have "takeWhile isdigit (d # ''e+'' @ show_nat e) = [d]"
    using assms by (simp add: isdigit_def code_def)
  moreover have "digits_val 10 [d] < 2 ^ 64"
    using assms by (auto simp: digits_val_def digit_val_def isdigit_def)
  moreover have "digits_val 10 [d] = digit_val d" by (simp add: digits_val_def)
  ultimately show ?thesis
    using read_sign_digits [of "[d]" "''e+'' @ show_nat e"] assms
    by (simp add: text_to_uint_def strtoull_def)
qed

theorem scientific_without_point_witness:
  "text_to_uint (cell_server []) ''1e+6'' = Inr 1"
proof -
  have "show_nat 6 = ''6''" by code_simp
  then show ?thesis
    using scientific_without_point [of "CHR ''1''" "cell_server []" 6]
    by (simp add: isdigit_def code_def digit_val_def)
qed

end
