(* ===== verification/Startup.thy ===== *)
theory Startup
  imports Lifecycle Example
begin

text \<open>
  The start of the module: which configuration files it accepts, what it knows afterwards, and how
  it fails.
\<close>

section \<open>A concrete configuration\<close>

lemma demo_config_ok: "libconfig_ok demo_config" "accepted_file demo_config"
  by (simp_all add: libconfig_ok_def libconfig_names_def demo_config_def accepted_file_def only_strings_def)

lemma path_42: "config_path (cell_server ''42'') = Some DEFAULT_PGCONFIGFILE"
  by (simp add: cell_server_def demo_env_def config_path_def)

lemma read_42: "config_read_file (cell_server v) DEFAULT_PGCONFIGFILE = Inr demo_config"
  by (simp add: cell_server_def demo_env_def)

definition demo_linker :: linker where
  "demo_linker = \<lparr>dlopen_ok = True, sym_zbx_zabbix_log = True, sym_zbx_snprintf = False,
     sym_zbx_zbx_snprintf = True, dlerror = ''undefined symbol: zbx_snprintf''\<rparr>"

lemma demo_symbols: "symbols_found demo_linker"
  by (simp add: symbols_found_def demo_linker_def)

lemma init_with_symbols:
  "symbols_found l \<Longrightarrow> zbx_module_init E l s = init_config E (s\<lparr>trace := trace s @ greeting E\<rparr>)"
  by (simp add: zbx_module_init_run) (simp add: symbols_found_def)

section \<open>Properties\<close>

text \<open>
  C20. The start of the module with the symbols of the agent in place and a file that libconfig can
  read: it succeeds exactly when the file holds nothing, or one group \<open>queries\<close> of strings only; then
  \<open>get_query_by_name\<close> gives exactly the queries of that group.
\<close>

theorem start_reads_queries:
  assumes "symbols_found l" and "config_path E = Some path" and "config_read_file E path = Inr cfg"
    and "libconfig_ok cfg"
  shows "\<exists>t. zbx_module_init E l start_state
      = Inr (if accepted_file cfg then ZBX_MODULE_OK else ZBX_MODULE_FAIL, t) \<and>
    (accepted_file cfg \<longrightarrow>
      (\<forall>k. cstring k \<longrightarrow> get_query_by_name (queries t) k = Inr (file_queries cfg k)))"
  using init_config_result [OF assms(2-4), of "start_state\<lparr>trace := trace start_state @ greeting E\<rparr>"]
  by (simp add: init_with_symbols [OF assms(1)])

theorem start_reads_queries_witness:
  "\<exists>t. zbx_module_init (cell_server ''42'') demo_linker start_state = Inr (ZBX_MODULE_OK, t) \<and>
    get_query_by_name (queries t) ''locks'' = Inr (Some ''SELECT count(*) FROM pg_locks WHERE mode = $1'')"
proof -
  have q: "file_queries demo_config ''locks'' = Some ''SELECT count(*) FROM pg_locks WHERE mode = $1''"
    by (simp add: file_queries_def demo_config_def query_entries_def)
  have "cstring ''locks''" by simp
  with start_reads_queries [OF demo_symbols path_42 read_42 demo_config_ok(1)] demo_config_ok(2) q
  show ?thesis by auto
qed

text \<open>
  C34. When the agent lacks a symbol the module needs, or its own handle cannot be opened, the start
  fails and nothing has been read: no object, no query and no answer has changed, and all that was
  written are at most three messages, the first of them the greeting on the standard output.
\<close>

theorem start_without_symbols:
  assumes "\<not> symbols_found l"
  shows "\<exists>es. zbx_module_init E l s = Inr (ZBX_MODULE_FAIL, s\<lparr>trace := trace s @ es\<rparr>) \<and>
    es \<noteq> [] \<and> hd es = EPrint Stdout ''starting agent module libzbxpgsql 1.1.0'' \<and> length es \<le> 3 \<and>
    list_all is_message es"
proof -
  let ?es = "if \<not> dlopen_ok l then
        [EPrint Stdout (''starting agent module '' @ PACKAGE_STRING),
         EPrint Stderr (''failed to dlopen() Zabbix binary: '' @ dlerror l)]
      else if \<not> sym_zbx_zabbix_log l then
        greeting E @ [EPrint Stderr (''failed to find __zbx_zabbix_log(): '' @ dlerror l)]
      else
        greeting E @ (if log_enabled E LOG_LEVEL_ERR then
          [ELog LOG_LEVEL_ERR (''failed to find zbx_snprintf() or __zbx_zbx_snprintf(): '' @ dlerror l)]
        else [])"
  have "zbx_module_init E l s = Inr (ZBX_MODULE_FAIL, s\<lparr>trace := trace s @ ?es\<rparr>)"
    using assms by (simp add: zbx_module_init_run)
  moreover have "list_all is_message ?es" by simp
  moreover have "?es \<noteq> [] \<and> hd ?es = EPrint Stdout ''starting agent module libzbxpgsql 1.1.0'' \<and> length ?es \<le> 3"
    by (simp add: greeting_def PACKAGE_STRING_def)
  ultimately show ?thesis by blast
qed

theorem start_without_symbols_witness:
  "\<exists>es. zbx_module_init (cell_server ''42'') (demo_linker\<lparr>sym_zbx_zbx_snprintf := False\<rparr>) start_state
      = Inr (ZBX_MODULE_FAIL, start_state\<lparr>trace := es\<rparr>)"
  using start_without_symbols [of "demo_linker\<lparr>sym_zbx_zbx_snprintf := False\<rparr>" "cell_server ''42''" start_state]
  by (auto simp: symbols_found_def demo_linker_def start_state_def)

text \<open>
  C35. A file that libconfig cannot read, or none at all, makes the start fail with the text and the
  line libconfig reports in the log; the table of queries stays as it was.
\<close>

theorem unreadable_file_reported:
  assumes "symbols_found l" and "config_path E = Some path"
    and "config_read_file E path = Inl (msg, line)" and "log_enabled E LOG_LEVEL_ERR"
  shows "\<exists>t. zbx_module_init E l s = Inr (ZBX_MODULE_FAIL, t) \<and> queries t = queries s \<and>
    last (trace t) = ELog LOG_LEVEL_ERR (msg @ '' in '' @ path @ '':'' @ show_int (int line))"
proof -
  have get: "getPGCONFIGFILE E t = Inr (Some path, t)" for t
    using assms(2) by (auto simp: config_path_def getPGCONFIGFILE_def cmd_simps split: option.splits if_splits)
  have err: "c_format ''%s in %s:%i'' [AStr (Some msg), AStr (Some path), AInt (int line)]
      = Inr (msg @ '' in '' @ path @ '':'' @ show_int (int line))" by simp
  show ?thesis
    using assms(3,4)
    by (simp add: init_with_symbols [OF assms(1)] init_config_def get read_config_def bind_c_run seq_c_run
        cmd_simps zabbix_log_run [OF err] zabbix_log_run)
qed

theorem unreadable_file_reported_witness:
  "\<exists>t. zbx_module_init ((cell_server ''42'')\<lparr>config_read_file := \<lambda>path. Inl (''syntax error'', 7)\<rparr>)
      demo_linker start_state = Inr (ZBX_MODULE_FAIL, t) \<and>
    last (trace t) = ELog LOG_LEVEL_ERR ''syntax error in /etc/zabbix/libzbxpgsql.conf:7''"
proof -
  let ?E = "(cell_server ''42'')\<lparr>config_read_file := \<lambda>path. Inl (''syntax error'', 7)\<rparr>"
  have "config_path ?E = Some DEFAULT_PGCONFIGFILE"
    by (simp add: config_path_def cell_server_def demo_env_def)
  moreover have "log_enabled ?E LOG_LEVEL_ERR"
    by (simp add: log_enabled_def cell_server_def demo_env_def less_log_level_def)
  moreover have "show_int 7 = ''7''" by code_simp
  ultimately show ?thesis
    using unreadable_file_reported [OF demo_symbols, of ?E DEFAULT_PGCONFIGFILE "''syntax error''" 7 start_state]
    by (auto simp: DEFAULT_PGCONFIGFILE_def)
qed

text \<open>
  C28. A configuration path of more than 512 bytes is not refused but lost: the function that finds the
  path returns NULL, which is then formatted with \<open>%s\<close> when informational messages are logged, and
  opened as a path otherwise; neither has a meaning in C.
\<close>

theorem long_path_undefined:
  assumes "symbols_found l" and "getenv_PGCONFIGFILE E = Some path"
    and "MAX_GLOBBING_PATH_LENGTH < length path"
  shows "zbx_module_init E l s =
    Inl (if log_enabled E LOG_LEVEL_INFORMATION then Bad_format else Null_deref)"
proof -
  obtain t where "getPGCONFIGFILE E (s\<lparr>trace := trace s @ greeting E\<rparr>) = Inr (None, t)"
    using assms(2,3) by (simp add: getPGCONFIGFILE_def seq_c_run cmd_simps zabbix_log_run)
  then show ?thesis
    by (simp add: init_with_symbols [OF assms(1)] init_config_def bind_c_run seq_c_run cmd_simps
        zabbix_log_def read_config_def)
qed

lemma long_path: "\<exists>x. MAX_GLOBBING_PATH_LENGTH < length (x :: string)"
  by (rule exI [of _ "replicate (Suc MAX_GLOBBING_PATH_LENGTH) CHR ''x''"]) simp

theorem long_path_undefined_witness:
  "\<exists>path e. zbx_module_init ((cell_server ''42'')\<lparr>getenv_PGCONFIGFILE := Some path\<rparr>) demo_linker start_state
    = Inl e"
proof -
  obtain path :: string where "MAX_GLOBBING_PATH_LENGTH < length path" using long_path by blast
  from long_path_undefined [OF demo_symbols _ this, of "(cell_server ''42'')\<lparr>getenv_PGCONFIGFILE := Some path\<rparr>"]
  show ?thesis by auto
qed

end
