(* ===== verification/Sessions.thy ===== *)
theory Sessions
  imports Example Setting
begin

text \<open>
  What single calls leave behind, down to the store: the values and documents of accepted
  connections, and the error paths, with the objects that are released on them and those that are
  not.
\<close>

section \<open>Single values\<close>

lemma value_session:
  assumes "fresh_ok s" and "request_ok request" and "params_at s params xs F"
    and "PQstatus (request_conn E request s) = CONNECTION_OK"
    and "scalar_reply query (result_view (request_result E request s query xs)) = Inr (Some v)"
    and "value_answer E type (zbx_strlcpy E (MAX_STRING_LEN E) v) = Inr f" and "plain_type type"
  shows "\<exists>n \<ge> next_id s. pg_get_result E request result type query params s = Inr (SYSINFO_RET_OK,
    noted E (around (keyed ''pg_get_result'' request) (scalar_notes request query xs))
      (served s F n [EConnect (request_connstring request), EExec query xs, EFinish] (f (answer s))))"
proof -
  let ?v = "zbx_strlcpy E (MAX_STRING_LEN E) v"
  let ?s = "noted E [''In '' @ keyed ''pg_get_result'' request] s"
    and ?es = "[EConnect (request_connstring request), EExec query xs, EFinish]"
  have s: "fresh_ok ?s" "params_at ?s params xs F" "PQstatus (request_conn E request ?s) = CONNECTION_OK"
    using assms(1,3,4) by simp_all
  obtain n where n: "n \<ge> next_id s" and run: "pg_scalar E request result query params [] (MAX_STRING_LEN E) ?s
    = Inr ((SYSINFO_RET_OK, ?v), noted E (scalar_notes request query xs) (served ?s F n ?es (answer s)))"
    using pg_scalar_served [OF s(1) assms(2) s(2,3) refl, where query = query and result = result
        and buffer = "[]" and bufferlen = "MAX_STRING_LEN E"]
    by (auto simp add: assms(5) simp del: served_noted noted_eq)
  have "pg_get_result E request result type query params s = Inr (SYSINFO_RET_OK,
      noted E (around (keyed ''pg_get_result'' request) (scalar_notes request query xs))
        (served s F n ?es (f (answer s))))"
    using assms(6,7) run
    by (cases "text_to_uint E ?v")
      (auto simp: pg_get_result_def keyed_def around_def bind_c_run seq_c_run cmd_simps plain_type_def
        value_answer_def SET_STR_RESULT_def SET_UI64_RESULT_def SET_DBL_RESULT_def served_def)
  then show ?thesis using n by blast
qed

text \<open>
  C17. When the connection is accepted and the result has a row whose first cell converts to the type
  asked for, \<open>pg_get_result\<close> succeeds with that value: the whole state after it is the one before,
  without the parameter array, which is released with all its strings, with the three calls to the
  server in the trace, and with the messages of the functions in the debug log. Neither the result
  of the query nor the connection string is left behind.
\<close>

theorem value_delivered:
  assumes "fresh_ok s" and "request_ok request" and "params_at s params xs F"
    and "PQstatus (request_conn E request s) = CONNECTION_OK"
    and "scalar_reply query (result_view (request_result E request s query xs)) = Inr (Some v)"
    and "value_answer E type (zbx_strlcpy E (MAX_STRING_LEN E) v) = Inr f" and "plain_type type"
  shows "\<exists>n \<ge> next_id s. pg_get_result E request result type query params s = Inr (SYSINFO_RET_OK,
    noted E (around (keyed ''pg_get_result'' request) (scalar_notes request query xs))
      (s\<lparr>store := store s |` (- F), next_id := n,
        trace := trace s @ [EConnect (request_connstring request), EExec query xs, EFinish],
        answer := f (answer s)\<rparr>))"
  using value_session [OF assms] by (simp add: served_def)

theorem value_delivered_witness:
  "\<exists>n. pg_get_result (cell_server ''on'') (demo_request ''pg.query.string'' []) RESULT AR_STRING
      ''SHOW fsync'' None start_state
    = Inr (SYSINFO_RET_OK, start_state\<lparr>next_id := n,
        trace := [EConnect ''dbname='', EExec ''SHOW fsync'' [], EFinish],
        answer := no_answer\<lparr>res_str := Some ''on''\<rparr>\<rparr>)"
proof -
  let ?E = "cell_server ''on''" and ?r = "demo_request ''pg.query.string'' []" and ?q = "''SHOW fsync''"
  have acc: "PQstatus (request_conn ?E ?r start_state) = CONNECTION_OK"
    by (simp add: request_conn_def cell_server_def demo_env_def accept_conn_def)
  have cell: "scalar_reply ?q (result_view (request_result ?E ?r start_state ?q [])) = Inr (Some ''on'')"
    by (simp add: request_result_def cell_server_def demo_env_def result_view_def scalar_reply_def rows_def)
  have f: "value_answer ?E AR_STRING (zbx_strlcpy ?E (MAX_STRING_LEN ?E) ''on'') = Inr (\<lambda>a. a\<lparr>res_str := Some ''on''\<rparr>)"
    by (simp add: value_answer_def cell_server_def demo_env_def)
  have req: "request_ok ?r" by (rule demo_request_ok) simp_all
  have "params_at start_state None [] {}" by (simp add: params_at_def)
  moreover have "noted ?E ms s = s" for ms s by (rule noted_off) (simp add: cell_server_def)
  ultimately show ?thesis
    using value_delivered [OF start_state_ok req _ acc cell f, of None "{}" RESULT]
    by (auto simp: request_connstring_def connstring_spec_def start_state_def)
qed

section \<open>The debug log\<close>

lemma param_notes_enumerate:
  "param_notes i xs = map (\<lambda>(k, x). ''  $'' @ show_int (int k) @ '': '' @ x) (enumerate i xs)"
  by (induction xs arbitrary: i) simp_all

text \<open>
  C18. What such a request writes at the debug level: the functions it enters and leaves, with the key
  of the item; the connection string as the user gave it, its password included; the text of the
  query, and every value bound to a placeholder, numbered from 0 where the placeholders count from 1.
  Nothing of it is written when the level is not enabled.
\<close>

theorem request_in_debug_log:
  assumes "fresh_ok s" and "request_ok request" and "params_at s params xs F"
    and "PQstatus (request_conn E request s) = CONNECTION_OK"
    and "scalar_reply query (result_view (request_result E request s query xs)) = Inr (Some v)"
    and "value_answer E type (zbx_strlcpy E (MAX_STRING_LEN E) v) = Inr f" and "plain_type type"
  shows "\<exists>t. pg_get_result E request result type query params s = Inr (SYSINFO_RET_OK, t) \<and>
    debug_log t = debug_log s @ (if \<not> log_enabled E LOG_LEVEL_DEBUG then [] else
      [''In pg_get_result('' @ req_key request @ '')'', ''In pg_scalar'', ''In pg_connect()'',
       ''Connecting to PostgreSQL with: '' @ request_connstring request, ''End of pg_connect()'',
       ''Executing query with '' @ show_int (int (length xs)) @ '' parameters: '' @ query] @
      map (\<lambda>(k, x). ''  $'' @ show_int (int k) @ '': '' @ x) (enumerate 0 xs) @
      [''End of pg_scalar'', ''End of pg_get_result('' @ req_key request @ '')''])"
  using value_session [OF assms, of result]
  by (auto simp: debug_log_noted served_def around_def keyed_def scalar_notes_def session_notes_def
      connect_notes_def exec_notes_def param_notes_enumerate)

theorem request_in_debug_log_witness:
  "\<exists>p s t. param_new (Some ''secret'') start_state = Inr (Some p, s) \<and>
    pg_get_result ((cell_server ''on'')\<lparr>zbx_log_level := Some LOG_LEVEL_DEBUG\<rparr>)
      (demo_request ''pg.query.string'' [''password=pw'']) RESULT AR_STRING ''SELECT $1'' (Some p) s
      = Inr (SYSINFO_RET_OK, t) \<and>
    ''Connecting to PostgreSQL with: password=pw dbname='' \<in> set (debug_log t) \<and>
    ''  $0: secret'' \<in> set (debug_log t)"
proof -
  let ?E = "(cell_server ''on'')\<lparr>zbx_log_level := Some LOG_LEVEL_DEBUG\<rparr>"
  let ?r = "demo_request ''pg.query.string'' [''password=pw'']" and ?q = "''SELECT $1''"
  obtain p s F where new: "param_new (Some ''secret'') start_state = Inr (p, s)"
    and at: "params_at s p [''secret''] F" and only: "only_store {} start_state F s"
    using param_append_run [OF start_state_ok, of None "[]" "{}" "Some ''secret''"]
    by (auto simp: params_at_def param_new_def given_def)
  then obtain a where p: "p = Some a" by (cases p) (auto simp: params_at_def)
  have fresh: "fresh_ok s" using only by (simp add: only_store_def)
  have acc: "PQstatus (request_conn ?E ?r s) = CONNECTION_OK"
    by (simp add: request_conn_def cell_server_def demo_env_def accept_conn_def)
  have cell: "scalar_reply ?q (result_view (request_result ?E ?r s ?q [''secret''])) = Inr (Some ''on'')"
    by (simp add: request_result_def cell_server_def demo_env_def result_view_def scalar_reply_def rows_def)
  have f: "value_answer ?E AR_STRING (zbx_strlcpy ?E (MAX_STRING_LEN ?E) ''on'') = Inr (\<lambda>a. a\<lparr>res_str := Some ''on''\<rparr>)"
    by (simp add: value_answer_def cell_server_def demo_env_def)
  have req: "request_ok ?r" by (rule demo_request_ok) simp_all
  have level: "log_enabled ?E LOG_LEVEL_DEBUG"
    by (simp add: log_enabled_def cell_server_def demo_env_def less_log_level_def)
  have cs: "request_connstring ?r = ''password=pw dbname=''"
    by (simp add: request_connstring_def connstring_spec_def PARAM_CONN_STRING_def PARAM_DBNAME_def)
  have "show_int 0 = ''0''" by code_simp
  then show ?thesis
    using request_in_debug_log [OF fresh req at acc cell f plain_types(1), of RESULT] new level cs
    by (fastforce simp: p)
qed

section \<open>Refused connections\<close>

lemma closed_conn: "request_conn (closed_server msg) request s = refuse_conn msg"
  by (simp add: request_conn_def closed_server_def demo_env_def)

text \<open>
  C30. When the connection is refused with a message that is a format without directives, the item
  fails with that message, and the connection and its string are released; but the parameter array
  the caller has handed over is not: the store is the same as before, and nothing points to the
  array any more.
\<close>

theorem refused_leaks_parameters:
  assumes "fresh_ok s" and "request_ok request" and "params_at s (Some p) xs F"
    and "PQstatus (request_conn E request s) \<noteq> CONNECTION_OK"
    and "c_format (PQerrorMessage (request_conn E request s)) [] = Inr msg"
  shows "\<exists>t. pg_get_result E request RESULT type query (Some p) s = Inr (SYSINFO_RET_FAIL, t) \<and>
    res_msg (answer t) = Some (err_text E msg) \<and> store t = store s \<and> p \<in> F \<and> (\<forall>a \<in> F. store t a \<noteq> None)"
proof -
  have F: "p \<in> F" "\<forall>a \<in> F. store s a \<noteq> None"
    using assms(3) by (auto simp: params_at_def list_all2_conv_all_nth in_set_conv_nth)
  let ?name = "keyed ''pg_get_result'' request"
  let ?s = "noted E [''In '' @ ?name] s"
  have "pg_scalar E request RESULT query (Some p) [] (MAX_STRING_LEN E) ?s =
    Inr ((SYSINFO_RET_FAIL, []), noted E (around ''pg_scalar'' (connect_notes (request_connstring request)))
      (served ?s {} (Suc (Suc (next_id ?s)))
        (EConnect (request_connstring request) # err_log E msg @ [EFinish])
        (set_msg RESULT (err_text E msg) (answer ?s))))"
    by (rule pg_scalar_refused) (use assms in simp_all)
  then show ?thesis
    using F by (simp add: pg_get_result_def keyed_def bind_c_run cmd_simps served_def set_msg_def restrict_map_def)
qed

theorem refused_leaks_parameters_witness:
  "\<exists>p s t. param_new (Some ''postgres'') start_state = Inr (Some p, s) \<and>
    pg_get_result (closed_server ''down'') (demo_request ''pg.db.size'' []) RESULT AR_UINT64 ''SELECT 1'' (Some p) s
      = Inr (SYSINFO_RET_FAIL, t) \<and> store t = store s \<and> store t p \<noteq> None"
proof -
  let ?E = "closed_server ''down''" and ?r = "demo_request ''pg.db.size'' []"
  obtain p s F where new: "param_new (Some ''postgres'') start_state = Inr (p, s)"
    and at: "params_at s p ([] @ given (Some ''postgres'')) F" and only: "only_store {} start_state F s"
    using param_append_run [OF start_state_ok, of None "[]" "{}" "Some ''postgres''"]
    by (auto simp: params_at_def param_new_def)
  then obtain a where p: "p = Some a" by (cases p) (auto simp: params_at_def)
  have "fresh_ok s" using only by (simp add: only_store_def)
  moreover have "request_ok ?r" by (rule demo_request_ok) simp_all
  ultimately show ?thesis
    using refused_leaks_parameters [of s ?r a _ F ?E "''down''"] at new
    by (fastforce simp: p closed_conn refuse_conn_def)
qed

text \<open>
  C26. The message of a refused connection is used as a format: when it holds a percent sign that is
  not doubled, the call has no meaning in C, whatever the item asks for.
\<close>

theorem percent_in_message:
  assumes "request_ok request" and "PQstatus (request_conn E request s) \<noteq> CONNECTION_OK"
    and "PQerrorMessage (request_conn E request s) = a @ CHR ''%'' # c # b"
    and "CHR ''%'' \<notin> set a" and "c \<noteq> CHR ''%''"
  shows "pg_get_result E request result type query params s = Inl Bad_format \<and>
    pg_get_discovery E request result query params s = Inl Bad_format"
proof -
  let ?msg = "PQerrorMessage (request_conn E request s)"
  have fmt: "c_format ?msg [] = Inl Bad_format"
    using assms(3-5) c_format_append [OF assms(4), of "CHR ''%'' # c # b" "[]"] by simp
  have st: "PQstatus (request_conn E request (noted E ms s)) \<noteq> CONNECTION_OK"
    "c_format (PQerrorMessage (request_conn E request (noted E ms s))) [] = Inl Bad_format" for ms
    using assms(2) fmt by simp_all
  have "pg_connect_request E request result (noted E ms s) = Inl Bad_format" for ms
    by (rule pg_connect_request_fault [OF assms(1) st [unfolded request_conn_def]])
  then show ?thesis
    using pg_scalar_bad_message [OF assms(1) st]
    by (simp add: pg_get_result_def pg_get_discovery_def bind_c_run cmd_simps)
qed

theorem percent_in_message_witness:
  "pg_get_result (closed_server ''database 50%off does not exist'')
      (demo_request ''pg.uptime'' []) RESULT AR_UINT64 ''SELECT 1'' None start_state = Inl Bad_format"
proof -
  let ?r = "demo_request ''pg.uptime'' []"
  have "request_ok ?r" by (rule demo_request_ok) simp_all
  from percent_in_message [OF this, of "closed_server ''database 50%off does not exist''" start_state
      "''database 50''" "CHR ''o''" "''ff does not exist''"] show ?thesis
    by (simp add: closed_conn refuse_conn_def)
qed

section \<open>Settings\<close>

text \<open>What the body of a session has left beyond the objects of the session is still there at the end.\<close>

lemma use_conn_leaves:
  assumes fresh: "fresh_ok u" and c: "store u c = Some (Conn conn)" and p: "params_at u params xs F"
    and ro: "PQexecParams E (trace u) conn query xs = Some r"
    and s2: "s2 = noted E (exec_notes query xs) (exec_state u F query xs (Some r))"
    and body: "body r s2 = Inr (x, t)" and fr: "framed {} s2 t"
  shows "\<exists>w. use_conn E c query params body u = Inr (x, w) \<and> answer w = answer t \<and>
    (\<forall>k \<ge> next_id s2. store w k = store t k)"
proof -
  let ?res = "next_id u"
  have exec: "pg_exec E c query params u = Inr (Some ?res, s2)"
    using pg_exec_run [OF fresh p c ro] s2 by simp
  have cn: "c < next_id u" using c fresh by (force simp: fresh_ok_def not_less [symmetric])
  have n2: "next_id s2 = Suc (next_id u)" by (simp add: s2 exec_state_def Let_def)
  have view: "view_result (Some ?res) s2 = Inr (r, s2)"
    by (simp add: s2 view_result_def fetch_res_def fetch_def exec_state_def Let_def bind_c_run cmd_simps)
  have "store s2 c = Some (Conn conn)" "store s2 ?res = Some (Res r)"
    using c cn params_not_conn [OF p c] by (auto simp: s2 exec_state_def Let_def restrict_map_def)
  then have "store t c = Some (Conn conn)" "store t ?res = Some (Res r)"
    using framed_old [OF fr] cn n2 by simp_all
  then have "seq_c (PQclear (Some ?res)) (seq_c (PQfinish (Some c)) (return_c x)) t
    = Inr (x, t\<lparr>store := (store t)(?res := None, c := None), trace := trace t @ [EFinish]\<rparr>)"
    using cn by (simp add: bind_c_run seq_c_run PQclear_def PQfinish_def fetch_conn_def fetch_res_def
        fetch_def release_def log_event_def cmd_simps)
  then show ?thesis
    using cn n2 by (simp add: use_conn_def exec view body bind_c_run)
qed

lemma setting_call_leaves:
  assumes "call_ok E request s" and "get_rparam request PARAM_FIRST = Some name" and "name \<noteq> []"
    and "PQstatus (request_conn E request s) = CONNECTION_OK"
    and "request_result E request s PGSQL_GET_SETTING [name] = Some r"
    and "PQresultStatus r = PGRES_TUPLES_OK" and "PQntuples r \<noteq> 0"
    and "PQgetvalue r 0 0 = Some v" and "PQgetvalue r 0 1 = Some type"
  shows "\<exists>t k. setting_call E request result s = Inr (SYSINFO_RET_OK, t) \<and>
    answer t =
      (if take 7 type = ''integer'' then (answer s)\<lparr>res_ui64 := Some (strtoull v)\<rparr>
       else if take 4 type = ''real'' then (answer s)\<lparr>res_dbl := Some (text_to_double E v)\<rparr>
       else (answer s)\<lparr>res_str := Some v\<rparr>) \<and>
    next_id s \<le> k \<and> store t k = Some (Str type)"
proof -
  have fresh: "fresh_ok s" and req: "request_ok request" and server: "server_ok E"
    using call_okD [OF assms(1)] by auto
  let ?c = "Suc (next_id s)" and ?s1 = "noted E (connect_notes (request_connstring request)) (connected E request s)" and ?conn = "request_conn E request s"
  have conn: "pg_connect_request E request result s = Inr (Some ?c, ?s1)"
    using pg_connect_request_accepted [OF fresh req] assms(4) by (simp add: connected_def request_conn_def)
  have fresh1: "fresh_ok ?s1" using fresh by (auto simp: connected_def fresh_ok_def)
  have g: "given (Some name) = [name]" using assms(3) by (simp add: given_def)
  obtain p u F where new: "param_append None (Some name) ?s1 = Inr (p, u)" and at: "params_at u p [name] F"
    and only: "only_store {} ?s1 F u"
    using param_append_run [OF fresh1 params_at_None, of "Some name"] g by auto
  have ueq: "u = ?s1\<lparr>store := store u, next_id := next_id u\<rparr>" and "fresh_ok u" "next_id ?s1 \<le> next_id u"
    using only unfolding only_store_def by blast+
  moreover have "trace u = trace ?s1" "answer u = answer ?s1" by (subst ueq, simp)+
  ultimately have u: "fresh_ok u" "trace u = trace ?s1" "answer u = answer s" "next_id s \<le> next_id u"
    by (simp_all add: connected_def)
  have "F \<subseteq> {next_id ?s1..}" using only unfolding only_store_def by blast
  then have cF: "?c \<notin> F" by (auto simp: connected_def)
  have "store u |` (- F) = store ?s1 |` (- {})" using only unfolding only_store_def by blast
  from fun_cong [OF this, of ?c] cF have uc: "store u ?c = Some (Conn ?conn)" by (simp add: connected_def)
  have ro: "PQexecParams E (trace u) ?conn PGSQL_GET_SETTING [name] = Some r"
    using assms(5) u(2) by (simp add: request_result_def connected_def)
  let ?s2 = "noted E (exec_notes PGSQL_GET_SETTING [name]) (exec_state u F PGSQL_GET_SETTING [name] (Some r))"
  have ct: "cstring type"
    using server ro assms(9) unfolding server_ok_def good_result_def by blast
  have "setting_body E result r ?s2 = bind_c (strdup v) (\<lambda>value. bind_c (strdup type) (\<lambda>type.
      seq_c (setting_result E value type) (return_c SYSINFO_RET_OK))) ?s2"
    using assms(6-9) by (simp add: setting_body_def non_null_def cmd_simps)
  then have body: "setting_body E result r ?s2 = Inr (SYSINFO_RET_OK, setting_left E v type ?s2)"
    using setting_value_run [OF ct] by simp
  have fresh2: "fresh_ok ?s2"
    using u(1) by (auto simp: exec_state_def fresh_ok_def restrict_map_def Let_def)
  have fr: "framed {} ?s2 (setting_left E v type ?s2)"
    using fresh2 by (auto simp: framed_def fresh_ok_def setting_left_def)
  obtain w where w: "use_conn E ?c PGSQL_GET_SETTING p (setting_body E result) u = Inr (SYSINFO_RET_OK, w)"
    "answer w = answer (setting_left E v type ?s2)"
    "store w (Suc (next_id ?s2)) = store (setting_left E v type ?s2) (Suc (next_id ?s2))"
    using use_conn_leaves [where body = "setting_body E result", OF u(1) uc at ro refl body fr] by auto
  have "setting_call E request result s = Inr (SYSINFO_RET_OK, w)"
    using assms(2,3) w(1)
    by (simp add: setting_call_def session_new_def conn new param_new_def bind_c_run strisnull_def)
  moreover have "next_id s \<le> Suc (next_id ?s2)" "answer ?s2 = answer s"
    using u by (simp_all add: exec_state_def Let_def)
  ultimately show ?thesis
    using w(2,3)
    by (intro exI [of _ w] exI [of _ "Suc (next_id ?s2)"]) (auto simp: setting_left_def setting_answer_def)
qed

text \<open>
  C29. \<open>PG_SETTING\<close> answers a setting in the type the server reports for it: an integer with
  \<open>strtoull\<close>, a real number with \<open>strtold\<close>, and any other type as text; the copy it makes of the name
  of the type is never released.
\<close>

theorem setting_typed_and_leaked:
  assumes "call_ok E request s" and "get_rparam request PARAM_FIRST = Some name" and "name \<noteq> []"
    and "PQstatus (request_conn E request s) = CONNECTION_OK"
    and "request_result E request s PGSQL_GET_SETTING [name] = Some r"
    and "PQresultStatus r = PGRES_TUPLES_OK" and "PQntuples r \<noteq> 0"
    and "PQgetvalue r 0 0 = Some v" and "PQgetvalue r 0 1 = Some type"
  shows "\<exists>t k. PG_SETTING E request result s = Inr (SYSINFO_RET_OK, t) \<and>
    answer t =
      (if take 7 type = ''integer'' then (answer s)\<lparr>res_ui64 := Some (strtoull v)\<rparr>
       else if take 4 type = ''real'' then (answer s)\<lparr>res_dbl := Some (text_to_double E v)\<rparr>
       else (answer s)\<lparr>res_str := Some v\<rparr>) \<and>
    next_id s \<le> k \<and> store t k = Some (Str type)"
proof -
  let ?s = "noted E [''In PG_SETTING()''] s"
  obtain t k where t: "setting_call E request result ?s = Inr (SYSINFO_RET_OK, t)" "next_id ?s \<le> k"
    "store t k = Some (Str type)" and answer: "answer t =
      (if take 7 type = ''integer'' then (answer ?s)\<lparr>res_ui64 := Some (strtoull v)\<rparr>
       else if take 4 type = ''real'' then (answer ?s)\<lparr>res_dbl := Some (text_to_double E v)\<rparr>
       else (answer ?s)\<lparr>res_str := Some v\<rparr>)"
    using setting_call_leaves [of E request ?s name r v type result] assms by auto
  have "PG_SETTING E request result s
      = Inr (SYSINFO_RET_OK, noted E [''End of PG_SETTING('' @ req_key request @ '')''] t)"
    by (simp add: PG_SETTING_session t(1) seq_c_run bind_c_run cmd_simps)
  then show ?thesis using t(2,3) answer by auto
qed

theorem setting_typed_and_leaked_witness:
  "\<exists>t k. PG_SETTING (cell_server ''on'') (demo_request ''pg.setting'' ['''', '''', ''fsync'']) RESULT start_state
      = Inr (SYSINFO_RET_OK, t) \<and> answer t = no_answer\<lparr>res_str := Some ''on''\<rparr> \<and> store t k = Some (Str ''string'')"
proof -
  let ?E = "cell_server ''on''" and ?r = "demo_request ''pg.setting'' ['''', '''', ''fsync'']"
  have ok: "call_ok ?E ?r start_state" by (rule demo_call_ok) simp_all
  have name: "get_rparam ?r PARAM_FIRST = Some ''fsync''" by (simp add: PARAM_FIRST_def)
  have acc: "PQstatus (request_conn ?E ?r start_state) = CONNECTION_OK"
    by (simp add: request_conn_def cell_server_def demo_env_def accept_conn_def)
  let ?res = "rows [''setting'', ''type''] [[''on'', ''string'']]"
  have res: "request_result ?E ?r start_state PGSQL_GET_SETTING [''fsync''] = Some ?res"
    by (simp add: request_result_def cell_server_def demo_env_def)
  have cells: "PQresultStatus ?res = PGRES_TUPLES_OK" "PQntuples ?res \<noteq> 0"
    "PQgetvalue ?res 0 0 = Some ''on''" "PQgetvalue ?res 0 1 = Some ''string''"
    by (simp_all add: rows_def)
  have "answer start_state = no_answer" by (simp add: start_state_def)
  with setting_typed_and_leaked [OF ok name _ acc res cells, of RESULT] show ?thesis by auto
qed

end
