(* ===== verification/Documents.thy ===== *)
theory Documents
  imports Example
begin

text \<open>
  Discovery documents: the rows of a result survive their way through the JSON writer, the documents
  of all databases are joined in the order of the server's list, and what is left behind when one of
  the databases fails.
\<close>

section \<open>One database\<close>

text \<open>
  C15. Round trip of a discovery: when the query succeeds, the answer is the text of a document from
  which exactly the rows of the result can be read back, each a list of macro names and cells in the
  order of the columns; the parameters, the result, the connection and the document are released.
\<close>

theorem document_round_trip:
  assumes "fresh_ok s" and "request_ok request" and "params_at s params xs F"
    and "PQstatus (request_conn E request s) = CONNECTION_OK"
    and "result_view (request_result E request s query xs) = r" and "named_columns r"
    and "PQresultStatus r = PGRES_TUPLES_OK"
  shows "\<exists>t ops. pg_get_discovery E request result query params s = Inr (SYSINFO_RET_OK, t) \<and>
    res_str (answer t) = Some (zbx_json_text E ops) \<and> read_doc ops = Some (row_objects E r) \<and>
    store t = store s |` (- F)"
  using pg_get_discovery_served [OF assms(1-6)] assms(7) read_doc_ops
  by (fastforce simp: served_def)

section \<open>All databases\<close>

text \<open>
  C16. A discovery over all databases connects to each database of the server's list in turn, in its
  order, and when all of them answer, the rows of all of them can be read back from the document,
  those of one database after those of the one before; nothing is left in the store.
\<close>

theorem wide_document_round_trip:
  assumes "fresh_ok s" and "request_ok request"
    and "PQstatus (request_conn E request s) = CONNECTION_OK"
    and "result_view (request_result E request s DATABASES_QUERY []) = r"
    and "first_column r dbs" and "dbs \<noteq> []" and "[] \<notin> set dbs"
    and "past = trace s @ list_events request" and "all_served E request query past dbs"
  shows "\<exists>t ops. pg_get_discovery_wide E request result query None s = Inr (SYSINFO_RET_OK, t) \<and>
    res_str (answer t) = Some (zbx_json_text E ops) \<and>
    read_doc ops = Some (concat (map (row_objects E) (db_results E request query past dbs))) \<and>
    trace t = past @ concat (map (db_events request query) dbs) \<and> store t = store s"
  using pg_get_discovery_wide_served [OF assms(1-7)] assms(8,9) read_doc_ops
  by (fastforce simp: wide_objects_def)

text \<open>
  C31. When the query fails in one of the databases, after all those before it have answered, the item
  reports the error and finishes the connection, but it passes the result of the query to no \<open>PQclear\<close>,
  and the document, with the rows of the databases before, to no \<open>zbx_json_free\<close>: two resources that
  were not there before, to which no pointer is left. (Of the document the agent's library holds
  memory of the heap once its text is longer than the array in its struct.)
\<close>

theorem wide_failure_leaks:
  assumes "fresh_ok s" and "request_ok request"
    and "PQstatus (request_conn E request s) = CONNECTION_OK"
    and "result_view (request_result E request s DATABASES_QUERY []) = l"
    and "first_column l (dbs @ db # rest)" and "[] \<notin> set (dbs @ [db])"
    and "all_served E request query (trace s @ list_events request) dbs"
    and "past = trace s @ list_events request @ concat (map (db_events request query) dbs)"
    and "PQstatus (db_conn E request past db) = CONNECTION_OK"
    and "PQexecParams E (past @ [EConnect (db_connstring request db)])
      (db_conn E request past db) query [] = Some r"
    and "PQresultStatus r \<noteq> PGRES_TUPLES_OK"
  shows "\<exists>t j k. pg_get_discovery_wide E request result query None s = Inr (SYSINFO_RET_FAIL, t) \<and>
    j \<noteq> k \<and> store s j = None \<and> store s k = None \<and>
    store t = (store s)(j \<mapsto> Json (J_addarray ''data'' # concat (map object_ops
      (wide_objects E request query (trace s @ list_events request) dbs))), k \<mapsto> Res r)"
  using pg_get_discovery_wide_leaks [OF assms] by blast

section \<open>A server of two databases\<close>

definition two_databases :: "pgresult \<Rightarrow> env" where
  "two_databases r =
     demo_env (\<lambda>cs. accept_conn) (\<lambda>query xs.
       if query = DATABASES_QUERY then Some (rows [''datname''] [[''a''], [''b'']]) else Some r)"

lemma two_conn: "request_conn (two_databases r) request s = accept_conn"
    "db_conn (two_databases r) request past db = accept_conn" "PQstatus accept_conn = CONNECTION_OK"
  by (simp_all add: request_conn_def db_conn_def two_databases_def demo_env_def accept_conn_def)

lemma two_list: "result_view (request_result (two_databases r) request s DATABASES_QUERY [])
    = rows [''datname''] [[''a''], [''b'']]"
  by (simp add: request_result_def result_view_def two_databases_def demo_env_def)

lemma two_names: "first_column (rows [''datname''] [[''a''], [''b'']]) [''a'', ''b'']"
  by (simp add: first_column_def rows_def multi_bytes_def)

lemma two_result: "query \<noteq> DATABASES_QUERY \<Longrightarrow> db_result (two_databases r) request query past db = r"
    "query \<noteq> DATABASES_QUERY \<Longrightarrow> PQexecParams (two_databases r) past c query xs = Some r"
    "query \<noteq> DATABASES_QUERY \<Longrightarrow> result_view (request_result (two_databases r) request s query xs) = r"
  by (simp_all add: db_result_def request_result_def result_view_def two_databases_def demo_env_def)

abbreviation tables_result :: pgresult where
  "tables_result \<equiv> rows [''oid'', ''table''] [[''16384'', ''users'']]"

lemma tables_facts: "PQresultStatus tables_result = PGRES_TUPLES_OK" "named_columns tables_result"
  by (simp_all add: rows_def named_columns_def)

lemma tables_objects:
  "row_objects (two_databases r) tables_result = [[(''{#OID}'', Some ''16384''), (''{#TABLE}'', Some ''users'')]]"
proof -
  have "map toupper ''{#oid}'' = ''{#OID}''" "map toupper ''{#table}'' = ''{#TABLE}''" by code_simp+
  then show ?thesis
    by (simp add: row_objects_def row_object_def field_label_def rows_def two_databases_def demo_env_def
        str0_def)
qed

abbreviation tables_request :: agent_request where
  "tables_request \<equiv> demo_request ''pg.table.discovery'' []"

lemma tables_request_ok: "request_ok tables_request"
  by (rule demo_request_ok) simp_all

lemma tables_query: "''SELECT 1'' \<noteq> DATABASES_QUERY"
  by (simp add: DATABASES_QUERY_def)

theorem document_round_trip_witness:
  "\<exists>t ops. pg_get_discovery (two_databases tables_result) tables_request RESULT ''SELECT 1'' None start_state
      = Inr (SYSINFO_RET_OK, t) \<and>
    read_doc ops = Some [[(''{#OID}'', Some ''16384''), (''{#TABLE}'', Some ''users'')]]"
  using document_round_trip [OF start_state_ok tables_request_ok params_at_None _
      two_result(3) [OF tables_query] tables_facts(2,1)]
  by (fastforce simp: two_conn tables_objects)

theorem wide_document_round_trip_witness:
  "\<exists>t ops. pg_get_discovery_wide (two_databases tables_result) tables_request RESULT ''SELECT 1'' None start_state
      = Inr (SYSINFO_RET_OK, t) \<and>
    read_doc ops = Some [[(''{#OID}'', Some ''16384''), (''{#TABLE}'', Some ''users'')],
      [(''{#OID}'', Some ''16384''), (''{#TABLE}'', Some ''users'')]] \<and>
    store t = store start_state"
  using wide_document_round_trip [OF start_state_ok tables_request_ok _ two_list [of tables_result] two_names
      _ _ refl, where query = "''SELECT 1''" and result = RESULT]
  by (fastforce simp: two_conn two_result tables_query tables_facts tables_objects)

text \<open>The server whose second database has no such table.\<close>

definition half_server :: env where
  "half_server = (two_databases tables_result)\<lparr>PQexecParams := (\<lambda>past conn query xs.
     if query = DATABASES_QUERY then Some (rows [''datname''] [[''a''], [''b'']])
     else if length past < 6 then Some tables_result else Some (failed_query ''no table''))\<rparr>"

lemma half_facts:
  "request_conn half_server request s = accept_conn" "db_conn half_server request past db = accept_conn"
  "result_view (request_result half_server request s DATABASES_QUERY []) = rows [''datname''] [[''a''], [''b'']]"
  by (simp_all add: request_conn_def db_conn_def request_result_def result_view_def half_server_def
      two_databases_def demo_env_def)

lemma half_objects:
  "row_objects half_server tables_result = [[(''{#OID}'', Some ''16384''), (''{#TABLE}'', Some ''users'')]]"
proof -
  have "field_label half_server = field_label (two_databases tables_result)"
    by (simp add: fun_eq_iff field_label_def half_server_def)
  then have "row_objects half_server tables_result = row_objects (two_databases tables_result) tables_result"
    by (simp add: row_objects_def row_object_def fun_eq_iff)
  then show ?thesis by (simp only: tables_objects)
qed

lemma half_first:
  "query \<noteq> DATABASES_QUERY \<Longrightarrow> length past < 5 \<Longrightarrow> db_result half_server request query past db = tables_result"
  by (simp add: db_result_def half_server_def result_view_def)

lemma half_second:
  "query \<noteq> DATABASES_QUERY \<Longrightarrow> 5 < length past \<Longrightarrow>
    PQexecParams half_server past c query xs = Some (failed_query ''no table'')"
  by (simp add: half_server_def)

theorem wide_failure_leaks_witness:
  "\<exists>t. pg_get_discovery_wide half_server tables_request RESULT ''SELECT 1'' None start_state
      = Inr (SYSINFO_RET_FAIL, t) \<and>
    (\<exists>k. store t k = Some (Res (failed_query ''no table''))) \<and>
    (\<exists>j. store t j = Some (Json [J_addarray ''data'', J_addobject, J_addstring ''{#OID}'' (Some ''16384''),
      J_addstring ''{#TABLE}'' (Some ''users''), J_close]))"
proof -
  let ?E = half_server and ?q = "''SELECT 1''" and ?rq = tables_request
  let ?list = "trace start_state @ list_events ?rq"
  let ?past = "trace start_state @ list_events ?rq @ concat (map (db_events ?rq ?q) [''a''])"
  have len: "length ?list = 3" "length ?past = 6"
    by (simp_all add: start_state_def list_events_def db_events_def)
  have acc: "PQstatus (request_conn ?E ?rq start_state) = CONNECTION_OK"
    "PQstatus (db_conn ?E ?rq ?past ''b'') = CONNECTION_OK"
    by (simp_all add: half_facts two_conn)
  have first: "db_result ?E ?rq ?q ?list ''a'' = tables_result"
    by (rule half_first [OF tables_query]) (unfold len, simp)
  have served: "all_served ?E ?rq ?q ?list [''a'']"
    using first tables_facts by (simp add: half_facts two_conn)
  have objects: "wide_objects ?E ?rq ?q ?list [''a''] = [[(''{#OID}'', Some ''16384''), (''{#TABLE}'', Some ''users'')]]"
    using first by (simp add: wide_objects_def half_objects)
  have names: "first_column (rows [''datname''] [[''a''], [''b'']]) ([''a''] @ ''b'' # [])"
    using two_names by simp
  have ro: "PQexecParams ?E (?past @ [EConnect (db_connstring ?rq ''b'')]) (db_conn ?E ?rq ?past ''b'') ?q []
      = Some (failed_query ''no table'')"
    by (rule half_second [OF tables_query]) (unfold length_append [of ?past] len, simp)
  have bad: "PQresultStatus (failed_query ''no table'') \<noteq> PGRES_TUPLES_OK" by (simp add: failed_query_def)
  have some: "[] \<notin> set ([''a''] @ [''b''])" by simp
  from wide_failure_leaks [OF start_state_ok tables_request_ok acc(1) half_facts(3) names some served refl
      acc(2) ro bad, where result = RESULT]
  obtain t j k where "pg_get_discovery_wide ?E ?rq RESULT ?q None start_state = Inr (SYSINFO_RET_FAIL, t)"
    and "j \<noteq> k" and "store t = (store start_state)(j \<mapsto> Json (J_addarray ''data'' # concat (map object_ops
      (wide_objects ?E ?rq ?q ?list [''a'']))), k \<mapsto> Res (failed_query ''no table''))"
    by blast
  then show ?thesis
    unfolding objects by (intro exI [of _ t] conjI exI [of _ j] exI [of _ k]) (simp_all add: object_ops_def)
qed

end
