(* ===== verification/Statements.thy ===== *)
theory Statements
  imports Lifecycle Example
begin

text \<open>
  The statements single items send and the values they bind: clauses made from the filters of a
  request, queries built in arrays of a fixed size, conversions of counters, and named queries.
\<close>

section \<open>Runs from plans\<close>

text \<open>The run of an item, read off the run of its plan.\<close>

lemma planned_run:
  assumes "zabbix_ok E" and "item_function_of (req_key request) = Some f" and "item_fits f E request"
    and "call_ok E request s" and "table_ok named s"
    and "run_plan E request RESULT (item_plan f named E request) (trace s, answer s) = Inr (ret, (tr, a))"
  shows "\<exists>t. run_item E request s = Inr (ret, t) \<and> trace t = tr \<and> answer t = a"
  using run_item_refines_plan [OF assms(1-5)] assms(6)
  by (auto simp: refines_def view_of_def split: sum.splits)

lemma planned_fault:
  assumes "zabbix_ok E" and "item_function_of (req_key request) = Some f" and "item_fits f E request"
    and "call_ok E request s" and "table_ok named s"
    and "run_plan E request RESULT (item_plan f named E request) (trace s, answer s) = Inl e"
  shows "run_item E request s = Inl e"
  using run_item_refines_plan [OF assms(1-5)] assms(6)
  by (auto simp: refines_def view_of_def split: sum.splits)

lemma reject_run: "sp_reject E result msg (tr, a)
    = Inr (SYSINFO_RET_FAIL, (tr @ err_log E msg, set_msg result (err_text E msg) a))"
  by (simp add: sp_reject_def sp_runs)

section \<open>The clause of the backend items\<close>

text \<open>Each condition holds one placeholder, except those without a value.\<close>

lemma condition_placeholder:
  "n < 10 \<Longrightarrow> count_list (condition E n i x) CHR ''$'' = (if i < 3 then 1 else 0)"
proof -
  assume "n < 10"
  then have "count_list (show_int (int n)) CHR ''$'' = 0"
    using show_nat_digits [of n] by (force simp: show_int_def count_list_0_iff isdigit_def code_def)
  then show ?thesis
    by (simp add: condition_def compared_def count_list_append split: prod.split)
qed

lemma clause_placeholders:
  "n + length fs < 10 \<Longrightarrow> CHR ''$'' \<notin> set cj \<Longrightarrow>
    count_list (clause_text E cj n fs) CHR ''$'' = length (bound_values fs)"
proof (induction fs arbitrary: cj n)
  case (Cons f fs)
  obtain i x where f: "f = (i, x)" by (cases f)
  have "count_list (clause_text E PG_AND (if i < 3 then Suc n else n) fs) CHR ''$'' = length (bound_values fs)"
    by (rule Cons.IH) (use Cons.prems in \<open>simp_all add: PG_AND_def\<close>)
  then show ?case
    using Cons.prems condition_placeholder [of "Suc n" E i x] by (simp add: f count_list_append)
qed simp

text \<open>
  C19. \<open>build_activity_clause\<close> walks over the four filters of a request and, when none of them is
  unsupported, leaves in its array the conjunction of their conditions and in the parameter array
  their values: the clause has one placeholder for each value, and with at most 160 bytes it is far
  from the end of the array.
\<close>

theorem activity_clause_built:
  assumes "zabbix_ok E" and "request_ok request" and "fresh_ok s"
    and "bad_filter (activity_filters request) = None"
  shows "\<exists>v t F. build_activity_clause E request result (replicate MAX_CLAUSE_LEN NUL) None 1 s
      = Inr ((True, v), t) \<and> c_str (cl_array v) 0 = Inr (activity_clause E request) \<and>
    params_at t (cl_params v) (bound_values (activity_filters request)) F \<and>
    count_list (activity_clause E request) CHR ''$'' = length (bound_values (activity_filters request)) \<and>
    length (activity_clause E request) \<le> 160"
proof -
  let ?v = "\<lparr>cl_array = replicate MAX_CLAUSE_LEN NUL, cl_buf = 0, cl_clause = PG_AND,
    cl_pgi = 0, cl_params = None\<rparr>"
  let ?s = "noted E [''In build_activity_clause()''] s"
  have inv: "clause_inv ?v ?s [] PG_AND [] {}"
    using assms(3) by (simp add: clause_inv_def clause_start params_at_None PG_AND_def)
  have room: "length [] + 40 * length [0, 1, 2, 3 :: nat] < MAX_CLAUSE_LEN"
    by (simp add: MAX_CLAUSE_LEN_def)
  obtain v t F c where run: "activity_loop E request result [0, 1, 2, 3] ?v ?s = Inr ((True, v), t)"
    and inv': "clause_inv v t (activity_clause E request) c (bound_values (activity_filters request)) F"
    using activity_loop_run [OF assms(1,2) inv room, of result] assms(4)
    by (auto simp: activity_filters_def activity_clause_def)
  have "length (activity_filters request) \<le> 4"
    using length_given [of "get_rparam request (PARAM_FIRST + 0)"]
      length_given [of "get_rparam request (PARAM_FIRST + 1)"]
      length_given [of "get_rparam request (PARAM_FIRST + 2)"]
      length_given [of "get_rparam request (PARAM_FIRST + 3)"]
    by (simp add: activity_filters_def)
  then have "count_list (activity_clause E request) CHR ''$'' = length (bound_values (activity_filters request))"
    unfolding activity_clause_def by (intro clause_placeholders) (simp_all add: PG_AND_def)
  moreover have "build_activity_clause E request result (replicate MAX_CLAUSE_LEN NUL) None 1 s
      = Inr ((True, v), noted E [''End of build_activity_clause()''] t)"
    using run by (simp add: build_activity_clause_def seq_c_run bind_c_run cmd_simps del: activity_loop.simps)
  ultimately show ?thesis
    using inv' c_str_array activity_clause_length by (fastforce simp: clause_inv_def)
qed

theorem activity_clause_built_witness:
  "\<exists>v t. build_activity_clause (cell_server ''1'') (demo_request ''pg.backends.count''
      ['''', '''', ''16384'', '''', ''127.0.0.1'', ''true'']) RESULT (replicate MAX_CLAUSE_LEN NUL) None 1 start_state
      = Inr ((True, v), t) \<and>
    c_str (cl_array v) 0 = Inr '' AND datid = $1 AND client_addr = $2::inet AND waiting = TRUE''"
proof -
  let ?E = "cell_server ''1''" and ?r = "demo_request ''pg.backends.count'' ['''', '''', ''16384'', '''', ''127.0.0.1'', ''true'']"
  have fs: "activity_filters ?r = [(0, ''16384''), (2, ''127.0.0.1''), (3, ''true'')]"
    by (simp add: activity_filters_def PARAM_FIRST_def)
  have "show_int 1 = ''1''" "show_int 2 = ''2''" by code_simp+
  moreover have "inet_pton4 ?E ''127.0.0.1''" by (simp add: cell_server_def demo_env_def)
  ultimately have "activity_clause ?E ?r = '' AND datid = $1 AND client_addr = $2::inet AND waiting = TRUE''"
    by (simp add: activity_clause_def fs condition_def compared_def isdigit_def code_def PG_AND_def)
  moreover have "bad_filter (activity_filters ?r) = None" by (simp add: fs)
  moreover have "request_ok ?r" by (rule demo_request_ok) simp_all
  ultimately show ?thesis
    using activity_clause_built [OF cell_server_ok(1) _ start_state_ok, of ?r "''1''" RESULT] by auto
qed

text \<open>
  C33. A filter \<open>waiting\<close> that is neither \<open>true\<close> nor \<open>false\<close> makes both items that filter the
  activity fail, with its value and the key in the message. \<open>pg.queries.longest\<close> has then not opened
  a connection at all; \<open>pg.backends.count\<close>, which asks for the version of the server first, sends
  nothing after that.
\<close>

theorem bad_waiting_refused:
  assumes "zabbix_ok E" and "length (ZABBIX_VERSION E) < 1000" and "call_ok E request s"
    and "table_ok named s" and "item_function_of (req_key request) = Some f"
    and "bad_filter (activity_filters request) = Some x"
    and "f = F_PG_QUERIES_LONGEST \<and> past = trace s \<or>
      f = F_PG_BACKENDS_COUNT \<and> pg_version E request RESULT s = Inr (v, u) \<and> to_int32 v \<noteq> 0 \<and> past = trace u"
  shows "\<exists>t es. run_item E request s = Inr (SYSINFO_RET_FAIL, t) \<and>
    res_msg (answer t) = Some (err_text E (''Unsupported parameter value: '' @ [CHR 0x22] @ x @
      [CHR 0x22] @ '' in '' @ req_key request)) \<and>
    trace t = past @ es \<and> list_all is_log es"
proof -
  let ?msg = "''Unsupported parameter value: '' @ [CHR 0x22] @ x @ [CHR 0x22] @ '' in '' @ req_key request"
  have fits: "item_fits f E request" using assms(2,7) by (auto simp: item_fits_def)
  have "\<exists>a. run_plan E request RESULT (item_plan f named E request) (trace s, answer s)
      = Inr (SYSINFO_RET_FAIL, (past @ err_log E ?msg, set_msg RESULT (err_text E ?msg) a))"
    using assms(7)
  proof
    assume f: "f = F_PG_BACKENDS_COUNT \<and> pg_version E request RESULT s = Inr (v, u) \<and> to_int32 v \<noteq> 0 \<and> past = trace u"
    then have "sp_version E request RESULT (trace s, answer s) = Inr (v, (past, answer u))"
      using version_refines [OF assms(3), of RESULT] by (simp add: refines_def view_of_def)
    then show ?thesis
      using f assms(6) by (intro exI [of _ "answer u"]) (simp add: activity_plan_def reject_run bind_c_run)
  qed (use assms(6) in \<open>intro exI [of _ "answer s"], simp add: activity_plan_def reject_run\<close>)
  then obtain t a where "run_item E request s = Inr (SYSINFO_RET_FAIL, t)"
    "trace t = past @ err_log E ?msg" "answer t = set_msg RESULT (err_text E ?msg) a"
    using planned_run [OF assms(1,5) fits assms(3,4)] by blast
  then show ?thesis
    by (intro exI [of _ t] exI [of _ "err_log E ?msg"]) (simp add: set_msg_def err_log_logs)
qed

theorem bad_waiting_refused_witness:
  "(\<exists>t. run_item (cell_server ''1'') (demo_request ''pg.queries.longest'' ['''', '''', '''', '''', '''', ''maybe'']) start_state
      = Inr (SYSINFO_RET_FAIL, t) \<and> sent_texts (trace t) = []) \<and>
   (\<exists>t. run_item (cell_server ''90600'') (demo_request ''pg.backends.count'' ['''', '''', '''', '''', '''', ''maybe'']) start_state
      = Inr (SYSINFO_RET_FAIL, t) \<and> sent_texts (trace t) = [VERSION_QUERY])"
proof
  let ?r = "demo_request ''pg.queries.longest'' ['''', '''', '''', '''', '''', ''maybe'']"
  have key: "item_function_of (req_key ?r) = Some F_PG_QUERIES_LONGEST"
    by (simp add: item_function_of_def zbx_module_item_list_def keys_def)
  have ok: "call_ok (cell_server ''1'') ?r start_state" by (rule demo_call_ok) simp_all
  have bad: "bad_filter (activity_filters ?r) = Some ''maybe''"
    by (simp add: activity_filters_def PARAM_FIRST_def)
  have ver: "length (ZABBIX_VERSION (cell_server ''1'')) < 1000" by simp
  show "\<exists>t. run_item (cell_server ''1'') ?r start_state = Inr (SYSINFO_RET_FAIL, t) \<and> sent_texts (trace t) = []"
    using bad_waiting_refused [OF cell_server_ok(1) ver ok empty_table key bad disjI1 [OF conjI [OF refl refl]]]
      sent_texts_logs by (fastforce simp: start_state_def)
next
  let ?E = "cell_server ''90600''"
  let ?r = "demo_request ''pg.backends.count'' ['''', '''', '''', '''', '''', ''maybe'']"
  have key: "item_function_of (req_key ?r) = Some F_PG_BACKENDS_COUNT"
    by (simp add: item_function_of_def zbx_module_item_list_def keys_def)
  have ok: "call_ok ?E ?r start_state" by (rule demo_call_ok) simp_all
  have bad: "bad_filter (activity_filters ?r) = Some ''maybe''"
    by (simp add: activity_filters_def PARAM_FIRST_def)
  have ver: "length (ZABBIX_VERSION ?E) < 1000" by simp
  have atol: "atol ''90600'' = Inr 90600"
    by (simp add: atol_def decimal_value_def read_sign_def isdigit_def code_def digits_val_def
        digit_val_def skip_space_def isspace_def)
  then have "sp_version ?E ?r RESULT (view_of start_state)
      = Inr (90600, ([EConnect (request_connstring ?r), EExec VERSION_QUERY [], EFinish], no_answer))"
    using cell_server_scalar [of "''90600''" ?r RESULT VERSION_QUERY "[]" "[]" no_answer]
    by (simp add: sp_version_def bind_c_run lift_c_def view_of_def start_state_def)
  then obtain u where u: "pg_version ?E ?r RESULT start_state = Inr (90600, u)"
    and past: "trace u = [EConnect (request_connstring ?r), EExec VERSION_QUERY [], EFinish]"
    using version_refines [OF ok, of RESULT] by (auto simp: refines_def view_of_def split: sum.splits)
  have "to_int32 90600 \<noteq> 0" by (simp add: to_int32_def)
  with u have "F_PG_BACKENDS_COUNT = F_PG_BACKENDS_COUNT \<and> pg_version ?E ?r RESULT start_state = Inr (90600, u) \<and>
      to_int32 90600 \<noteq> 0 \<and> trace u = trace u" by simp
  from bad_waiting_refused [OF cell_server_ok(1) ver ok empty_table key bad disjI2 [OF this]]
  show "\<exists>t. run_item ?E ?r start_state = Inr (SYSINFO_RET_FAIL, t) \<and> sent_texts (trace t) = [VERSION_QUERY]"
    by (auto simp: past sent_texts_logs)
qed

text \<open>
  \<open>is_oid\<close> decides whether a filter is a number: it is equivalent to the test that the text is
  not empty and consists of digits, and holds of the decimal text of every number.
\<close>

lemma oid_test:
  "(is_oid x \<noteq> 0) = (x \<noteq> [] \<and> list_all isdigit x) \<and> is_oid (show_nat n) \<noteq> 0"
  using show_nat_digits [of n] by (simp add: is_oid_iff show_nat_nonempty list_all_iff)

section \<open>The query of an index discovery\<close>

text \<open>
  C24. The query of an index discovery is built in an array of 2048 bytes: when the text with both
  filters and its NUL fits, it is there in full, and otherwise the array is overrun. There is no
  third case: the text is never truncated.
\<close>

theorem index_query_exact:
  assumes "zabbix_ok E" and "request_ok request"
  shows "index_discovery_query E request =
    (if length (index_text request) < 2048 then Inr (index_text request) else Inl Out_of_bounds)"
  using index_discovery_query_run [OF assms] assms(1) by (simp add: zabbix_ok_def)

theorem index_query_exact_witness:
  "index_discovery_query (cell_server ''1'') (demo_request ''pg.index.discovery'' ['''', '''', ''deep'', ''public''])
    = Inr (PGSQL_DISCOVER_INDEXES @ '' AND n.nspname = '' @ SQ @ ''public'' @ SQ)"
proof -
  let ?r = "demo_request ''pg.index.discovery'' ['''', '''', ''deep'', ''public'']"
  have "request_ok ?r" by (rule demo_request_ok) simp_all
  moreover have "index_text ?r = PGSQL_DISCOVER_INDEXES @ '' AND n.nspname = '' @ SQ @ ''public'' @ SQ"
    by (simp add: index_text_def name_filter_def strisnull_def PARAM_FIRST_def)
  ultimately show ?thesis
    using index_query_exact [OF cell_server_ok(1), of ?r "''1''"] length_discover_indexes by simp
qed



section \<open>Counters of indexes\<close>

text \<open>
  C27. A counter of an index is read with \<open>atoi\<close>: a number below \<open>2^31\<close> is answered as it is, and one
  from \<open>2^31\<close> on, which the server's 64-bit counters can hold, is not an \<open>int\<close>, so that the call has
  no meaning in C.
\<close>

theorem index_counter_range:
  assumes "zabbix_ok E" and "length (ZABBIX_VERSION E) < 1000" and "call_ok E request s"
    and "table_ok named s" and "item_function_of (req_key request) = Some F_PG_STAT_ALL_INDEXES"
    and "v = get_rparam request PARAM_FIRST"
    and "query = fill (if strisnull v then INDEX_STAT_SUM else INDEX_STAT) [drop 9 (req_key request)]"
    and "PQstatus (request_conn E request s) = CONNECTION_OK"
    and "request_result E request s query (given v) = Some r"
    and "PQresultStatus r = PGRES_TUPLES_OK" and "PQntuples r \<noteq> 0"
    and "PQgetvalue r 0 0 = Some (show_nat n)"
  shows "if n < 2 ^ 31
    then \<exists>t. run_item E request s = Inr (SYSINFO_RET_OK, t) \<and> res_ui64 (answer t) = Some (of_nat n)
    else run_item E request s = Inl Bad_conversion"
proof -
  have fits: "item_fits F_PG_STAT_ALL_INDEXES E request" using assms(2) by (simp add: item_fits_def)
  have plan: "item_plan F_PG_STAT_ALL_INDEXES named E request = Session query (given v) (sp_counter E query)"
    using assms(6,7) by (simp add: Let_def del: fill.simps)
  have res: "result_view (PQexecParams E (trace s @ [EConnect (request_connstring request)])
      (PQconnectdb E (trace s) (request_connstring request)) query (given v)) = r"
    using assms(9) by (simp add: request_result_def request_conn_def result_view_def)
  have run: "run_plan E request RESULT (item_plan F_PG_STAT_ALL_INDEXES named E request) (trace s, answer s)
      = (case sp_counter E query RESULT r (trace s @ [EConnect (request_connstring request),
          EExec query (given v)], answer s) of
        Inl e \<Rightarrow> Inl e | Inr (x, (tr, a')) \<Rightarrow> Inr (x, (tr @ [EFinish], a')))"
    unfolding plan using assms(8) by (simp add: sp_session_accepted request_conn_def res)
  show ?thesis
  proof (cases "n < 2 ^ 31")
    case True
    then show ?thesis
      using planned_run [OF assms(1,5) fits assms(3,4), unfolded run] atoi_show_nat [OF True] assms(10-12)
      by (fastforce simp: sp_counter_def non_null_def sp_runs)
  next
    case False
    then show ?thesis
      using planned_fault [OF assms(1,5) fits assms(3,4), unfolded run] atoi_show_nat_large [of n] assms(10-12)
      by (simp add: sp_counter_def non_null_def sp_runs not_less)
  qed
qed

lemma cstring_show_nat: "cstring (show_nat n)"
  using show_nat_digits [of n] by (force simp: cstring_def isdigit_def code_def)

theorem index_counter_range_witness:
  "run_item (cell_server (show_nat (2 ^ 32))) (demo_request ''pg.index.idx_scan'' []) start_state = Inl Bad_conversion"
proof -
  let ?E = "cell_server (show_nat (2 ^ 32))" and ?r = "demo_request ''pg.index.idx_scan'' []"
  let ?q = "fill (if strisnull None then INDEX_STAT_SUM else INDEX_STAT) [drop 9 (req_key ?r)]"
  let ?res = "rows [''setting'', ''type''] [[show_nat (2 ^ 32), ''string'']]"
  have key: "item_function_of (req_key ?r) = Some F_PG_STAT_ALL_INDEXES"
    by (simp add: item_function_of_def zbx_module_item_list_def keys_def)
  have "length (show_nat (2 ^ 32)) < 2 ^ 28" by (simp add: show_nat.simps)
  then have ok: "call_ok ?E ?r start_state"
    by (intro demo_call_ok cell_server_ok(3) cstring_show_nat) simp_all
  have conn: "PQstatus (request_conn ?E ?r start_state) = CONNECTION_OK"
    by (simp add: request_conn_def cell_server_def demo_env_def accept_conn_def)
  have res: "request_result ?E ?r start_state ?q (given None) = Some ?res"
    by (simp add: request_result_def cell_server_def demo_env_def del: fill.simps)
  have first: "None = get_rparam ?r PARAM_FIRST" by simp
  have cells: "PQresultStatus ?res = PGRES_TUPLES_OK" "PQntuples ?res \<noteq> 0"
    "PQgetvalue ?res 0 0 = Some (show_nat (2 ^ 32))"
    by (simp_all add: rows_def)
  have ver: "length (ZABBIX_VERSION ?E) < 1000" by simp
  have "\<not> (2 ^ 32 :: nat) < 2 ^ 31" by simp
  with index_counter_range [OF cell_server_ok(1) ver ok empty_table key first refl conn res cells]
  show ?thesis by (simp only: if_False)
qed

section \<open>Queries of the user\<close>

text \<open>A session sends its text once, between the opening and the closing of the connection.\<close>

lemma session_sends:
  assumes "\<And>r. quiet.keeps (body r)" and "PQstatus (PQconnectdb E past cs) = CONNECTION_OK"
    and "sp_session E cs result query xs none body (past, a) = Inr (x, (tr, a'))"
  shows "\<exists>es. tr = past @ [EConnect cs, EExec query xs] @ es @ [EFinish] \<and> list_all is_log es"
proof -
  let ?r = "result_view (PQexecParams E (past @ [EConnect cs]) (PQconnectdb E past cs) query xs)"
  obtain w where w: "body ?r (past @ [EConnect cs, EExec query xs], a) = Inr (x, w)"
    and tr: "tr = fst w @ [EFinish]"
    using assms(3) sp_session_accepted [OF assms(2), of result query xs none body a]
    by (auto split: sum.splits)
  then show ?thesis using quiet.keepsD [OF assms(1) w] by (auto simp: logs_def)
qed

lemma value_sends:
  assumes "PQstatus (PQconnectdb E past (request_connstring request)) = CONNECTION_OK"
    and "sp_value E request result type query xs (past, a) = Inr (ret, (tr, a'))"
  shows "\<exists>es. tr = past @ [EConnect (request_connstring request), EExec query xs] @ es @ [EFinish] \<and>
    list_all is_log es"
proof -
  obtain c u where c: "sp_scalar E request result query xs (past, a) = Inr (c, u)"
    and rest: "(case c of None \<Rightarrow> return_c SYSINFO_RET_FAIL | Some v \<Rightarrow>
      bind_c (lift_c (value_answer E type v)) (\<lambda>f. seq_c (sp_answer f) (return_c SYSINFO_RET_OK))) u
      = Inr (ret, (tr, a'))"
    using assms(2) unfolding sp_value_def bind_c_eq_Inr by blast
  from rest have "fst u = tr"
    by (cases u) (auto simp: sp_runs lift_c_def split: option.splits sum.splits)
  with c show ?thesis
    using session_sends [OF quiet_cell assms(1)] unfolding sp_scalar_def by (cases u) auto
qed

lemma discovery_sends:
  assumes "PQstatus (PQconnectdb E past (request_connstring request)) = CONNECTION_OK"
    and "sp_discovery E request result query xs (past, a) = Inr (ret, (tr, a'))"
  shows "\<exists>es. tr = past @ [EConnect (request_connstring request), EExec query xs] @ es @ [EFinish] \<and>
    list_all is_log es"
proof -
  have "quiet.keeps (bind_c (sp_objects E result r) (sp_document E))" for r
    by (rule quiet.keeps_bind [OF quiet_objects quiet_document])
  from session_sends [OF this assms(1) assms(2) [unfolded sp_discovery_def]] show ?thesis .
qed

lemma answer_as_sends:
  assumes "PQstatus (PQconnectdb E past (request_connstring request)) = CONNECTION_OK"
    and "run_plan E request result (answer_as type query xs) (past, a) = Inr (ret, (tr, a'))"
  shows "\<exists>es. tr = past @ [EConnect (request_connstring request), EExec query xs] @ es @ [EFinish] \<and>
    list_all is_log es"
  using assms by (cases type) (auto simp: answer_as_def intro: value_sends discovery_sends simp del: append.simps)

text \<open>
  C23. A query of the user: with a name of the configuration file the text of that query is sent, and
  otherwise the parameter itself, as the one statement of the item; the values of its placeholders are
  the following parameters without the empty ones, so that behind an empty parameter each value moves
  to the placeholder before its own.
\<close>

theorem user_query_sent:
  assumes "zabbix_ok E" and "length (ZABBIX_VERSION E) < 1000" and "call_ok E request s"
    and "table_ok named s" and "item_function_of (req_key request) = Some F_PG_QUERY"
    and "get_rparam request PARAM_FIRST = Some k" and "k \<noteq> []"
    and "PQstatus (request_conn E request s) = CONNECTION_OK"
    and "run_item E request s = Inr (ret, t)"
  shows "\<exists>es. trace t = trace s @ [EConnect (request_connstring request),
      EExec (case named k of None \<Rightarrow> k | Some q \<Rightarrow> q)
        (filter (\<lambda>x. x \<noteq> []) (map (\<lambda>i. str0 (get_rparam request i)) [3..<req_nparam request]))] @ es @ [EFinish] \<and>
    list_all is_log es"
proof -
  have fits: "item_fits F_PG_QUERY E request" using assms(2) by (simp add: item_fits_def)
  have "concat (map given ps) = filter (\<lambda>x. x \<noteq> []) (map str0 ps)" for ps
    by (induction ps) (auto simp: given_def strisnull_def str0_def split: option.splits)
  from this [of "map (get_rparam request) [3..<req_nparam request]"] have xs: "query_values_of request
      = filter (\<lambda>x. x \<noteq> []) (map (\<lambda>i. str0 (get_rparam request i)) [3..<req_nparam request])"
    by (simp add: query_values_of_def comp_def)
  let ?q = "case named k of None \<Rightarrow> k | Some q \<Rightarrow> q" and ?type = "the (query_type_of (drop 9 (req_key request)))"
  have plan: "user_query_plan named request ?type = answer_as ?type ?q (query_values_of request)"
    using assms(6,7) by (simp add: user_query_plan_def needed_plan_def split: option.split)
  have "run_plan E request RESULT (answer_as ?type ?q (query_values_of request)) (trace s, answer s)
      = Inr (ret, (trace t, answer t))"
    using run_item_refines_plan [OF assms(1,5) fits assms(3,4)] assms(9) plan
    by (simp add: refines_def view_of_def)
  from answer_as_sends [OF _ this] assms(8) show ?thesis by (simp add: request_conn_def xs)
qed

theorem user_query_sent_witness:
  "\<exists>t. run_item (cell_server ''7'') (demo_request ''pg.query.string'' ['''', '''', ''SELECT $1'', '''', ''x'']) start_state
      = Inr (SYSINFO_RET_OK, t) \<and> EExec ''SELECT $1'' [''x''] \<in> set (trace t)"
proof -
  let ?E = "cell_server ''7''" and ?r = "demo_request ''pg.query.string'' ['''', '''', ''SELECT $1'', '''', ''x'']"
  have key: "item_function_of (req_key ?r) = Some F_PG_QUERY"
    by (simp add: item_function_of_def zbx_module_item_list_def keys_def)
  have ok: "call_ok ?E ?r start_state" by (rule demo_call_ok) simp_all
  have ver: "length (ZABBIX_VERSION ?E) < 1000" by simp
  have first: "get_rparam ?r PARAM_FIRST = Some ''SELECT $1''" by (simp add: PARAM_FIRST_def)
  have acc: "PQstatus (request_conn ?E ?r start_state) = CONNECTION_OK"
    by (simp add: request_conn_def cell_server_def demo_env_def accept_conn_def)
  have v: "value_answer ?E AR_STRING ''7'' = Inr (\<lambda>a. a\<lparr>res_str := Some ''7''\<rparr>)"
    by (simp add: value_answer_def)
  have "item_plan F_PG_QUERY (\<lambda>k. None) ?E ?r = Value AR_STRING ''SELECT $1'' (query_values_of ?r)"
    by (simp add: user_query_plan_def needed_plan_def PARAM_FIRST_def strisnull_def query_type_of_def answer_as_def)
  then have "\<exists>w. run_plan ?E ?r RESULT (item_plan F_PG_QUERY (\<lambda>k. None) ?E ?r) (trace start_state, answer start_state)
      = Inr (SYSINFO_RET_OK, w)"
    using cell_server_plan [OF _ v, of ?r RESULT] by (simp del: run_plan.simps)
  then obtain t where t: "run_item ?E ?r start_state = Inr (SYSINFO_RET_OK, t)"
    using planned_run [OF cell_server_ok(1) key _ ok empty_table] by (force simp: item_fits_def)
  have vals: "filter (\<lambda>x. x \<noteq> []) (map (\<lambda>i. str0 (get_rparam ?r i)) [3..<req_nparam ?r]) = [''x'']"
    by (simp add: str0_def upt_rec)
  from user_query_sent [OF cell_server_ok(1) ver ok empty_table key first _ acc t] t vals
  show ?thesis by auto
qed

section \<open>Whether the server can be reached\<close>

lemma c_format_no_args: "c_format f [] = Inl e \<Longrightarrow> e = Bad_format"
proof (induction f "[] :: farg list" arbitrary: e rule: c_format.induct)
  case (3 c d f)
  then show ?case by (auto simp: emit_def bind_f_def split: if_splits sum.splits)
qed (auto split: if_splits)

text \<open>
  C32. \<open>pg.connect\<close> reports no message and never fails: it answers 1 when the connection is accepted and
  0 when it is refused, sends no query, and closes the connection in both cases. The one exception
  is a refused connection whose message does not format without arguments: libpq's message is
  the format of the error message, so that a directive in it has no meaning in C.
\<close>

theorem connect_reports:
  assumes "zabbix_ok E" and "length (ZABBIX_VERSION E) < 1000" and "call_ok E request s"
    and "table_ok named s" and "item_function_of (req_key request) = Some F_PG_CONNECT"
    and "answer s = no_answer"
  shows "if PQstatus (request_conn E request s) = CONNECTION_OK \<or>
      (\<exists>msg. c_format (PQerrorMessage (request_conn E request s)) [] = Inr msg)
    then \<exists>t es. run_item E request s = Inr (SYSINFO_RET_OK, t) \<and>
      answer t = no_answer\<lparr>res_ui64 := Some (if PQstatus (request_conn E request s) = CONNECTION_OK then 1 else 0)\<rparr> \<and>
      trace t = trace s @ EConnect (request_connstring request) # es @ [EFinish] \<and> list_all is_log es
    else run_item E request s = Inl Bad_format"
proof -
  have fits: "item_fits F_PG_CONNECT E request" using assms(2) by (simp add: item_fits_def)
  let ?conn = "request_conn E request s" and ?plan = "item_plan F_PG_CONNECT named E request"
  consider (accepted) "PQstatus ?conn = CONNECTION_OK"
    | (refused) msg where "PQstatus ?conn \<noteq> CONNECTION_OK" "c_format (PQerrorMessage ?conn) [] = Inr msg"
    | (undefined) "PQstatus ?conn \<noteq> CONNECTION_OK" "c_format (PQerrorMessage ?conn) [] = Inl Bad_format"
    using c_format_no_args by (cases "c_format (PQerrorMessage ?conn) []") blast+
  then show ?thesis
  proof cases
    case accepted
    then have "run_plan E request RESULT ?plan (trace s, answer s) = Inr (SYSINFO_RET_OK,
        (trace s @ EConnect (request_connstring request) # [] @ [EFinish], no_answer\<lparr>res_ui64 := Some 1\<rparr>))"
      using assms(6) by (simp add: sp_connect_def Let_def sp_runs request_conn_def set_msg_def)
    from planned_run [OF assms(1,5) fits assms(3,4) this] accepted show ?thesis by fastforce
  next
    case (refused msg)
    then have "run_plan E request RESULT ?plan (trace s, answer s) = Inr (SYSINFO_RET_OK,
        (trace s @ EConnect (request_connstring request) # err_log E msg @ [EFinish], no_answer\<lparr>res_ui64 := Some 0\<rparr>))"
      using assms(6) by (simp add: sp_connect_def Let_def sp_runs request_conn_def set_msg_def)
    from planned_run [OF assms(1,5) fits assms(3,4) this] refused err_log_logs show ?thesis by fastforce
  next
    case undefined
    then have "run_plan E request RESULT ?plan (trace s, answer s) = Inl Bad_format"
      by (simp add: sp_connect_def Let_def sp_runs request_conn_def)
    from planned_fault [OF assms(1,5) fits assms(3,4) this] undefined show ?thesis by simp
  qed
qed

theorem connect_reports_witness:
  "(\<exists>t. run_item (closed_server ''down'') (demo_request ''pg.connect'' []) start_state = Inr (SYSINFO_RET_OK, t) \<and>
      answer t = no_answer\<lparr>res_ui64 := Some 0\<rparr>) \<and>
   run_item (closed_server ''100%'') (demo_request ''pg.connect'' []) start_state = Inl Bad_format"
proof
  let ?E = "closed_server ''down''" and ?r = "demo_request ''pg.connect'' []"
  have key: "item_function_of (req_key ?r) = Some F_PG_CONNECT"
    by (simp add: item_function_of_def zbx_module_item_list_def keys_def)
  have ok: "call_ok ?E ?r start_state" by (rule demo_call_ok) simp_all
  have ver: "length (ZABBIX_VERSION ?E) < 1000" by simp
  have conn: "request_conn ?E ?r start_state = refuse_conn ''down''"
    by (simp add: request_conn_def closed_server_def demo_env_def)
  have "c_format (PQerrorMessage (request_conn ?E ?r start_state)) [] = Inr ''down''"
    by (simp add: conn refuse_conn_def)
  moreover have "PQstatus (request_conn ?E ?r start_state) \<noteq> CONNECTION_OK"
    by (simp add: conn refuse_conn_def)
  moreover have "answer start_state = no_answer" by (simp add: start_state_def)
  ultimately show "\<exists>t. run_item ?E ?r start_state = Inr (SYSINFO_RET_OK, t) \<and> answer t = no_answer\<lparr>res_ui64 := Some 0\<rparr>"
    using connect_reports [OF closed_server_ok(1) ver ok empty_table key] by auto
next
  let ?E = "closed_server ''100%''" and ?r = "demo_request ''pg.connect'' []"
  have key: "item_function_of (req_key ?r) = Some F_PG_CONNECT"
    by (simp add: item_function_of_def zbx_module_item_list_def keys_def)
  have ok: "call_ok ?E ?r start_state" by (rule demo_call_ok) simp_all
  have ver: "length (ZABBIX_VERSION ?E) < 1000" by simp
  have conn: "request_conn ?E ?r start_state = refuse_conn ''100%''"
    by (simp add: request_conn_def closed_server_def demo_env_def)
  have "answer start_state = no_answer" by (simp add: start_state_def)
  from connect_reports [OF closed_server_ok(1) ver ok empty_table key this]
  show "run_item ?E ?r start_state = Inl Bad_format"
    by (simp add: conn refuse_conn_def)
qed

section \<open>Quotients\<close>

text \<open>
  C39. The query of a quotient is built in full in its array of 2048 bytes, as the two calls of
  \<open>zbx_snprintf\<close> write it, when the names given by the items are used: the second column is tested for
  zero before the division, and with a filter column the first placeholder selects the object.
\<close>

theorem percentage_query_built:
  assumes "zabbix_ok E" and "filter_column \<noteq> Some []"
    and "length table + length col1 + 2 * length col2 + length (str0 filter_column) < 400"
  shows "percentage_query E table col1 col2 filter_column =
    Inr (''SELECT CASE WHEN ('' @ col2 @ '') = 0 THEN 1 ELSE ('' @ col1 @ '')::float / ('' @ col2 @
      '') END FROM '' @ table @ (case filter_column of None \<Rightarrow> [] | Some c \<Rightarrow> '' WHERE '' @ c @ '' = $1''))"
  using percentage_query_text [OF assms] by (simp add: percentage_text_def)

theorem percentage_query_built_witness:
  "percentage_query (cell_server ''1'') ''pg_stat_database'' ''blks_hit'' ''blks_hit + blks_read'' (Some ''datname'')
    = Inr ''SELECT CASE WHEN (blks_hit + blks_read) = 0 THEN 1 ELSE (blks_hit)::float / (blks_hit + blks_read) END FROM pg_stat_database WHERE datname = $1''"
  using percentage_query_built [OF cell_server_ok(1), of "Some ''datname''" "''pg_stat_database''" "''blks_hit''" "''blks_hit + blks_read''" "''1''"]
  by (simp add: str0_def)

end
