(* ===== verification/Statistics.thy ===== *)
theory Statistics
  imports Statements
begin

text \<open>
  The keys that stand for columns of PostgreSQL's statistics views: a table of the views and columns,
  made from their documentation and not from the code, and the theorem that the key of a column
  makes its item read this column of this view.
\<close>

section \<open>Columns and views\<close>

text \<open>
  The columns of PostgreSQL's statistics views that the keys ask for, as the documentation of the
  views names them. An entry of \<open>statistics\<close> holds what a key begins with, the view, the view's
  column with the name of the object (none for the view of a single row), and the columns.
\<close>

definition bgwriter_columns :: "string list" where
  "bgwriter_columns = [''checkpoints_timed'', ''checkpoints_req'', ''checkpoint_write_time'',
     ''checkpoint_sync_time'', ''buffers_checkpoint'', ''buffers_clean'', ''maxwritten_clean'',
     ''buffers_backend'', ''buffers_backend_fsync'', ''buffers_alloc'', ''stats_reset'']"

definition database_columns :: "string list" where
  "database_columns = [''numbackends'', ''xact_commit'', ''xact_rollback'', ''blks_read'', ''blks_hit'',
     ''tup_returned'', ''tup_fetched'', ''tup_inserted'', ''tup_updated'', ''tup_deleted'', ''conflicts'',
     ''temp_files'', ''temp_bytes'', ''deadlocks'', ''blk_read_time'', ''blk_write_time'', ''stats_reset'']"

definition table_columns :: "string list" where
  "table_columns = [''seq_scan'', ''seq_tup_read'', ''idx_scan'', ''idx_tup_fetch'', ''n_tup_ins'',
     ''n_tup_upd'', ''n_tup_del'', ''n_tup_hot_upd'', ''n_live_tup'', ''n_dead_tup'', ''n_mod_since_analyze'',
     ''last_vacuum'', ''last_autovacuum'', ''last_analyze'', ''last_autoanalyze'', ''vacuum_count'',
     ''autovacuum_count'', ''analyze_count'', ''autoanalyze_count'']"

definition table_io_columns :: "string list" where
  "table_io_columns = [''heap_blks_read'', ''heap_blks_hit'', ''idx_blks_read'', ''idx_blks_hit'',
     ''toast_blks_read'', ''toast_blks_hit'', ''tidx_blks_read'', ''tidx_blks_hit'']"

definition index_columns :: "string list" where
  "index_columns = [''idx_scan'', ''idx_tup_read'', ''idx_tup_fetch'']"

definition index_io_columns :: "string list" where
  "index_io_columns = [''idx_blks_read'', ''idx_blks_hit'']"

definition statistics :: "(string \<times> string \<times> string \<times> string list) list" where
  "statistics =
    [(''pg.'', ''pg_stat_bgwriter'', '''', bgwriter_columns),
     (''pg.db.'', ''pg_stat_database'', ''datname'', database_columns),
     (''pg.table.'', ''pg_stat_all_tables'', ''relname'', table_columns),
     (''pg.table.'', ''pg_statio_all_tables'', ''relname'', table_io_columns),
     (''pg.index.'', ''pg_stat_all_indexes'', ''indexrelname'', index_columns),
     (''pg.index.'', ''pg_statio_all_indexes'', ''indexrelname'', index_io_columns)]"

lemma statistics_cases:
  assumes "(p, view, name, columns) \<in> set statistics"
  obtains "p = ''pg.''" "view = ''pg_stat_bgwriter''" "name = ''''" "columns = bgwriter_columns"
  | "p = ''pg.db.''" "view = ''pg_stat_database''" "name = ''datname''" "columns = database_columns"
  | "p = ''pg.table.''" "view = ''pg_stat_all_tables''" "name = ''relname''" "columns = table_columns"
  | "p = ''pg.table.''" "view = ''pg_statio_all_tables''" "name = ''relname''" "columns = table_io_columns"
  | "p = ''pg.index.''" "view = ''pg_stat_all_indexes''" "name = ''indexrelname''" "columns = index_columns"
  | "p = ''pg.index.''" "view = ''pg_statio_all_indexes''" "name = ''indexrelname''" "columns = index_io_columns"
  using assms unfolding statistics_def list.set insert_iff empty_iff prod.inject
  by (elim disjE conjE FalseE) (rule that; assumption)+

definition time_stamps :: "string list" where
  "time_stamps = [''stats_reset'', ''last_vacuum'', ''last_autovacuum'', ''last_analyze'', ''last_autoanalyze'']"

text \<open>
  The text reads a column of a view: of its single row, of the rows of one object, whose name is
  bound to the placeholder, or in sum, which a time stamp does not have.
\<close>

definition reads_column ::
  "string \<Rightarrow> string \<Rightarrow> string \<Rightarrow> string option \<Rightarrow> string \<Rightarrow> string list \<Rightarrow> bool" where
  "reads_column view name c v query xs \<longleftrightarrow>
     (if name = [] then query = ''SELECT '' @ c @ '' FROM '' @ view @ '';'' \<and> xs = []
      else if strisnull v then c \<notin> set time_stamps \<and> xs = [] \<and>
        (\<exists>cast rest. query = ''SELECT SUM('' @ c @ cast @ '') FROM '' @ view @ rest)
      else query = ''SELECT '' @ c @ '' FROM '' @ view @ '' WHERE '' @ name @ '' = $1'' \<and> xs = [the v])"

text \<open>Each of these keys is registered with the function that reads its view.\<close>

definition registered :: "string \<Rightarrow> item_function \<Rightarrow> string list \<Rightarrow> bool" where
  "registered p f columns \<longleftrightarrow>
     list_all (\<lambda>c. (p @ c, f) \<in> set (map (\<lambda>m. (metric_key m, metric_function m)) keys)) columns"

lemma statistics_registered:
  "registered ''pg.'' F_PG_STAT_BGWRITER bgwriter_columns"
  "registered ''pg.db.'' F_PG_STAT_DATABASE database_columns"
  "registered ''pg.table.'' F_PG_STAT_ALL_TABLES table_columns"
  "registered ''pg.table.'' F_PG_STATIO_ALL_TABLES table_io_columns"
  "registered ''pg.index.'' F_PG_STAT_ALL_INDEXES index_columns"
  "registered ''pg.index.'' F_PG_STATIO_ALL_INDEXES index_io_columns"
  by (simp_all add: registered_def bgwriter_columns_def database_columns_def table_columns_def
      table_io_columns_def index_columns_def index_io_columns_def keys_def)

lemma registered_function:
  assumes "registered p f columns" and "c \<in> set columns"
  shows "item_function_of (p @ c) = Some f"
  using assms item_function_of_key by (auto simp: registered_def list_all_iff)

text \<open>The tests of the item functions single out the time stamps.\<close>

lemma stamped_columns:
  "list_all (\<lambda>c. (take 11 c = ''stats_reset'') = (c \<in> set time_stamps)) database_columns"
  "list_all (\<lambda>c. (take 5 c = ''last_'') = (c \<in> set time_stamps)) table_columns"
  "list_all (\<lambda>c. c \<notin> set time_stamps) table_io_columns"
  "list_all (\<lambda>c. c \<notin> set time_stamps) index_columns"
  "list_all (\<lambda>c. c \<notin> set time_stamps) index_io_columns"
  by (simp_all add: database_columns_def table_columns_def table_io_columns_def index_columns_def
      index_io_columns_def time_stamps_def)

section \<open>Plans\<close>

lemmas statistic_texts =
  BGWRITER_STAT_def PGSQL_GET_DB_STAT_SUM_def PGSQL_GET_DB_STAT_def PGSQL_GET_TABLE_STAT_SUM_def
  PGSQL_GET_TABLE_STAT_def PGSQL_GET_TABLE_STATIO_SUM_def PGSQL_GET_TABLE_STATIO_def INDEX_STAT_SUM_def
  INDEX_STAT_def PGSQL_GET_INDEX_STATIO_SUM_def INDEX_STATIO_def

text \<open>The plan of such an item refuses the request, or asks for the column.\<close>

definition asks_column ::
  "env \<Rightarrow> string \<Rightarrow> string \<Rightarrow> string \<Rightarrow> string option \<Rightarrow> plan \<Rightarrow> bool" where
  "asks_column E view name c v p \<longleftrightarrow>
     (\<exists>msg. p = Refuse msg) \<or>
     (\<exists>type query xs. p = Value type query xs \<and> reads_column view name c v query xs) \<or>
     (\<exists>query xs. p = Session query xs (sp_counter E query) \<and> reads_column view name c v query xs)"

lemma asks_value: "reads_column view name c v query xs \<Longrightarrow> asks_column E view name c v (Value type query xs)"
  unfolding asks_column_def by blast

lemma reads_null: "strisnull v \<Longrightarrow> reads_column view name c v query xs = reads_column view name c None query xs"
  by (simp add: reads_column_def)

lemma reads_sum:
  "c \<notin> set time_stamps \<Longrightarrow> name \<noteq> [] \<Longrightarrow>
    \<exists>rest. query = ''SELECT SUM('' @ c @ cast @ '') FROM '' @ view @ rest \<Longrightarrow>
    reads_column view name c None query []"
  unfolding reads_column_def by auto

lemma reads_one:
  "\<not> strisnull v \<Longrightarrow> name \<noteq> [] \<Longrightarrow> reads_column view name c v
    (''SELECT '' @ c @ '' FROM '' @ view @ '' WHERE '' @ name @ '' = $1'') [the v]"
  unfolding reads_column_def by (simp only: if_False refl simp_thms)

lemma value_plan_asks:
  assumes "reads_column view name c None all []" and "name \<noteq> []"
    and "one = ''SELECT '' @ c @ '' FROM '' @ view @ '' WHERE '' @ name @ '' = $1''"
  shows "asks_column E view name c v (value_plan type v all one)"
proof (cases "strisnull v")
  case True
  then show ?thesis
    unfolding value_plan_def using assms(1) by (simp only: if_True asks_value reads_null)
next
  case False
  then show ?thesis
    unfolding value_plan_def using reads_one [OF False assms(2)] by (simp only: if_False assms(3) asks_value)
qed

lemma needed_plan_asks:
  assumes "name \<noteq> []" and "\<And>x. one x = Value type (''SELECT '' @ c @ '' FROM '' @ view @ '' WHERE '' @ name @ '' = $1'') [x]"
  shows "asks_column E view name c v (needed_plan v msg one)"
proof (cases "strisnull v")
  case True
  then show ?thesis unfolding needed_plan_def asks_column_def by simp
next
  case False
  then show ?thesis
    unfolding needed_plan_def using reads_one [OF False assms(1)] by (simp only: if_False assms(2) asks_value)
qed

lemma statistic_sums:
  "\<exists>rest. fill PGSQL_GET_DB_STAT_SUM [c] = ''SELECT SUM('' @ c @ ''::bigint'' @ '') FROM '' @ ''pg_stat_database'' @ rest"
  "\<exists>rest. fill PGSQL_GET_TABLE_STAT_SUM [c] = ''SELECT SUM('' @ c @ ''::bigint'' @ '') FROM '' @ ''pg_stat_all_tables'' @ rest"
  "\<exists>rest. fill PGSQL_GET_TABLE_STATIO_SUM [c] = ''SELECT SUM('' @ c @ ''::bigint'' @ '') FROM '' @ ''pg_statio_all_tables'' @ rest"
  "\<exists>rest. fill INDEX_STAT_SUM [c] = ''SELECT SUM('' @ c @ '''' @ '') FROM '' @ ''pg_stat_all_indexes'' @ rest"
  "\<exists>rest. fill PGSQL_GET_INDEX_STATIO_SUM [c] = ''SELECT SUM('' @ c @ ''::bigint'' @ '') FROM '' @ ''pg_statio_all_indexes'' @ rest"
  by (simp_all add: statistic_texts)

lemma statistic_ones:
  "fill BGWRITER_STAT [c] = ''SELECT '' @ c @ '' FROM '' @ ''pg_stat_bgwriter'' @ '';''"
  "fill PGSQL_GET_DB_STAT [c] = ''SELECT '' @ c @ '' FROM '' @ ''pg_stat_database'' @ '' WHERE '' @ ''datname'' @ '' = $1''"
  "fill PGSQL_GET_TABLE_STAT [c] = ''SELECT '' @ c @ '' FROM '' @ ''pg_stat_all_tables'' @ '' WHERE '' @ ''relname'' @ '' = $1''"
  "fill PGSQL_GET_TABLE_STATIO [c] = ''SELECT '' @ c @ '' FROM '' @ ''pg_statio_all_tables'' @ '' WHERE '' @ ''relname'' @ '' = $1''"
  "fill INDEX_STAT [c] = ''SELECT '' @ c @ '' FROM '' @ ''pg_stat_all_indexes'' @ '' WHERE '' @ ''indexrelname'' @ '' = $1''"
  "fill INDEX_STATIO [c] = ''SELECT '' @ c @ '' FROM '' @ ''pg_statio_all_indexes'' @ '' WHERE '' @ ''indexrelname'' @ '' = $1''"
  by (simp_all add: statistic_texts)

text \<open>The plans of the six functions.\<close>

lemma bgwriter_asks:
  assumes "req_key request = ''pg.'' @ c"
  shows "asks_column E ''pg_stat_bgwriter'' '''' c v (item_plan F_PG_STAT_BGWRITER named E request)"
proof -
  have "drop 3 (req_key request) = c" by (simp add: assms)
  then show ?thesis
    unfolding item_plan.simps Let_def statistic_ones
    by (intro asks_value) (simp only: reads_column_def if_True simp_thms)
qed

lemma database_asks:
  assumes c: "c \<in> set database_columns" and key: "req_key request = ''pg.db.'' @ c"
  shows "asks_column E ''pg_stat_database'' ''datname'' c (get_rparam request PARAM_FIRST)
    (item_plan F_PG_STAT_DATABASE named E request)"
proof -
  have field: "drop 6 (req_key request) = c" by (simp add: key)
  have stamp: "(take 11 c = ''stats_reset'') = (c \<in> set time_stamps)"
    using stamped_columns(1) c by (simp only: list_all_iff)
  show ?thesis
  proof (cases "c \<in> set time_stamps")
    case True
    then show ?thesis
      unfolding item_plan.simps field database_stat_plan_def stamp statistic_ones
      by (simp only: if_True) (rule needed_plan_asks, simp, rule refl)
  next
    case False
    from reads_sum [OF this _ statistic_sums(1)] False show ?thesis
      unfolding item_plan.simps field database_stat_plan_def stamp statistic_ones
      by (simp only: if_False) (rule value_plan_asks, simp, simp, rule refl)
  qed
qed

lemma tables_asks:
  assumes c: "c \<in> set table_columns" and key: "req_key request = ''pg.table.'' @ c"
  shows "asks_column E ''pg_stat_all_tables'' ''relname'' c (get_rparam request PARAM_FIRST)
    (item_plan F_PG_STAT_ALL_TABLES named E request)"
proof -
  have field: "drop 9 (req_key request) = c" by (simp add: key)
  have stamp: "(take 5 c = ''last_'') = (c \<in> set time_stamps)"
    using stamped_columns(2) c by (simp only: list_all_iff)
  show ?thesis
  proof (cases "c \<in> set time_stamps")
    case True
    then show ?thesis
      unfolding item_plan.simps field table_stat_plan_def stamp statistic_ones
      by (simp only: if_True) (rule needed_plan_asks, simp, rule refl)
  next
    case False
    from reads_sum [OF this _ statistic_sums(2)] False show ?thesis
      unfolding item_plan.simps field table_stat_plan_def stamp statistic_ones
      by (simp only: if_False) (rule value_plan_asks, simp, simp, rule refl)
  qed
qed

lemma io_tables_asks:
  assumes c: "c \<in> set table_io_columns" and key: "req_key request = ''pg.table.'' @ c"
  shows "asks_column E ''pg_statio_all_tables'' ''relname'' c (get_rparam request PARAM_FIRST)
    (item_plan F_PG_STATIO_ALL_TABLES named E request)"
proof -
  have field: "drop 9 (req_key request) = c" by (simp add: key)
  have "c \<notin> set time_stamps" using stamped_columns(3) c by (simp add: list_all_iff)
  from reads_sum [OF this _ statistic_sums(3)] show ?thesis
    unfolding item_plan.simps field Let_def statistic_ones
    by (intro value_plan_asks) (simp, simp, rule refl)
qed

lemma indexes_asks:
  assumes c: "c \<in> set index_columns" and key: "req_key request = ''pg.index.'' @ c"
  shows "asks_column E ''pg_stat_all_indexes'' ''indexrelname'' c (get_rparam request PARAM_FIRST)
    (item_plan F_PG_STAT_ALL_INDEXES named E request)"
proof -
  let ?v = "get_rparam request PARAM_FIRST"
  have field: "drop 9 (req_key request) = c" by (simp add: key)
  have c: "c \<notin> set time_stamps" using stamped_columns(4) c by (simp add: list_all_iff)
  have "reads_column ''pg_stat_all_indexes'' ''indexrelname'' c ?v
      (fill (if strisnull ?v then INDEX_STAT_SUM else INDEX_STAT) [c]) (given ?v)"
  proof (cases "strisnull ?v")
    case True
    from reads_sum [OF c _ statistic_sums(4)] True show ?thesis
      unfolding reads_null [OF True] given_cases by (simp only: if_True) simp
  next
    case False
    from reads_one [OF this, of "''indexrelname''" "''pg_stat_all_indexes''" c] False show ?thesis
      unfolding given_cases by (simp only: if_False statistic_ones) simp
  qed
  then show ?thesis
    unfolding item_plan.simps field Let_def asks_column_def by blast
qed

lemma io_indexes_asks:
  assumes c: "c \<in> set index_io_columns" and key: "req_key request = ''pg.index.'' @ c"
  shows "asks_column E ''pg_statio_all_indexes'' ''indexrelname'' c (get_rparam request PARAM_FIRST)
    (item_plan F_PG_STATIO_ALL_INDEXES named E request)"
proof -
  have field: "drop 9 (req_key request) = c" by (simp add: key)
  have "c \<notin> set time_stamps" using stamped_columns(5) c by (simp add: list_all_iff)
  from reads_sum [OF this _ statistic_sums(5)] show ?thesis
    unfolding item_plan.simps field Let_def statistic_ones
    by (intro value_plan_asks) (simp, simp, rule refl)
qed

lemma statistic_item:
  assumes row: "(p, view, name, columns) \<in> set statistics" and c: "c \<in> set columns"
    and key: "req_key request = p @ c"
  obtains f where "item_function_of (req_key request) = Some f" "f \<noteq> F_PG_INDEX_DISCOVERY"
    "asks_column E view name c (get_rparam request PARAM_FIRST) (item_plan f named E request)"
proof -
  note found = that
  have goal: thesis
    if "registered p f columns" "f \<noteq> F_PG_INDEX_DISCOVERY"
      "asks_column E view name c (get_rparam request PARAM_FIRST) (item_plan f named E request)" for f
    by (rule found [OF _ that(2,3)]) (simp only: key registered_function [OF that(1) c])
  show thesis
    using row
  proof (cases rule: statistics_cases)
    case 1
    then show thesis using goal [of F_PG_STAT_BGWRITER] bgwriter_asks statistics_registered(1) key by blast
  next
    case 2
    then show thesis using goal [of F_PG_STAT_DATABASE] database_asks statistics_registered(2) key c by blast
  next
    case 3
    then show thesis using goal [of F_PG_STAT_ALL_TABLES] tables_asks statistics_registered(3) key c by blast
  next
    case 4
    then show thesis using goal [of F_PG_STATIO_ALL_TABLES] io_tables_asks statistics_registered(4) key c by blast
  next
    case 5
    then show thesis using goal [of F_PG_STAT_ALL_INDEXES] indexes_asks statistics_registered(5) key c by blast
  next
    case 6
    then show thesis using goal [of F_PG_STATIO_ALL_INDEXES] io_indexes_asks statistics_registered(6) key c by blast
  qed
qed

section \<open>What is sent\<close>

text \<open>An item that succeeds was connected, and has sent its text once.\<close>

lemma value_success:
  assumes "sp_value E request result type query xs (past, a) = Inr (SYSINFO_RET_OK, (tr, a'))"
  shows "\<exists>es. tr = past @ [EConnect (request_connstring request), EExec query xs] @ es @ [EFinish] \<and>
    list_all is_log es"
proof (cases "PQstatus (PQconnectdb E past (request_connstring request)) = CONNECTION_OK")
  case True
  then show ?thesis using value_sends assms by blast
next
  case False
  then show ?thesis
    using assms
    by (auto simp: sp_value_def sp_scalar_def bind_c_eq_Inr sp_session_refused bind_f_eq_Inr cmd_simps)
qed

lemma counter_success:
  assumes "sp_session E (request_connstring request) result query xs SYSINFO_RET_FAIL (sp_counter E query result)
      (past, a) = Inr (SYSINFO_RET_OK, (tr, a'))"
  shows "\<exists>es. tr = past @ [EConnect (request_connstring request), EExec query xs] @ es @ [EFinish] \<and>
    list_all is_log es"
proof (cases "PQstatus (PQconnectdb E past (request_connstring request)) = CONNECTION_OK")
  case True
  then show ?thesis using session_sends [OF sp_counter_quiet _ assms] by blast
next
  case False
  then show ?thesis
    using assms by (auto simp: sp_session_refused bind_f_eq_Inr)
qed

text \<open>
  C40. A key that stands for a column of one of PostgreSQL's statistics views reads this column of this
  view: when the item succeeds, the one text it has sent selects the column by its name from the view,
  of the object that is named by the request, and in sum when none is named. A time stamp is never
  summed.
\<close>

theorem statistics_read_columns:
  assumes "zabbix_ok E" and "length (ZABBIX_VERSION E) < 1000" and "call_ok E request s"
    and "table_ok named s" and "(p, view, name, columns) \<in> set statistics" and "c \<in> set columns"
    and "req_key request = p @ c" and "run_item E request s = Inr (SYSINFO_RET_OK, t)"
  shows "\<exists>query xs es. reads_column view name c (get_rparam request PARAM_FIRST) query xs \<and>
    trace t = trace s @ [EConnect (request_connstring request), EExec query xs] @ es @ [EFinish] \<and>
    list_all is_log es"
proof -
  obtain f where f: "item_function_of (req_key request) = Some f" "f \<noteq> F_PG_INDEX_DISCOVERY"
    and asks: "asks_column E view name c (get_rparam request PARAM_FIRST) (item_plan f named E request)"
    by (rule statistic_item [OF assms(5-7)])
  have "item_fits f E request" using assms(2) f(2) by (simp add: item_fits_def)
  from run_item_refines_plan [OF assms(1) f(1) this assms(3,4)] assms(8)
  have run: "run_plan E request RESULT (item_plan f named E request) (trace s, answer s)
      = Inr (SYSINFO_RET_OK, (trace t, answer t))"
    by (simp add: refines_def view_of_def)
  from asks [unfolded asks_column_def] show ?thesis
  proof (elim disjE exE conjE)
    fix msg
    assume "item_plan f named E request = Refuse msg"
    then show ?thesis using run by (simp add: reject_run)
  next
    fix type query xs
    assume "item_plan f named E request = Value type query xs"
      and reads: "reads_column view name c (get_rparam request PARAM_FIRST) query xs"
    then have "sp_value E request RESULT type query xs (trace s, answer s)
        = Inr (SYSINFO_RET_OK, (trace t, answer t))"
      using run by simp
    from value_success [OF this] reads show ?thesis by blast
  next
    fix query xs
    assume "item_plan f named E request = Session query xs (\<lambda>result. sp_counter E query result)"
      and reads: "reads_column view name c (get_rparam request PARAM_FIRST) query xs"
    then have "sp_session E (request_connstring request) RESULT query xs SYSINFO_RET_FAIL
        (sp_counter E query RESULT) (trace s, answer s) = Inr (SYSINFO_RET_OK, (trace t, answer t))"
      using run by simp
    from counter_success [OF this] reads show ?thesis by blast
  qed
qed

theorem statistics_read_columns_witness:
  "\<exists>t query xs. run_item (cell_server ''7'') (demo_request ''pg.db.deadlocks'' ['''', '''', ''postgres'']) start_state
      = Inr (SYSINFO_RET_OK, t) \<and> sent_texts (trace t) = [query] \<and>
    reads_column ''pg_stat_database'' ''datname'' ''deadlocks'' (Some ''postgres'') query xs"
proof -
  let ?E = "cell_server ''7''" and ?r = "demo_request ''pg.db.deadlocks'' ['''', '''', ''postgres'']"
  have key: "item_function_of (req_key ?r) = Some F_PG_STAT_DATABASE"
    by (simp add: item_function_of_def zbx_module_item_list_def keys_def)
  have ok: "call_ok ?E ?r start_state" by (rule demo_call_ok) simp_all
  have ver: "length (ZABBIX_VERSION ?E) < 1000" by simp
  have row: "(''pg.db.'', ''pg_stat_database'', ''datname'', database_columns) \<in> set statistics"
    by (simp add: statistics_def)
  have c: "''deadlocks'' \<in> set database_columns" by (simp add: database_columns_def)
  have k: "req_key ?r = ''pg.db.'' @ ''deadlocks''" by simp
  have v: "value_answer ?E AR_UINT64 ''7'' = Inr (\<lambda>a. a\<lparr>res_ui64 := Some 7\<rparr>)"
    by (simp add: value_answer_def text_to_uint_def strtoull_def read_sign_def isdigit_def code_def
        digits_val_def digit_val_def skip_space_def isspace_def)
  have "item_plan F_PG_STAT_DATABASE (\<lambda>k. None) ?E ?r
      = Value AR_UINT64 (fill PGSQL_GET_DB_STAT [''deadlocks'']) [''postgres'']"
    by (simp add: database_stat_plan_def value_plan_def PARAM_FIRST_def strisnull_def del: fill.simps)
  then have "\<exists>w. run_plan ?E ?r RESULT (item_plan F_PG_STAT_DATABASE (\<lambda>k. None) ?E ?r)
      (trace start_state, answer start_state) = Inr (SYSINFO_RET_OK, w)"
    using cell_server_plan [OF _ v, of ?r RESULT] by (simp del: run_plan.simps fill.simps)
  then obtain t where t: "run_item ?E ?r start_state = Inr (SYSINFO_RET_OK, t)"
    using planned_run [OF cell_server_ok(1) key _ ok empty_table] by (force simp: item_fits_def)
  have "get_rparam ?r PARAM_FIRST = Some ''postgres''" by (simp add: PARAM_FIRST_def)
  with statistics_read_columns [OF cell_server_ok(1) ver ok empty_table row c k t] t
  show ?thesis by (auto simp: start_state_def sent_texts_append sent_texts_logs simp del: append.simps)
qed

end
