(* ===== verification/Independence.thy ===== *)
theory Independence
  imports Statements
begin

text \<open>
  The texts that reach the server do not carry the values of the parameters: they depend on the key
  and on a coarse classification of each parameter only.
\<close>

section \<open>Requests that look alike\<close>

text \<open>
  The words the items know, and the questions they ask of a parameter: is it given, is it a number,
  is it the address of a host, is it one of these words.
\<close>

definition mode_words :: "string list" where
  "mode_words = [''deep'', ''shallow'', ''all'', ''write'', ''sync'', ''true'', ''false'']"

definition alike :: "env \<Rightarrow> string option \<Rightarrow> string option \<Rightarrow> bool" where
  "alike E v w \<longleftrightarrow>
     strisnull v = strisnull w \<and>
     (strisnull v \<or>
       list_all isdigit (the v) = list_all isdigit (the w) \<and>
       (inet_pton4 E (the v) \<or> inet_pton6 E (the v)) = (inet_pton4 E (the w) \<or> inet_pton6 E (the w)) \<and>
       list_all (\<lambda>k. (the v = k) = (the w = k)) mode_words)"

definition requests_alike :: "env \<Rightarrow> agent_request \<Rightarrow> agent_request \<Rightarrow> bool" where
  "requests_alike E r r' \<longleftrightarrow>
     req_key r = req_key r' \<and> (\<forall>i. alike E (get_rparam r i) (get_rparam r' i))"

lemma alike_null: "alike E v w \<Longrightarrow> strisnull v = strisnull w"
  by (simp add: alike_def)

lemma alike_word:
  "alike E v w \<Longrightarrow> \<not> strisnull v \<Longrightarrow> k \<in> set mode_words \<Longrightarrow> the v = k \<longleftrightarrow> the w = k"
  by (simp add: alike_def list_all_iff)

lemma mode_words_in:
  "''deep'' \<in> set mode_words" "''shallow'' \<in> set mode_words" "''all'' \<in> set mode_words"
  "''write'' \<in> set mode_words" "''sync'' \<in> set mode_words" "''true'' \<in> set mode_words"
  "''false'' \<in> set mode_words"
  by (simp_all add: mode_words_def)

section \<open>Filters that look alike\<close>

definition filters_alike :: "env \<Rightarrow> (nat \<times> string) list \<Rightarrow> (nat \<times> string) list \<Rightarrow> bool" where
  "filters_alike E = list_all2 (\<lambda>(i, x) (j, y). i = j \<and> x \<noteq> [] \<and> alike E (Some x) (Some y))"

lemma filters_alike:
  assumes "requests_alike E r r'"
  shows "filters_alike E (filters r is) (filters r' is)"
proof (induction "is")
  case (Cons i "is")
  have "alike E (get_rparam r (PARAM_FIRST + i)) (get_rparam r' (PARAM_FIRST + i))"
    using assms by (simp add: requests_alike_def)
  then have "filters_alike E (map (Pair i) (given (get_rparam r (PARAM_FIRST + i))))
      (map (Pair i) (given (get_rparam r' (PARAM_FIRST + i))))"
    by (auto simp: filters_alike_def given_def alike_def not_strisnull)
  then show ?case using Cons by (simp add: filters_alike_def list_all2_appendI)
qed (simp add: filters_alike_def)

lemma condition_alike:
  assumes "x \<noteq> []" and "alike E (Some x) (Some y)"
  shows "condition E n i x = condition E n i y"
proof -
  have "\<not> strisnull (Some x)" using assms(1) by (simp add: strisnull_def)
  then show ?thesis
    using assms alike_word [OF assms(2) _ mode_words_in(6)]
    by (auto simp: condition_def compared_def alike_def strisnull_def)
qed

lemma clause_alike: "filters_alike E fs gs \<Longrightarrow> clause_text E cj n fs = clause_text E cj n gs"
  unfolding filters_alike_def
proof (induction arbitrary: cj n rule: list_all2_induct)
  case (Cons f fs g gs)
  then show ?case using condition_alike by (cases f; cases g) auto
qed simp

lemma bad_filter_alike: "filters_alike E fs gs \<Longrightarrow> bad_filter fs = None \<longleftrightarrow> bad_filter gs = None"
  unfolding filters_alike_def
proof (induction rule: list_all2_induct)
  case (Cons f fs g gs)
  obtain i x j y where fg: "f = (i, x)" "g = (j, y)" by (cases f; cases g)
  then have xy: "i = j" "x \<noteq> []" "alike E (Some x) (Some y)" using Cons.hyps by auto
  then have "\<not> strisnull (Some x)" by (simp add: strisnull_def)
  then show ?case
    using Cons.IH xy alike_word [OF xy(3) _ mode_words_in(6)] alike_word [OF xy(3) _ mode_words_in(7)]
    by (simp add: fg)
qed simp

lemma activity_alike:
  assumes "requests_alike E r r'" and "\<And>c xs ys. plan_sends (p c xs) = plan_sends (q c ys)"
  shows "plan_sends (activity_plan E r p) = plan_sends (activity_plan E r' q)"
proof -
  note fs = filters_alike [OF assms(1), of "[0, 1, 2, 3]", folded activity_filters_def]
  show ?thesis
    using bad_filter_alike [OF fs] clause_alike [OF fs] assms(2)
    by (auto simp: activity_plan_def activity_clause_def split: option.split)
qed

section \<open>Plans of requests that look alike\<close>

lemma value_plan_alike:
  "alike E v w \<Longrightarrow> plan_sends (value_plan type v all one) = plan_sends (value_plan type w all one)"
  by (simp add: value_plan_def alike_null)

lemma needed_plan_alike:
  assumes "alike E v w" and "\<And>x y. plan_sends (p x) = plan_sends (q y)"
  shows "plan_sends (needed_plan v msg p) = plan_sends (needed_plan w msg q)"
  using assms by (auto simp: needed_plan_def alike_null)

lemma mode_plan_alike:
  assumes "alike E v w"
  shows "plan_sends (mode_plan v query) = plan_sends (mode_plan w query)"
  using assms alike_null [OF assms] alike_word [OF assms _ mode_words_in(1)] alike_word [OF assms _ mode_words_in(2)]
  by (auto simp: mode_plan_def)

lemma bg_time_plan_alike:
  assumes "alike E v w"
  shows "plan_sends (bg_time_plan v) = plan_sends (bg_time_plan w)"
  using assms alike_null [OF assms] alike_word [OF assms _ mode_words_in(3)]
    alike_word [OF assms _ mode_words_in(4)] alike_word [OF assms _ mode_words_in(5)]
  by (auto simp: bg_time_plan_def simp del: fill.simps)

lemma item_plan_alike:
  assumes r: "requests_alike E r r'" and f: "f \<noteq> F_PG_QUERY" "f \<noteq> F_PG_INDEX_DISCOVERY"
  shows "plan_sends (item_plan f named E r) = plan_sends (item_plan f named' E r')"
proof -
  have key: "req_key r' = req_key r" and v: "alike E (get_rparam r PARAM_FIRST) (get_rparam r' PARAM_FIRST)"
    using r by (simp_all add: requests_alike_def)
  note null = alike_null [OF v]
  have count: "plan_sends (activity_plan E r (\<lambda>clause. Value AR_UINT64 (fill PGSQL_GET_BACKENDS [pid_column x, clause])))
      = plan_sends (activity_plan E r' (\<lambda>clause. Value AR_UINT64 (fill PGSQL_GET_BACKENDS [pid_column x, clause])))"
    for x by (rule activity_alike [OF r]) simp
  show ?thesis
    using f
    by (cases f)
      (simp_all add: key null count value_plan_alike [OF v] needed_plan_alike [OF v] mode_plan_alike [OF v]
        bg_time_plan_alike [OF v] activity_alike [OF r] ratio_plan_def database_stat_plan_def
        table_stat_plan_def Let_def del: fill.simps)
qed

text \<open>
  C14. Parameters are not pasted into statements: the texts an item sends for a request are texts of the
  plan of any other request that looks alike, with the same key and with parameters that are given at
  the same positions, of the same kind and the same mode words. So no text depends on the characters of
  a parameter. The exceptions are the item for queries of the user, and the index discovery.
\<close>

theorem parameters_not_in_texts:
  assumes "zabbix_ok E" and "length (ZABBIX_VERSION E) < 1000"
    and "call_ok E request s" and "table_ok named s"
    and "item_function_of (req_key request) = Some f" and "f \<noteq> F_PG_QUERY" and "f \<noteq> F_PG_INDEX_DISCOVERY"
    and "requests_alike E request other" and "run_item E request s = Inr (ret, t)"
  shows "\<exists>es. trace t = trace s @ es \<and> set (sent_texts es) \<subseteq> plan_sends (item_plan f named E other)"
  using run_item_talks [OF assms(1-4,9,5)] item_plan_alike [OF assms(8,6,7), of named named]
  by (auto simp: talks_def view_of_def)

theorem parameters_not_in_texts_witness:
  "\<exists>t. run_item (cell_server ''7'') (demo_request ''pg.namespace.size'' ['''', '''', ''x'; DROP SCHEMA y; --'']) start_state
      = Inr (SYSINFO_RET_OK, t) \<and> set (sent_texts (trace t)) \<subseteq> {PGSQL_GET_NS_SIZE}"
proof -
  let ?E = "cell_server ''7''" and ?r = "demo_request ''pg.namespace.size'' ['''', '''', ''x'; DROP SCHEMA y; --'']"
  let ?o = "demo_request ''pg.namespace.size'' ['''', '''', ''public'']"
  have key: "item_function_of (req_key ?r) = Some F_PG_NAMESPACE_SIZE"
    by (simp add: item_function_of_def zbx_module_item_list_def keys_def)
  have ok: "call_ok ?E ?r start_state" by (rule demo_call_ok) simp_all
  have ver: "length (ZABBIX_VERSION ?E) < 1000" by simp
  have v: "value_answer ?E AR_UINT64 ''7'' = Inr (\<lambda>a. a\<lparr>res_ui64 := Some 7\<rparr>)"
    by (simp add: value_answer_def text_to_uint_def strtoull_def read_sign_def isdigit_def code_def
        digits_val_def digit_val_def skip_space_def isspace_def)
  have "\<exists>w. run_plan ?E ?r RESULT (item_plan F_PG_NAMESPACE_SIZE (\<lambda>k. None) ?E ?r) (trace start_state, answer start_state)
      = Inr (SYSINFO_RET_OK, w)"
    using cell_server_plan [OF _ v, of ?r RESULT]
    by (simp add: needed_plan_def PARAM_FIRST_def strisnull_def del: run_plan.simps)
  then obtain t where t: "run_item ?E ?r start_state = Inr (SYSINFO_RET_OK, t)"
    using planned_run [OF cell_server_ok(1) key _ ok empty_table] by (force simp: item_fits_def)
  have alike: "requests_alike ?E ?r ?o"
    by (auto simp: requests_alike_def alike_def strisnull_def mode_words_def cell_server_def demo_env_def
        isdigit_def code_def nth_Cons split: nat.split)
  have "item_plan F_PG_NAMESPACE_SIZE (\<lambda>k. None) ?E ?o = Value AR_UINT64 PGSQL_GET_NS_SIZE [''public'']"
    by (simp add: needed_plan_def PARAM_FIRST_def strisnull_def)
  then have "plan_sends (item_plan F_PG_NAMESPACE_SIZE (\<lambda>k. None) ?E ?o) = {PGSQL_GET_NS_SIZE}" by simp
  with parameters_not_in_texts [OF cell_server_ok(1) ver ok empty_table key _ _ alike t] t
  show ?thesis by (simp add: start_state_def)
qed

end
