(* ===== verification/Spec2Isabelle.thy ===== *)
theory Spec2Isabelle
  imports Lifecycle Tidy Values Startup Sessions Documents Statistics Independence
begin

text \<open>
  A verification development for libzbxpgsql, a loadable module of the Zabbix agent that answers
  item requests (\<open>pg.db.size\<close>, \<open>pg.backends.count\<close>, ...) by querying a PostgreSQL server. It models
  the C code under \<open>src/src\<close> of the repository; this block says what is modelled, where, and what
  is shown.

  The program. The agent loads the module (\<open>zbx_module_init\<close>), which reads named queries from a
  configuration file into global arrays. For each request it calls the item function that
  \<open>zbx_module_item_list\<close> registers for the key. Nearly all of them have the same shape: choose an SQL
  text from the key and the parameters, collect values to bind in a NULL-terminated array, connect
  with a connection string made from the first two parameters, run the query, turn the first cell or
  all rows (a JSON document) into the answer, release everything. When the module is unloaded,
  \<open>zbx_module_uninit\<close> calls \<open>uninit_config\<close>, which does nothing: the named queries stay until the
  process ends.

  The shape of the model. A function of the C code is a definition of the same name, a state
  transformer in the type \<open>mcmd\<close>. The state \<open>cstate\<close> (Machine) has an explicit store of objects (strings,
  byte buffers, pointer arrays, connections, results, JSON documents), so that leaks, double
  releases and writes out of bounds are visible; the trace of connections, statements, log messages
  and messages on the standard streams; the answer; the global query table; and, apart from the
  trace, the messages at level DEBUG (\<open>debug_log\<close>), with which nearly every function traces its entry
  and its exit (\<open>traced\<close>). A step C leaves undefined (NULL or freed pointers, writing
  past an array, overflow of signed arithmetic, a format directive without argument) ends the run in \<open>Inl\<close>
  of an \<open>undefined_behaviour\<close>. Everything outside the repository is a field of the record \<open>env\<close>: libpq
  and the server (\<open>PQconnectdb\<close>, \<open>PQexecParams\<close>, which may answer anything and may depend on all that
  happened before), libconfig, the agent's string helpers, \<open>inet_pton\<close>, rounding of floating point.
  The C standard library is modelled (CLib, CNumber).

  Theories and sources.
  \<^item> Prelude: commands that may fail, weakest preconditions, the locale \<open>step_relation\<close>.
  \<^item> CLib, CNumber: \<open>strcmp\<close>, \<open>strlen\<close>, \<open>printf\<close> formats, \<open>strtoull\<close>, \<open>atoi\<close>, \<open>atol\<close>, \<open>strtod\<close>.
  \<^item> Machine: environment, state, primitive operations, \<open>zabbix_log\<close> (\<open>libzbxpgsql.h\<close>) and
    \<open>set_err_result\<close> (\<open>libzbxpgsql.c\<close>).
  \<^item> Params: \<open>pg_params.c\<close>. Connect: \<open>pg_connect.c\<close> and \<open>strcat2\<close>. QueryTable, Config:
    \<open>pg_config.c\<close>. Exec: \<open>pg_exec\<close>, \<open>pg_scalar\<close>, \<open>pg_get_result\<close>, \<open>pg_get_percentage\<close>,
    \<open>pg_version\<close> of \<open>libzbxpgsql.c\<close>. Discovery: \<open>pg_discovery.c\<close>.
  \<^item> Server, Bgwriter, Setting, Namespace, Tablespace, Database, Tables, Indexes, Backends,
    UserQuery: the items of \<open>pg_server.c\<close>, \<open>pg_bgwriter.c\<close>, \<open>pg_setting.c\<close>, \<open>pg_namespace.c\<close>,
    \<open>pg_tablespace.c\<close>, \<open>pg_database.c\<close>, \<open>pg_table.c\<close>, \<open>pg_index.c\<close>, \<open>pg_backends.c\<close>, \<open>pg_query.c\<close>; \<open>is_oid\<close> and
    \<open>is_valid_ip\<close> stand with the filter clauses of Backends.
  \<^item> Module: the table of the 107 keys, the dispatch of the agent over the 48 item functions,
    \<open>zbx_module_init\<close>, \<open>zbx_module_uninit\<close>, and the life of the module as a step relation
    \<open>module_step\<close>: loaded, answering requests, refused, unloaded, or ended in an undefined operation.

  Abstract specifications and refinement. Refine and Items give a \<open>plan\<close> language without heap
  or handles: its state is the trace and the answer. Each item theory shows that its item functions
  implement their plans, by a simulation on the store (\<open>refines\<close>, with the framing condition that no other
  object changes; the debug log is free, and \<open>refines_traced\<close> drops the messages around a function); ItemPlans joins them into \<open>item_plan\<close>. Behaviour derives from the plans what holds
  of all items, Lifecycle carries it along the runs of \<open>module_step\<close>. The query table refines an ordered
  association list and a lookup in it, the parameter array a list of strings, the JSON document the
  rows of the result.

  What is left in the store. Refinement leaves open what a function does with the objects it makes.
  Tidy answers it with rules for commands that release what they make (\<open>tidy\<close>), one for each former
  and each function that asks the server, and derives that a successful item leaves nothing behind,
  or, for two of them, only strings of its own (\<open>copies\<close>).

  Locales. \<open>step_relation\<close> (Prelude): a preorder that every primitive keeps is kept by composed
  commands; interpreted as \<open>quiet\<close> (only log messages) and \<open>talk\<close> (only texts of a plan) in Behaviour, and
  as \<open>config\<close> in Config. \<open>param_vector\<close> (Params): the contract of a NULL-terminated array,
  interpreted as \<open>pv\<close> on \<open>param_len\<close>, \<open>param_append\<close>, \<open>param_free\<close>. \<open>named_queries\<close> (QueryTable): the
  contract of the table, interpreted as \<open>nq\<close> on \<open>add_named_query\<close> and \<open>get_query_by_name\<close>.

  Theorems. This theory holds those that span components: items refine plans, no undefined
  operation with a well-behaved server, the invariant of the loaded module, answers, bracketing of
  connections, the store after a success. QueryTable, Params and Connect hold those of their data structures; Values the conversions of
  server values; Sessions the store and the debug log after single calls, error paths and leaks included; Documents
  the discovery documents; Statements the SQL texts; Statistics the columns that keys stand for; Startup the start; Independence that texts
  do not carry parameter values.

  Hypotheses on the environment, each of them satisfied by the concrete servers of Example.
  \<open>zabbix_ok\<close>: the agent's helpers write at most \<open>n - 1\<close> characters and its strings have 2048 bytes.
  \<open>double_ok\<close>: integers up to \<open>2 ^ 53\<close> are exact. \<open>server_ok\<close>: libpq gives every cell and column name
  of a result, and the server's list of databases names each of them, in less than \<open>2 ^ 29\<close> bytes
  together. \<open>libconfig_ok\<close>: names in a group are distinct C strings. \<open>request_ok\<close>: keys and
  parameters are C strings, without NUL, of less than \<open>2 ^ 29\<close> bytes (the agent cuts a key with its
  parameters at 2048 characters). \<open>world_ok\<close> collects these for a life of the module.
  \<open>benign\<close>: error messages of connections hold no format directive, and the cells have numbers that fit
  the type they are read as, which theorems below show to be needed.

  Bounds. The model needs no fuel: the recursions end by structure or by measures (the binary
  search by its interval, the walks over digits and settings by their lists). Arrays of
  fixed size are modelled with it: the clause of the activity filter (\<open>4096\<close> bytes, of which the
  longest clause uses \<open>160\<close>), the index discovery (\<open>MAX_STRING_LEN\<close>, which a long filter overruns),
  the percentage query, the \<open>512\<close> bytes of the configuration path. The table of queries is
  shown right up to \<open>2 ^ 30\<close> queries, where the index sum of the search still fits an \<open>int\<close>. The sizes
  of the connection string and of the list of databases are narrowed to \<open>int\<close> as in the code; the
  bounds on \<open>request_ok\<close> and \<open>server_ok\<close> keep them in its range, and \<open>connstring_built\<close> shows what
  happens beyond.

  Not modelled. The search for symbols in the agent's image other than as found or not found; what the
  agent adds to a log message, such as its time; the name of the default configuration file on
  FreeBSD, which the preprocessor chooses. Characters above
  127 are not letters, digits or spaces (the C locale). Memory does not run out, which the code assumes
  too (the agent's allocation functions end the process); only a negative size, which as a \<open>size_t\<close>
  is larger than any memory, is modelled as that end (\<open>No_memory\<close>). A JSON document of the agent's library is an object of the store
  between \<open>zbx_json_init\<close> and \<open>zbx_json_free\<close>: its struct is local to the caller, and whether the text
  lies in the struct or on the heap is the library's business; released means passed to \<open>zbx_json_free\<close>.
  The templates and the build files hold no code of the module.
\<close>

section \<open>A concrete world\<close>

lemma number_42: "value_answer E AR_UINT64 ''42'' = Inr (\<lambda>a. a\<lparr>res_ui64 := Some 42\<rparr>)"
  and uint_42: "text_to_uint E ''42'' = Inr 42"
  and atol_42: "atol ''42'' = Inr 42" and atoi_42: "atoi ''42'' = Inr 42"
  by (simp_all add: value_answer_def text_to_uint_def strtoull_def read_sign_def isdigit_def code_def
        digits_val_def digit_val_def skip_space_def isspace_def atol_def atoi_def decimal_value_def)

lemma benign_42: "benign (cell_server ''42'')"
proof -
  have "benign_cell (cell_server ''42'') query ''42''" for query
    by (simp add: benign_cell_def uint_42 atol_42 atoi_42 cell_server_def demo_env_def)
  then show ?thesis
    by (simp add: benign_def cell_server_def demo_env_def rows_def accept_conn_def)
qed

lemma long_text: "\<exists>x. cstring x \<and> length x = n"
  by (rule exI [of _ "replicate n CHR ''x''"]) (simp add: cstring_def)

lemma world_42: "world_ok (cell_server ''42'')"
  by (simp add: world_ok_def demo_config_ok(1)) (simp add: cell_server_def demo_env_def demo_config_ok(1))

abbreviation size_request :: agent_request where
  "size_request \<equiv> demo_request ''pg.db.size'' ['''', '''', ''postgres'']"

lemma size_request_ok: "request_ok size_request"
  by (rule demo_request_ok) simp_all

lemma ready_42: "call_ok (cell_server ''42'') size_request start_state"
  by (rule demo_call_ok) simp_all

lemma key_size: "item_function_of ''pg.db.size'' = Some F_PG_DB_SIZE"
  and key_index: "item_function_of ''pg.index.discovery'' = Some F_PG_INDEX_DISCOVERY"
  by (simp_all add: item_function_of_def zbx_module_item_list_def keys_def)

lemma plan_42:
  "run_plan (cell_server ''42'') size_request RESULT
      (item_plan F_PG_DB_SIZE named (cell_server ''42'') size_request) (past, no_answer)
    = Inr (SYSINFO_RET_OK, (past @ [EConnect (request_connstring size_request),
        EExec PGSQL_GET_DB_SIZE [''postgres''], EFinish], no_answer\<lparr>res_ui64 := Some 42\<rparr>))"
  using cell_server_plan [OF _ number_42, of size_request RESULT PGSQL_GET_DB_SIZE "[''postgres'']"
      past no_answer]
  by (simp add: value_plan_def strisnull_def PARAM_FIRST_def del: run_plan.simps)

lemma view_start: "view_of start_state = ([], no_answer)" "answer start_state = no_answer"
    "trace start_state = []"
  by (simp_all add: view_of_def start_state_def)

lemma fits_42: "item_fits F_PG_DB_SIZE (cell_server ''42'') size_request"
  by (simp add: item_fits_def)

lemma run_42:
  "\<exists>t. run_item (cell_server ''42'') size_request start_state = Inr (SYSINFO_RET_OK, t) \<and>
    view_of t = ([EConnect (request_connstring size_request), EExec PGSQL_GET_DB_SIZE [''postgres''],
      EFinish], no_answer\<lparr>res_ui64 := Some 42\<rparr>)"
  using run_item_refines_plan [OF cell_server_ok(1) _ fits_42 ready_42 empty_table] key_size
  by (auto simp: refines_def view_start plan_42 simp del: item_plan.simps split: sum.splits)

lemma loaded_42: "\<exists>s. reachable (cell_server ''42'') demo_linker (Loaded s)"
proof -
  let ?E = "cell_server ''42''"
  let ?s = "start_state\<lparr>trace := trace start_state @ greeting ?E\<rparr>"
  have "queries ?s = queries start_state" by simp
  then obtain t where "init_config ?E ?s = Inr (ZBX_MODULE_OK, t)"
    using init_config_result [OF path_42 read_42 demo_config_ok(1), of ?s] demo_config_ok(2) by auto
  then have "zbx_module_init ?E demo_linker start_state = Inr (ZBX_MODULE_OK, t)"
    by (simp only: init_with_symbols [OF demo_symbols])
  then have "module_step ?E demo_linker (Unloaded start_state) (Loaded t)" by (rule start_ok)
  then show ?thesis using reachable_step [OF reachable_start] by blast
qed

lemma configured_42:
  "configured (cell_server ''42'') = map_of [(''tables'', ''SELECT count(*) FROM pg_tables''),
    (''locks'', ''SELECT count(*) FROM pg_locks WHERE mode = $1'')]"
  by (simp add: configured_def path_42)
    (simp add: cell_server_def demo_env_def demo_config_def file_queries_def query_entries_def)

section \<open>Items\<close>

text \<open>
  C1. Every item function of the module refines its plan, whatever the server answers: on a request
  whose key is in the table of keys, a run of the function ends in an undefined operation exactly
  when the plan does, and otherwise with the same return value, the same calls to the server and
  messages in the log, and the same answer. It changes neither the table of named queries nor any
  object that existed before. The one case in which the function does not follow its plan is an index
  discovery whose query has 2048 bytes or more: that run writes beyond its array.
\<close>

theorem item_refines_plan:
  assumes "zabbix_ok E" and "length (ZABBIX_VERSION E) < 1000" and "call_ok E request s"
    and "table_ok named s" and "item_function_of (req_key request) = Some f"
  shows "if f = F_PG_INDEX_DISCOVERY \<and> 2048 \<le> length (index_text request)
    then run_item E request s = Inl Out_of_bounds
    else case run_item E request s of
      Inl e \<Rightarrow> run_plan E request RESULT (item_plan f named E request) (view_of s) = Inl e
    | Inr (ret, t) \<Rightarrow>
        run_plan E request RESULT (item_plan f named E request) (view_of s) = Inr (ret, view_of t) \<and>
        queries t = queries s \<and> (\<forall>a < next_id s. store t a = store s a)"
proof (cases "f = F_PG_INDEX_DISCOVERY \<and> 2048 \<le> length (index_text request)")
  case True
  then show ?thesis
    using index_overflow [OF assms(1), of request RESULT s] call_okD [OF assms(3)] assms(1,5)
    by (simp add: run_item_def zabbix_ok_def)
next
  case False
  then have "item_fits f E request" using assms(1,2) by (auto simp: item_fits_def zabbix_ok_def)
  from run_item_refines_plan [OF assms(1,5) this assms(3,4)] False show ?thesis
    by (auto simp: refines_def framed_def split: sum.splits)
qed

theorem item_refines_plan_witness:
  "\<exists>t. run_item (cell_server ''42'') size_request start_state = Inr (SYSINFO_RET_OK, t) \<and>
    answer t = no_answer\<lparr>res_ui64 := Some 42\<rparr> \<and> sent_texts (trace t) = [PGSQL_GET_DB_SIZE]"
  using item_refines_plan [OF cell_server_ok(1) _ ready_42 empty_table, of F_PG_DB_SIZE] key_size
  by (auto simp: view_of_def view_start [unfolded view_of_def] plan_42 eq_commute [of _ "trace _"]
      eq_commute [of _ "answer _"] simp del: item_plan.simps split: sum.splits)

text \<open>
  C2. With a server that behaves (its error messages hold no format directives, its numbers fit
  their types), no item ends in an undefined operation: every request returns to the agent. The one
  condition on the request is that the names that filter an index discovery leave the query within
  its array of 2048 bytes.
\<close>

theorem benign_items_return:
  assumes "zabbix_ok E" and "benign E" and "length (ZABBIX_VERSION E) < 1000"
    and "call_ok E request s" and "table_ok named s"
    and "item_function_of (req_key request) = Some F_PG_INDEX_DISCOVERY \<Longrightarrow>
      length (index_text request) < 2048"
  shows "\<exists>ret t. run_item E request s = Inr (ret, t)"
  using run_item_defined [OF assms(1-5)] assms(1,6) by (simp add: zabbix_ok_def)

theorem benign_items_return_witness:
  "\<exists>ret t. run_item (cell_server ''42'') size_request start_state = Inr (ret, t)"
  using benign_items_return [OF cell_server_ok(1) benign_42 _ ready_42 empty_table] key_size by simp

text \<open>
  C6. Answers are complete: when an item returns from an empty answer with success, it has set exactly
  one value and no error message; when it returns with failure, it has set no value.
\<close>

theorem answers_complete:
  assumes "zabbix_ok E" and "length (ZABBIX_VERSION E) < 1000"
    and "call_ok E request s" and "table_ok named s" and "answer s = no_answer"
    and "run_item E request s = Inr (ret, t)"
  shows "if ret = SYSINFO_RET_OK then one_value (answer t) \<and> res_msg (answer t) = None
    else no_value (answer t)"
  using run_item_complete [OF assms] by simp

theorem answers_complete_witness:
  "\<exists>t. run_item (cell_server ''42'') size_request start_state = Inr (SYSINFO_RET_OK, t) \<and>
    one_value (answer t) \<and> res_msg (answer t) = None"
proof -
  obtain t where "run_item (cell_server ''42'') size_request start_state = Inr (SYSINFO_RET_OK, t)"
    using run_42 by blast
  with answers_complete [OF cell_server_ok(1) _ ready_42 empty_table view_start(2) this]
  show ?thesis by simp
qed

text \<open>
  C7. Connections are opened one at a time, queries are sent only on the open one, and it is closed
  before the item returns, on every path; the texts sent are those of the item's plan.
\<close>

theorem connections_bracketed:
  assumes "zabbix_ok E" and "length (ZABBIX_VERSION E) < 1000"
    and "call_ok E request s" and "table_ok named s"
    and "item_function_of (req_key request) = Some f" and "run_item E request s = Inr (ret, t)"
  shows "\<exists>es. trace t = trace s @ es \<and> link_run Closed es = Some Closed \<and>
    set (sent_texts es) \<subseteq> plan_sends (item_plan f named E request)"
  using run_item_talks [OF assms(1-4,6,5)] by (simp add: talks_def view_of_def)

theorem connections_bracketed_witness:
  "\<exists>t. run_item (cell_server ''42'') size_request start_state = Inr (SYSINFO_RET_OK, t) \<and>
    link_run Closed (trace t) = Some Closed \<and> set (sent_texts (trace t)) \<subseteq> {PGSQL_GET_DB_SIZE}"
proof -
  obtain t where t: "run_item (cell_server ''42'') size_request start_state = Inr (SYSINFO_RET_OK, t)"
    using run_42 by blast
  have "item_function_of (req_key size_request) = Some F_PG_DB_SIZE" by (simp add: key_size)
  from connections_bracketed [OF cell_server_ok(1) _ ready_42 empty_table this t] t
  show ?thesis by (simp add: view_start value_plan_def strisnull_def PARAM_FIRST_def)
qed

text \<open>
  C8. What an item that succeeds leaves in the store: nothing. Every string, buffer, array of
  parameters, connection, result and document that it made has been released when it returns, on
  every path to the success and whatever the server answers. Two of the 48 functions keep copies of
  cells, \<open>PG_SETTING\<close> and \<open>PG_STAT_ALL_INDEXES\<close>: what they add to the store are strings, and nothing
  that was there before is changed.
\<close>

theorem success_leaves_nothing:
  assumes "zabbix_ok E" and "call_ok E request s" and "item_function_of (req_key request) = Some f"
    and "run_item E request s = Inr (SYSINFO_RET_OK, t)"
  shows "if f \<in> {F_PG_SETTING, F_PG_STAT_ALL_INDEXES}
    then \<forall>a. store t a = store s a \<or> next_id s \<le> a \<and> (\<exists>v. store t a = Some (Str v))
    else store t = store s"
  using run_item_leaves [OF assms] unfolding copies_def .

theorem success_leaves_nothing_witness:
  "\<exists>t. run_item (cell_server ''42'') size_request start_state = Inr (SYSINFO_RET_OK, t) \<and>
    store t = store start_state \<and>
    trace t = [EConnect (request_connstring size_request), EExec PGSQL_GET_DB_SIZE [''postgres''], EFinish]"
proof -
  obtain t where t: "run_item (cell_server ''42'') size_request start_state = Inr (SYSINFO_RET_OK, t)"
    and v: "view_of t = ([EConnect (request_connstring size_request),
      EExec PGSQL_GET_DB_SIZE [''postgres''], EFinish], no_answer\<lparr>res_ui64 := Some 42\<rparr>)"
    using run_42 by blast
  have "item_function_of (req_key size_request) = Some F_PG_DB_SIZE" by (simp add: key_size)
  from success_leaves_nothing [OF cell_server_ok(1) ready_42 this t] t v
  show ?thesis by (simp add: view_of_def)
qed

section \<open>The life of the module\<close>

text \<open>
  C4. In every state the module reaches once it is loaded, after any requests whatever, the binary
  search in the global arrays gives for every name the query of the configuration file (or NULL),
  the connection to the server is closed, and no identifier of an object is used twice.
\<close>

theorem loaded_states_sound:
  assumes "world_ok E" and "reachable E l (Loaded s)"
  shows "(\<forall>k. cstring k \<longrightarrow> get_query_by_name (queries s) k = Inr (configured E k)) \<and>
    link_run Closed (trace s) = Some Closed \<and> fresh_ok s"
  using reachable_inv [OF assms] by (simp add: table_ok_def)

theorem loaded_states_sound_witness:
  "\<exists>s. reachable (cell_server ''42'') demo_linker (Loaded s) \<and>
    get_query_by_name (queries s) ''tables'' = Inr (Some ''SELECT count(*) FROM pg_tables'') \<and>
    get_query_by_name (queries s) ''nothing'' = Inr None"
proof -
  obtain s where s: "reachable (cell_server ''42'') demo_linker (Loaded s)" using loaded_42 by blast
  from loaded_states_sound [OF world_42 s] have
    "cstring k \<Longrightarrow> get_query_by_name (queries s) k = Inr (configured (cell_server ''42'') k)" for k by blast
  from this [of "''tables''"] this [of "''nothing''"] s show ?thesis
    by (auto simp: configured_42)
qed

text \<open>
  C5. With a benign server (its error texts hold no format directives, its numbers fit the types they
  are read as) a loaded module answers: in every state it reaches, every request that does not
  overflow the query of an index discovery leads to a loaded state again, with a complete answer.
\<close>

theorem loaded_module_answers:
  assumes "world_ok E" and "benign E" and "reachable E l (Loaded s)" and "request_ok request"
    and "item_function_of (req_key request) = Some F_PG_INDEX_DISCOVERY \<Longrightarrow>
      length (index_text request) < 2048"
  shows "\<exists>ret t. run_item E request (s\<lparr>answer := no_answer\<rparr>) = Inr (ret, t) \<and>
    reachable E l (Loaded t) \<and>
    (if ret = SYSINFO_RET_OK then one_value (answer t) \<and> res_msg (answer t) = None
     else no_value (answer t))"
proof -
  have E: "zabbix_ok E" "length (ZABBIX_VERSION E) < 1000" and size: "MAX_STRING_LEN E = 2048"
    using assms(1) by (simp_all add: world_ok_def zabbix_ok_def)
  note ready = item_ready [OF assms(1) reachable_inv [OF assms(1,3)] assms(4)]
  obtain ret t where run: "run_item E request (s\<lparr>answer := no_answer\<rparr>) = Inr (ret, t)"
    using run_item_defined [OF E(1) assms(2) E(2) ready] assms(5) size by auto
  moreover have "reachable E l (Loaded t)"
    by (rule reachable_step [OF assms(3) item [OF assms(4) run]])
  ultimately show ?thesis using run_item_complete [OF E ready _ run] by auto
qed

theorem loaded_module_answers_witness:
  "\<exists>s ret t. reachable (cell_server ''42'') demo_linker (Loaded s) \<and>
    run_item (cell_server ''42'') size_request (s\<lparr>answer := no_answer\<rparr>) = Inr (ret, t) \<and>
    reachable (cell_server ''42'') demo_linker (Loaded t)"
proof -
  obtain s where s: "reachable (cell_server ''42'') demo_linker (Loaded s)" using loaded_42 by blast
  from loaded_module_answers [OF world_42 benign_42 s size_request_ok] s key_size
  show ?thesis by auto
qed

text \<open>
  C3. The only ways to break the module with a benign server (its error texts hold no format
  directives, its numbers fit the types they are read as): a reachable state is followed by an
  undefined operation only when the module is loaded with a configuration path of more than 512 bytes,
  or when a loaded module is asked for an index discovery whose schema and table names make the query
  2048 bytes or longer, which is then written beyond its array on the stack.
\<close>

theorem only_long_names_break:
  assumes "world_ok E" and "benign E" and "reachable E l m" and "module_step E l m (Broken e)"
  shows "(\<exists>s path. m = Unloaded s \<and> getenv_PGCONFIGFILE E = Some path \<and> 512 < length path) \<or>
    (\<exists>s request. m = Loaded s \<and> 2048 \<le> length (index_text request) \<and>
      item_function_of (req_key request) = Some F_PG_INDEX_DISCOVERY \<and> e = Out_of_bounds)"
  using assms(4)
proof cases
  case (start_broken s)
  have "config_path E = None"
    using module_init_defined [OF assms(1), of _ l s] start_broken by (cases "config_path E") auto
  then show ?thesis
    using start_broken
    by (auto simp: config_path_def MAX_GLOBBING_PATH_LENGTH_def split: option.splits if_splits)
next
  case (item_broken request s)
  have E: "zabbix_ok E" "length (ZABBIX_VERSION E) < 1000" and size: "MAX_STRING_LEN E = 2048"
    using assms(1) by (simp_all add: world_ok_def zabbix_ok_def)
  have "reachable E l (Loaded s)" using assms(3) item_broken by simp
  note ready = item_ready [OF assms(1) reachable_inv [OF assms(1) this] item_broken(2)]
  have key: "item_function_of (req_key request) = Some F_PG_INDEX_DISCOVERY"
    and long: "\<not> length (index_text request) < MAX_STRING_LEN E"
    using run_item_defined [OF E(1) assms(2) E(2) ready] item_broken(3) by auto
  have "run_item E request (s\<lparr>answer := no_answer\<rparr>) = Inl Out_of_bounds"
    using index_overflow [OF E(1) item_broken(2) long] key by (simp add: run_item_def)
  then show ?thesis
    using item_broken key long size by (intro disjI2 exI [of _ s] exI [of _ request]) simp
qed

theorem only_long_names_break_witness:
  "\<exists>m e. reachable (cell_server ''42'') demo_linker m \<and> module_step (cell_server ''42'') demo_linker m (Broken e) \<and>
    e = Out_of_bounds"
proof -
  let ?E = "cell_server ''42''"
  obtain x where x: "cstring x" "length x = 2048" using long_text by blast
  let ?r = "demo_request ''pg.index.discovery'' ['''', '''', '''', x]"
  obtain s where s: "reachable ?E demo_linker (Loaded s)" using loaded_42 by blast
  have ok: "request_ok ?r" by (rule demo_request_ok) (simp_all add: x)
  have "\<not> length (index_text ?r) < MAX_STRING_LEN ?E"
    using x by (auto simp: index_text_def name_filter_def strisnull_def PARAM_FIRST_def)
  from index_overflow [OF cell_server_ok(1) ok this]
  have "run_item ?E ?r (s\<lparr>answer := no_answer\<rparr>) = Inl Out_of_bounds"
    by (simp add: run_item_def key_index)
  from item_broken [OF ok this]
  have step: "module_step ?E demo_linker (Loaded s) (Broken Out_of_bounds)" .
  from only_long_names_break [OF world_42 benign_42 s step] s step show ?thesis by blast
qed

end
